(* ===== verification/Prelude.thy ===== *)
theory Prelude
  imports Main "HOL-Library.Word" "HOL-Library.Signed_Division" "HOL-Library.Monad_Syntax"
begin

unbundle bit_operations_syntax

text \<open>
  What the components share: names for the C integer types, C division, NUL-terminated
  strings, \<^verbatim>\<open>snprintf\<close>-style formatting, buffers, and the two correctness
  predicates for code that may fail to return.

  Convention of the whole development: a C function that can leave the defined behaviour of
  C (a failed \<open>assert\<close>, an access outside an object, a null dereference) or that can run
  forever has a result of type \<open>'a option\<close>, where \<open>None\<close> is exactly that outcome. An
  ordinary error return of the code is an ordinary value under \<open>Some\<close>.
\<close>

type_synonym u8 = "8 word"
type_synonym u16 = "16 word"
type_synonym u32 = "32 word"
type_synonym u64 = "64 word"

named_theorems wp_leaf \<open>what one external call or one operation guarantees\<close>
named_theorems cmd_defs \<open>the command builders, unfolded together\<close>

section \<open>Partial and total correctness of stateful code\<close>

text \<open>
  Stateful code has type \<open>'s \<Rightarrow> ('a \<times> 's) option\<close>. \<open>ensures r Q\<close> says that the run
  \<open>r\<close> satisfies \<open>Q\<close> if it returns; \<open>returns r Q\<close> says in addition that it returns.
\<close>

definition ensures :: "('a \<times> 's) option \<Rightarrow> ('a \<Rightarrow> 's \<Rightarrow> bool) \<Rightarrow> bool" where
  "ensures r Q = (case r of None \<Rightarrow> True | Some (a, s) \<Rightarrow> Q a s)"

definition returns :: "('a \<times> 's) option \<Rightarrow> ('a \<Rightarrow> 's \<Rightarrow> bool) \<Rightarrow> bool" where
  "returns r Q = (case r of None \<Rightarrow> False | Some (a, s) \<Rightarrow> Q a s)"

lemma ensures_simps [simp]:
  "ensures None Q"
  "ensures (Some (a, s)) Q = Q a s"
  by (simp_all add: ensures_def)

lemma returns_simps [simp]:
  "\<not> returns None Q"
  "returns (Some (a, s)) Q = Q a s"
  by (simp_all add: returns_def)

lemma ensures_bind [simp]:
  "ensures (Option.bind r (\<lambda>(a, s). k a s)) Q = ensures r (\<lambda>a s. ensures (k a s) Q)"
  by (cases r) (auto simp: ensures_def)

lemma returns_bind [simp]:
  "returns (Option.bind r (\<lambda>(a, s). k a s)) Q = returns r (\<lambda>a s. returns (k a s) Q)"
  by (cases r) (auto simp: returns_def)

lemma ensures_if [simp]:
  "ensures (if b then r else r') Q = ((b \<longrightarrow> ensures r Q) \<and> (\<not> b \<longrightarrow> ensures r' Q))"
  by simp

lemma returns_if [simp]:
  "returns (if b then r else r') Q = ((b \<longrightarrow> returns r Q) \<and> (\<not> b \<longrightarrow> returns r' Q))"
  by simp

lemma ensures_mono: "ensures r P \<Longrightarrow> (\<And>a s. P a s \<Longrightarrow> Q a s) \<Longrightarrow> ensures r Q"
  by (cases r) (auto simp: ensures_def)

lemma returns_mono: "returns r P \<Longrightarrow> (\<And>a s. P a s \<Longrightarrow> Q a s) \<Longrightarrow> returns r Q"
  by (cases r) (auto simp: returns_def)

lemma ensures_conj: "ensures r P \<Longrightarrow> ensures r Q \<Longrightarrow> ensures r (\<lambda>a s. P a s \<and> Q a s)"
  by (cases r) (auto simp: ensures_def)

lemma returns_conj_ensures:
  "returns r P \<Longrightarrow> ensures r Q \<Longrightarrow> returns r (\<lambda>a s. P a s \<and> Q a s)"
  by (cases r) (auto simp: ensures_def returns_def)

lemma returns_ensures: "returns r Q \<Longrightarrow> ensures r Q"
  by (cases r) (auto simp: ensures_def returns_def)

lemma ensuresI: "(\<And>a s. r = Some (a, s) \<Longrightarrow> Q a s) \<Longrightarrow> ensures r Q"
  by (cases r) (auto simp: ensures_def)

lemma ensuresD: "ensures r Q \<Longrightarrow> r = Some (a, s) \<Longrightarrow> Q a s"
  by (simp add: ensures_def)

lemma returns_iff: "returns r Q \<longleftrightarrow> (\<exists>a s. r = Some (a, s) \<and> Q a s)"
  by (cases r) (auto simp: returns_def)

section \<open>C integers\<close>

text \<open>Division and remainder of C truncate towards zero.\<close>

abbreviation cdiv :: "int \<Rightarrow> int \<Rightarrow> int" where
  "cdiv a b \<equiv> a sdiv b"

lemma cdiv_nonneg [simp]: "0 \<le> a \<Longrightarrow> 0 < b \<Longrightarrow> a sdiv b = a div (b :: int)"
  by (cases "a = 0") (simp_all add: signed_divide_int_def)

lemma cmod_nonneg [simp]: "0 \<le> a \<Longrightarrow> 0 < b \<Longrightarrow> a smod b = a mod (b :: int)"
  by (cases "a = 0") (simp_all add: signed_modulo_int_def)

definition int32_ok :: "int \<Rightarrow> bool" where
  \<comment> \<open>representable in a 32-bit \<open>int\<close>\<close>
  "int32_ok i \<longleftrightarrow> - (2 ^ 31) \<le> i \<and> i < 2 ^ 31"

lemma u8_bound: "unat (a :: u8) < 256"
  using unsigned_less [of a] by simp

lemma u8_join:
  "unat (ucast (a :: u8) OR push_bit 8 (ucast (b :: u8)) :: u16) = unat a + 256 * unat b"
proof -
  have "(ucast a OR push_bit 8 (ucast b) :: u16) = ucast a + push_bit 8 (ucast b)"
    by (rule disjunctive_add [symmetric])
      (auto simp: bit_push_bit_iff bit_unsigned_iff dest: bit_imp_le_length)
  moreover have "unat (push_bit 8 (ucast b :: u16)) = 256 * unat b"
    using u8_bound [of b] by (simp add: push_bit_eq_mult unat_word_ariths unsigned_ucast_eq take_bit_eq_mod)
  ultimately show ?thesis
    using u8_bound [of a] u8_bound [of b]
    by (simp add: unat_word_ariths unsigned_ucast_eq take_bit_eq_mod)
qed

section \<open>NUL-terminated strings\<close>

text \<open>
  A C string is the list of the bytes before its terminator. \<open>c_at s i\<close> is the byte at
  index \<open>i\<close>: the terminator at the end, \<open>None\<close> past it, where C must not read.
\<close>

definition c_at :: "string \<Rightarrow> nat \<Rightarrow> char option" where
  "c_at s i = (if i < length s then Some (s ! i) else if i = length s then Some (CHR 0x00) else None)"

lemma c_at_simps:
  "i < length s \<Longrightarrow> c_at s i = Some (s ! i)"
  "c_at s (length s) = Some (CHR 0x00)"
  "length s < i \<Longrightarrow> c_at s i = None"
  by (auto simp: c_at_def)

lemma c_at_next: "c_at s i = Some c \<Longrightarrow> c \<noteq> CHR 0x00 \<Longrightarrow> \<exists>d. c_at s (Suc i) = Some d"
  by (auto simp: c_at_def split: if_splits)

definition prefix_of :: "string \<Rightarrow> string \<Rightarrow> bool" where
  \<comment> \<open>\<open>!strncmp(s, p, strlen(p))\<close>\<close>
  "prefix_of p s \<longleftrightarrow> take (length p) s = p"

lemma prefix_of_append [simp]: "prefix_of p (p @ s)"
  by (simp add: prefix_of_def)

lemma prefix_of_iff: "prefix_of p s \<longleftrightarrow> (\<exists>r. s = p @ r)"
  by (metis append_eq_conv_conj append_take_drop_id prefix_of_def)

definition snprintf :: "nat \<Rightarrow> string \<Rightarrow> string" where
  \<comment> \<open>the buffer after \<open>snprintf(buffer, size, ...)\<close> has formatted the text \<open>s\<close>\<close>
  "snprintf sz s = take (sz - 1) s"

lemma snprintf_fits: "length s < sz \<Longrightarrow> snprintf sz s = s"
  by (simp add: snprintf_def)

fun dec_digits :: "nat \<Rightarrow> string" where
  "dec_digits n = (if n < 10 then [char_of (48 + n)] else dec_digits (n div 10) @ [char_of (48 + n mod 10)])"

declare dec_digits.simps [simp del]

definition fmt_d :: "int \<Rightarrow> string" where
  \<comment> \<open>the conversion \<open>%d\<close>\<close>
  "fmt_d i = (if i < 0 then CHR ''-'' # dec_digits (nat (- i)) else dec_digits (nat i))"

definition hex_char :: "nat \<Rightarrow> char" where
  "hex_char n = (if n < 10 then char_of (48 + n) else char_of (87 + n))"

definition fmt_04x :: "u16 \<Rightarrow> string" where
  \<comment> \<open>the conversion \<open>%04x\<close> of a 16-bit value\<close>
  "fmt_04x w = map (\<lambda>k. hex_char (unat w div 16 ^ k mod 16)) [3, 2, 1, 0]"

section \<open>Buffers\<close>

definition blit :: "'a list \<Rightarrow> nat \<Rightarrow> 'a list \<Rightarrow> 'a list option" where
  \<comment> \<open>write \<open>data\<close> into \<open>buf\<close> at \<open>off\<close>; \<open>None\<close> if it does not fit\<close>
  "blit buf off data =
     (if off + length data \<le> length buf
      then Some (take off buf @ data @ drop (off + length data) buf) else None)"

lemma blit_length: "blit buf off data = Some buf' \<Longrightarrow> length buf' = length buf"
  by (auto simp: blit_def split: if_splits)

lemma blit_nth:
  assumes "blit buf off data = Some buf'" "i < length buf"
  shows "buf' ! i = (if off \<le> i \<and> i < off + length data then data ! (i - off) else buf ! i)"
  using assms by (auto simp: blit_def nth_append min_def split: if_splits)

lemma blit_whole: "length data = length buf \<Longrightarrow> blit buf 0 data = Some data"
  by (simp add: blit_def)

section \<open>Lists\<close>

lemma find_Some_set: "List.find P xs = Some x \<Longrightarrow> x \<in> set xs \<and> P x"
  by (induction xs) (auto split: if_splits)

lemma find_None_set: "List.find P xs = None \<longleftrightarrow> (\<forall>x\<in>set xs. \<not> P x)"
  by (induction xs) auto

lemma find_distinct_key:
  "distinct (map f xs) \<Longrightarrow> x \<in> set xs \<Longrightarrow> List.find (\<lambda>y. f y = f x) xs = Some x"
  by (induction xs) (auto simp: image_iff)

end
