(* ===== verification/Config.thy ===== *)
theory Config
  imports Prelude
begin

unbundle bit_operations_syntax

text \<open>
  \<^verbatim>\<open>src/config.c\<close>, \<^verbatim>\<open>src/config.h\<close>: the two startup setting parsers. A null argument is
  \<open>None\<close>. The Bluetooth parser reads characters by index, so its model goes through
  \<open>c_at\<close>: the outer \<open>None\<close> of its result would be a read past the terminator.
\<close>

section \<open>The idle poll interval\<close>

definition INT_MAX :: int where "INT_MAX = 2147483647"

definition isdigit :: "char \<Rightarrow> bool" where
  "isdigit c \<longleftrightarrow> 48 \<le> (of_char c :: int) \<and> (of_char c :: int) \<le> 57"

fun idle_poll_loop :: "string \<Rightarrow> int \<Rightarrow> int option" where
  "idle_poll_loop [] v = Some v"
| "idle_poll_loop (c # p) v =
    (if \<not> isdigit c then None
     else (let v' = v * 10 + (of_char c - 48) in
           if v' > INT_MAX then None else idle_poll_loop p v'))"

definition pt_parse_idle_poll :: "string option \<Rightarrow> int option" where
  \<comment> \<open>\<open>None\<close> is the return value false\<close>
  "pt_parse_idle_poll text =
    (case text of None \<Rightarrow> Some (- 1)
     | Some t \<Rightarrow> if t = [] then Some (- 1) else idle_poll_loop t 0)"

definition dec_value :: "int \<Rightarrow> string \<Rightarrow> int" where
  \<comment> \<open>the number a digit string denotes, continuing from \<open>v\<close>\<close>
  "dec_value v t = foldl (\<lambda>v c. v * 10 + (of_char c - 48)) v t"

lemma dec_value_simps [simp]:
  "dec_value v [] = v"
  "dec_value v (c # t) = dec_value (v * 10 + (of_char c - 48)) t"
  "dec_value v (t @ u) = dec_value (dec_value v t) u"
  by (simp_all add: dec_value_def)

lemma dec_value_mono:
  "list_all isdigit t \<Longrightarrow> 0 \<le> v \<Longrightarrow> v \<le> dec_value v t"
proof (induction t arbitrary: v)
  case (Cons c t)
  then have "0 \<le> (of_char c :: int) - 48" by (simp add: isdigit_def)
  with Cons.prems have "v \<le> v * 10 + (of_char c - 48)" "0 \<le> v * 10 + (of_char c - 48 :: int)" by auto
  with Cons.IH [of "v * 10 + (of_char c - 48)"] Cons.prems show ?case by auto
qed simp

lemma idle_poll_loop_iff:
  "0 \<le> v \<Longrightarrow> v \<le> INT_MAX \<Longrightarrow>
   idle_poll_loop t v = Some n \<longleftrightarrow> list_all isdigit t \<and> dec_value v t \<le> INT_MAX \<and> n = dec_value v t"
proof (induction t arbitrary: v)
  case (Cons c t)
  show ?case
  proof (cases "isdigit c")
    case True
    define v' where "v' = v * 10 + (of_char c - 48 :: int)"
    have v': "0 \<le> v'" using True Cons.prems by (auto simp: v'_def isdigit_def)
    have "list_all isdigit t \<Longrightarrow> v' \<le> dec_value v' t"
      using dec_value_mono v' by blast
    then show ?thesis
      using True Cons.IH [of v'] v' by (auto simp: v'_def Let_def)
  qed simp
qed auto

lemma digit_char: "n < 10 \<Longrightarrow> (of_char (char_of (48 + n :: nat)) :: int) = 48 + int n"
proof -
  assume "n < 10"
  then have "(of_char (char_of (48 + n :: nat)) :: nat) = 48 + n" by simp
  then show ?thesis by (metis of_nat_add of_nat_numeral of_nat_of_char)
qed

lemma isdigit_digit: "n < 10 \<Longrightarrow> isdigit (char_of (48 + n :: nat))"
  by (simp add: isdigit_def digit_char)

lemma dec_digits_digit: "list_all isdigit (dec_digits n)"
proof (induction n rule: dec_digits.induct)
  case (1 n)
  then show ?case
    by (subst dec_digits.simps) (auto simp: isdigit_digit)
qed

lemma dec_digits_nonempty: "dec_digits n \<noteq> []"
  by (subst dec_digits.simps) simp

lemma dec_digits_value: "dec_value 0 (dec_digits n) = int n"
proof (induction n rule: dec_digits.induct)
  case (1 n)
  then show ?case
    by (subst dec_digits.simps) (auto simp: digit_char zdiv_int zmod_int)
qed

text \<open>The idle poll setting is accepted exactly when it is absent or empty (then the value is
  \<open>-1\<close>, follow every status request) or a string of decimal digits whose value fits an
  \<open>int\<close>, and the result is that value.\<close>

theorem parse_idle_poll_exact:
  "pt_parse_idle_poll text = Some n \<longleftrightarrow>
    (case text of None \<Rightarrow> n = - 1
     | Some t \<Rightarrow> if t = [] then n = - 1
                 else list_all isdigit t \<and> dec_value 0 t \<le> INT_MAX \<and> n = dec_value 0 t)"
  by (auto simp: pt_parse_idle_poll_def idle_poll_loop_iff INT_MAX_def split: option.split)

text \<open>Every interval the driver can store survives printing and parsing: the decimal form of
  any \<open>int\<close> that is not negative parses back to itself.\<close>

theorem parse_idle_poll_roundtrip:
  assumes "0 \<le> n" "n \<le> INT_MAX"
  shows "pt_parse_idle_poll (Some (fmt_d n)) = Some n"
  using assms by (simp add: pt_parse_idle_poll_def fmt_d_def dec_digits_nonempty idle_poll_loop_iff
      dec_digits_digit dec_digits_value)

theorem parse_idle_poll_roundtrip_witness:
  "pt_parse_idle_poll (Some (fmt_d 300)) = Some 300"
  by (rule parse_idle_poll_roundtrip) (simp_all add: INT_MAX_def)

lemma idle_poll_no_overflow:
  \<comment> \<open>the accumulator never leaves a 64-bit \<open>long\<close>\<close>
  "0 \<le> v \<Longrightarrow> v \<le> INT_MAX \<Longrightarrow> isdigit c \<Longrightarrow> v * 10 + (of_char c - 48) < 2 ^ 63"
  by (simp add: INT_MAX_def isdigit_def)

section \<open>The Bluetooth address\<close>

definition hex_digit :: "char \<Rightarrow> int" where
  "hex_digit c =
    (let n = of_char c in
     if 48 \<le> n \<and> n \<le> 57 then n - 48
     else if 97 \<le> n \<and> n \<le> 102 then n - 97 + 10
     else if 65 \<le> n \<and> n \<le> 70 then n - 65 + 10
     else - 1)"

definition bt_octet :: "string \<Rightarrow> nat \<Rightarrow> u8 option option" where
  \<comment> \<open>one turn of the loop: the octet, or \<open>Some None\<close> for the early \<open>return false\<close>\<close>
  "bt_octet text i = do {
     p0 \<leftarrow> c_at text (i * 3);
     let high = hex_digit p0;
     low \<leftarrow> (if high < 0 then Some (- 1) else do { p1 \<leftarrow> c_at text (i * 3 + 1); Some (hex_digit p1) });
     if low < 0 then Some None
     else do {
       p2 \<leftarrow> c_at text (i * 3 + 2);
       if p2 \<noteq> (if i < 5 then CHR '':'' else CHR 0x00) then Some None
       else Some (Some (word_of_int (push_bit 4 high OR low)))
     }
   }"

fun bt_octets :: "string \<Rightarrow> nat \<Rightarrow> nat \<Rightarrow> u8 list option option" where
  "bt_octets text i 0 = Some (Some [])"
| "bt_octets text i (Suc k) = do {
     r \<leftarrow> bt_octet text i;
     case r of None \<Rightarrow> Some None
     | Some b \<Rightarrow> do { rest \<leftarrow> bt_octets text (Suc i) k; Some (map_option ((#) b) rest) }
   }"

definition pt_parse_bt_address :: "string option \<Rightarrow> u8 list option option" where
  "pt_parse_bt_address text =
    (case text of None \<Rightarrow> Some None | Some t \<Rightarrow> bt_octets t 0 6)"

lemma hex_digit_NUL: "hex_digit (CHR 0x00) = - 1"
  by (simp add: hex_digit_def)

lemma hex_digit_range: "- 1 \<le> hex_digit c \<and> hex_digit c < 16"
  by (auto simp: hex_digit_def Let_def)

lemma hex_digit_in_text: "c_at s i = Some c \<Longrightarrow> 0 \<le> hex_digit c \<Longrightarrow> i < length s"
  by (auto simp: c_at_def hex_digit_NUL split: if_splits)

lemma bt_octet_safe:
  assumes "i * 3 \<le> length t"
  shows "bt_octet t i \<noteq> None"
proof -
  obtain p0 where p0: "c_at t (i * 3) = Some p0"
    using assms by (cases "i * 3 < length t") (auto simp: c_at_def)
  show ?thesis
  proof (cases "hex_digit p0 < 0")
    case False
    then have "i * 3 < length t" using p0 hex_digit_in_text by force
    then obtain p1 where p1: "c_at t (i * 3 + 1) = Some p1"
      by (cases "i * 3 + 1 < length t") (auto simp: c_at_def)
    then show ?thesis
      using p0 False hex_digit_in_text [OF p1]
      by (cases "hex_digit p1 < 0") (auto simp: bt_octet_def c_at_def)
  qed (simp add: bt_octet_def p0)
qed

lemma bt_octet_next:
  "bt_octet t i = Some (Some b) \<Longrightarrow> i < 5 \<Longrightarrow> Suc i * 3 \<le> length t"
  by (auto simp: bt_octet_def c_at_def Let_def bind_eq_Some_conv split: if_splits)

lemma bt_octets_safe: "i * 3 \<le> length t \<Longrightarrow> i + k \<le> 6 \<Longrightarrow> bt_octets t i k \<noteq> None"
proof (induction k arbitrary: i)
  case (Suc k)
  then obtain r where r: "bt_octet t i = Some r" using bt_octet_safe by blast
  show ?case
  proof (cases "k = 0 \<or> r = None")
    case True
    then show ?thesis by (auto simp: r split: option.split)
  next
    case False
    then obtain b where "r = Some b" by blast
    with r False Suc.prems have "Suc i * 3 \<le> length t" using bt_octet_next by auto
    with Suc.IH [of "Suc i"] Suc.prems obtain x where "bt_octets t (Suc i) k = Some x" by auto
    then show ?thesis by (simp add: r \<open>r = Some b\<close>)
  qed
qed simp

text \<open>The address parser never reads past the terminator of its argument, whatever the
  string: the character of each position is read only after the ones before it were found not to
  be the terminator.\<close>

theorem parse_bt_address_memory_safe: "\<exists>r. pt_parse_bt_address text = Some r"
  using bt_octets_safe [of 0] by (auto simp: pt_parse_bt_address_def split: option.split)

definition upper_hex :: "u8 \<Rightarrow> string" where
  "upper_hex b = map (\<lambda>n. if n < 10 then char_of (48 + n) else char_of (55 + n :: nat))
     [unat b div 16, unat b mod 16]"

fun format_bt :: "u8 list \<Rightarrow> string" where
  \<comment> \<open>the canonical text of an address\<close>
  "format_bt [] = []"
| "format_bt [b] = upper_hex b"
| "format_bt (b # bs) = upper_hex b @ CHR '':'' # format_bt bs"

lemma hex_digit_upper:
  "n < 16 \<Longrightarrow> hex_digit (if n < 10 then char_of (48 + n) else char_of (55 + n :: nat)) = int n"
proof -
  assume n: "n < 16"
  have c: "(of_char (char_of m) :: int) = int m" if "m < 256" for m :: nat
  proof -
    have "(of_char (char_of m) :: int) = int (of_char (char_of m))" by (simp only: of_nat_of_char)
    then show ?thesis using that by simp
  qed
  have "(of_char (char_of (48 + n)) :: int) = 48 + int n" "(of_char (char_of (55 + n)) :: int) = 55 + int n"
    using c [of "48 + n"] c [of "55 + n"] n by simp_all
  then show ?thesis using n by (auto simp: hex_digit_def Let_def)
qed

lemma join_nibbles:
  fixes b :: u8
  shows "(word_of_int (push_bit 4 (int (unat b div 16)) OR int (unat b mod 16)) :: u8) = b"
proof -
  have "push_bit 4 (int (unat b div 16)) OR int (unat b mod 16)
      = push_bit 4 (drop_bit 4 (int (unat b))) OR take_bit 4 (int (unat b))"
    by (simp add: drop_bit_eq_div take_bit_eq_mod zdiv_int zmod_int)
  also have "\<dots> = int (unat b)"
    by (rule bit_eqI) (auto simp: bit_simps)
  finally show ?thesis by simp
qed

lemma upper_hex_simp:
  "upper_hex b = [(if unat b div 16 < 10 then char_of (48 + unat b div 16) else char_of (55 + unat b div 16)),
     (if unat b mod 16 < 10 then char_of (48 + unat b mod 16) else char_of (55 + unat b mod 16))]"
  by (simp add: upper_hex_def)

lemma bt_octet_at:
  assumes "c_at t (i * 3) = Some (upper_hex b ! 0)" "c_at t (i * 3 + 1) = Some (upper_hex b ! 1)"
    and "c_at t (i * 3 + 2) = Some (if i < 5 then CHR '':'' else CHR 0x00)"
  shows "bt_octet t i = Some (Some b)"
proof -
  have "unat b div 16 < 16" "unat b mod 16 < 16" using u8_bound [of b] by auto
  then have h: "hex_digit (upper_hex b ! 0) = int (unat b div 16)"
      "hex_digit (upper_hex b ! 1) = int (unat b mod 16)"
    unfolding upper_hex_simp using hex_digit_upper by simp_all
  then show ?thesis
    unfolding bt_octet_def assms by (simp add: h join_nibbles)
qed

lemma c_at_hex:
  "c_at (upper_hex b @ r) 0 = Some (upper_hex b ! 0)"
  "c_at (upper_hex b @ r) (Suc 0) = Some (upper_hex b ! 1)"
  "c_at (upper_hex b @ r) (Suc (Suc n)) = c_at r n"
  by (simp_all add: upper_hex_simp c_at_def)

lemma c_at_Cons: "c_at (c # r) 0 = Some c" "c_at (c # r) (Suc n) = c_at r n" "c_at [] 0 = Some (CHR 0x00)"
  by (simp_all add: c_at_def)

lemma length_format: "bs \<noteq> [] \<Longrightarrow> length (format_bt bs) = 3 * length bs - 1"
  by (induction bs rule: format_bt.induct) (auto simp: upper_hex_def)

lemma bt_octets_format:
  assumes "length bs + i = 6" "\<And>n. c_at t (i * 3 + n) = c_at (format_bt bs) n"
  shows "bt_octets t i (length bs) = Some (Some bs)"
  using assms
proof (induction bs arbitrary: i rule: format_bt.induct)
  case (2 b)
  note at = 2(2)
  have "bt_octet t i = Some (Some b)"
  proof (rule bt_octet_at)
    show "c_at t (i * 3) = Some (upper_hex b ! 0)"
      using at [of 0] c_at_hex(1) [of b "[]"] by simp
    show "c_at t (i * 3 + 1) = Some (upper_hex b ! 1)"
      using at [of 1] c_at_hex(2) [of b "[]"] by simp
    show "c_at t (i * 3 + 2) = Some (if i < 5 then CHR '':'' else CHR 0x00)"
      using at [of 2] c_at_hex(3) [of b "[]" 0] 2(1) by (simp add: c_at_Cons numeral_2_eq_2)
  qed
  then show ?case by simp
next
  case (3 b c bs)
  note at = 3(3)
  have "bt_octet t i = Some (Some b)"
  proof (rule bt_octet_at)
    show "c_at t (i * 3) = Some (upper_hex b ! 0)"
      using at [of 0] by (simp add: c_at_hex)
    show "c_at t (i * 3 + 1) = Some (upper_hex b ! 1)"
      using at [of 1] by (simp add: c_at_hex)
    show "c_at t (i * 3 + 2) = Some (if i < 5 then CHR '':'' else CHR 0x00)"
      using at [of 2] 3(2) by (simp add: c_at_hex c_at_Cons numeral_2_eq_2)
  qed
  moreover have "bt_octets t (Suc i) (length (c # bs)) = Some (Some (c # bs))"
  proof (rule "3.IH")
    show "length (c # bs) + Suc i = 6" using 3(2) by simp
    show "c_at t (Suc i * 3 + n) = c_at (format_bt (c # bs)) n" for n
      using at [of "3 + n"] by (simp add: c_at_hex c_at_Cons numeral_3_eq_3 algebra_simps)
  qed
  ultimately show ?case by simp
qed simp

text \<open>Printing an address of six bytes, most significant first, as colon-separated hex and
  parsing it gives the six bytes back, so no valid address is refused or changed.\<close>

theorem parse_bt_address_roundtrip:
  assumes "length bs = 6"
  shows "pt_parse_bt_address (Some (format_bt bs)) = Some (Some bs)"
  using bt_octets_format [of bs 0 "format_bt bs"] assms by (simp add: pt_parse_bt_address_def)

theorem parse_bt_address_roundtrip_witness:
  "pt_parse_bt_address (Some (format_bt [0xA4, 0xC1, 0x38, 0xAB, 0xCD, 0xEF]))
     = Some (Some [0xA4, 0xC1, 0x38, 0xAB, 0xCD, 0xEF])"
  by (rule parse_bt_address_roundtrip) simp

end
