(* ===== verification/Tables.thy ===== *)
theory Tables
  imports Prelude
begin

unbundle bit_operations_syntax

text \<open>
  \<^verbatim>\<open>src/tables.c\<close>, \<^verbatim>\<open>src/tables.h\<close>: the device table, its two lookups, the tape widths and the
  tape geometry at 180 dpi. The sentinel rows that end the C arrays are the ends of the lists;
  a pointer into the table is its row, and rows are distinct, so comparing pointers is
  comparing rows. The locale \<open>tape_window\<close> is the interface the driver and the PNG
  filter use.
\<close>

section \<open>Devices\<close>

definition FLAG_NONE :: u32 where "FLAG_NONE = 0x00"
definition FLAG_RASTER_PACKBITS :: u32 where "FLAG_RASTER_PACKBITS = 0x01"
definition FLAG_P700_INIT :: u32 where "FLAG_P700_INIT = 0x02"
definition FLAG_PLITE :: u32 where "FLAG_PLITE = 0x04"

lemmas flag_defs = FLAG_NONE_def FLAG_RASTER_PACKBITS_def FLAG_P700_INIT_def FLAG_PLITE_def

record pt_dev =
  dev_vid :: u16
  dev_pid :: u16
  dev_name :: string
  dev_max_px :: int
  dev_dpi :: int
  dev_flags :: u32

definition g_devs :: "pt_dev list" where
  "g_devs =
    [\<lparr>dev_vid = 0x04f9, dev_pid = 0x2007, dev_name = ''PT-2420PC'', dev_max_px = 128, dev_dpi = 180,
      dev_flags = FLAG_RASTER_PACKBITS\<rparr>,
     \<lparr>dev_vid = 0x04f9, dev_pid = 0x202c, dev_name = ''PT-1230PC'', dev_max_px = 128, dev_dpi = 180,
      dev_flags = FLAG_NONE\<rparr>,
     \<lparr>dev_vid = 0x04f9, dev_pid = 0x202d, dev_name = ''PT-2430PC'', dev_max_px = 128, dev_dpi = 180,
      dev_flags = FLAG_NONE\<rparr>,
     \<lparr>dev_vid = 0x04f9, dev_pid = 0x2030, dev_name = ''PT-1230PC (PLite)'', dev_max_px = 128,
      dev_dpi = 180, dev_flags = FLAG_PLITE\<rparr>,
     \<lparr>dev_vid = 0x04f9, dev_pid = 0x2031, dev_name = ''PT-2430PC (PLite)'', dev_max_px = 128,
      dev_dpi = 180, dev_flags = FLAG_PLITE\<rparr>,
     \<lparr>dev_vid = 0x04f9, dev_pid = 0x2041, dev_name = ''PT-2730'', dev_max_px = 128, dev_dpi = 180,
      dev_flags = FLAG_NONE\<rparr>,
     \<lparr>dev_vid = 0x04f9, dev_pid = 0x205f, dev_name = ''PT-E500'', dev_max_px = 128, dev_dpi = 180,
      dev_flags = FLAG_RASTER_PACKBITS\<rparr>,
     \<lparr>dev_vid = 0x04f9, dev_pid = 0x205e, dev_name = ''PT-H500'', dev_max_px = 128, dev_dpi = 180,
      dev_flags = FLAG_RASTER_PACKBITS OR FLAG_P700_INIT\<rparr>,
     \<lparr>dev_vid = 0x04f9, dev_pid = 0x2061, dev_name = ''PT-P700'', dev_max_px = 128, dev_dpi = 180,
      dev_flags = FLAG_RASTER_PACKBITS OR FLAG_P700_INIT\<rparr>,
     \<lparr>dev_vid = 0x04f9, dev_pid = 0x2064, dev_name = ''PT-P700 (PLite)'', dev_max_px = 128,
      dev_dpi = 180, dev_flags = FLAG_PLITE\<rparr>,
     \<lparr>dev_vid = 0x04f9, dev_pid = 0x2062, dev_name = ''PT-P750W'', dev_max_px = 128, dev_dpi = 180,
      dev_flags = FLAG_RASTER_PACKBITS OR FLAG_P700_INIT\<rparr>,
     \<lparr>dev_vid = 0x04f9, dev_pid = 0x2065, dev_name = ''PT-P750W (PLite)'', dev_max_px = 128,
      dev_dpi = 180, dev_flags = FLAG_PLITE\<rparr>,
     \<lparr>dev_vid = 0x04f9, dev_pid = 0x2073, dev_name = ''PT-D450'', dev_max_px = 128, dev_dpi = 180,
      dev_flags = FLAG_RASTER_PACKBITS\<rparr>,
     \<lparr>dev_vid = 0x04f9, dev_pid = 0x2074, dev_name = ''PT-D600'', dev_max_px = 128, dev_dpi = 180,
      dev_flags = FLAG_RASTER_PACKBITS\<rparr>,
     \<lparr>dev_vid = 0x04f9, dev_pid = 0x20af, dev_name = ''PT-P710BT'', dev_max_px = 128, dev_dpi = 180,
      dev_flags = FLAG_RASTER_PACKBITS OR FLAG_P700_INIT\<rparr>]"

definition pt_lookup_dev :: "u16 \<Rightarrow> u16 \<Rightarrow> pt_dev option" where
  "pt_lookup_dev v p = List.find (\<lambda>d. dev_vid d = v \<and> dev_pid d = p) g_devs"

definition pt_lookup_name :: "string option \<Rightarrow> pt_dev option" where
  \<comment> \<open>the argument \<open>None\<close> is a null pointer\<close>
  "pt_lookup_name n = (case n of None \<Rightarrow> None | Some n \<Rightarrow> List.find (\<lambda>d. dev_name d = n) g_devs)"

lemma g_devs_vid: "d \<in> set g_devs \<Longrightarrow> dev_vid d = 0x04f9 \<and> dev_max_px d = 128 \<and> dev_dpi d = 180"
  by (auto simp: g_devs_def)

lemma distinct_names: "distinct (map dev_name g_devs)"
  by (simp add: g_devs_def)

lemma distinct_pids: "distinct (map dev_pid g_devs)"
  by (simp add: g_devs_def)

lemma lookup_name_row: "pt_lookup_name (Some n) = Some d \<Longrightarrow> d \<in> set g_devs \<and> dev_name d = n"
  by (auto simp: pt_lookup_name_def dest: find_Some_set)

lemma lookup_dev_row: "pt_lookup_dev v p = Some d \<Longrightarrow> d \<in> set g_devs \<and> dev_vid d = v \<and> dev_pid d = p"
  by (auto simp: pt_lookup_dev_def dest: find_Some_set)

lemma lookup_name_of_row: "d \<in> set g_devs \<Longrightarrow> pt_lookup_name (Some (dev_name d)) = Some d"
  using find_distinct_key [OF distinct_names] by (simp add: pt_lookup_name_def)

lemma lookup_dev_of_row:
  assumes "d \<in> set g_devs"
  shows "pt_lookup_dev (dev_vid d) (dev_pid d) = Some d"
proof -
  have "List.find (\<lambda>y. dev_vid y = dev_vid d \<and> dev_pid y = dev_pid d) g_devs
      = List.find (\<lambda>y. dev_pid y = dev_pid d) g_devs"
    using assms by (intro find_cong) (auto simp: g_devs_vid)
  then show ?thesis
    using find_distinct_key [OF distinct_pids assms] by (simp add: pt_lookup_dev_def)
qed

section \<open>Tapes\<close>

definition g_tape :: "(int \<times> int) list" where
  "g_tape = [(6, 32), (9, 52), (12, 76), (18, 120), (24, 128), (36, 192)]"

definition pt_tape_px :: "int \<Rightarrow> int" where
  "pt_tape_px mm = (case List.find (\<lambda>r. fst r = mm) g_tape of Some r \<Rightarrow> snd r | None \<Rightarrow> 0)"

record pt_geometry =
  nominal_px :: int
  imageable_px :: int
  left_px :: int
  right_px :: int
  margin_centimm :: int
  left_margin_centimm :: int
  right_margin_centimm :: int

definition pt_tape_geometry :: "int \<Rightarrow> pt_geometry option" where
  \<comment> \<open>\<open>None\<close> is the return value false; the structure is then all zero and no caller reads it\<close>
  "pt_tape_geometry tape_mm =
    (let px = pt_tape_px tape_mm in
     if px \<le> 0 \<or> px > 128 then None
     else
       let nominal = cdiv (tape_mm * 100 * 180) 2540;
           left = cdiv (nominal - px) 2;
           right = left + px;
           printable_centimm = cdiv (px * 2540 + 179) 180;
           margin = cdiv (tape_mm * 100 - printable_centimm) 2;
           lm = cdiv (left * 2540 + 179) 180;
           rm = cdiv ((nominal - right) * 2540 + 179) 180
       in Some \<lparr>nominal_px = nominal, imageable_px = px, left_px = left, right_px = right,
                margin_centimm = margin,
                left_margin_centimm = (if lm < margin then margin else lm),
                right_margin_centimm = (if rm < margin then margin else rm)\<rparr>)"

definition pt_tape_mm :: "int list" where
  \<comment> \<open>\<^verbatim>\<open>src/driver.c\<close>: the widths the driver may advertise\<close>
  "pt_tape_mm = [6, 9, 12, 18, 24, 36]"

lemma tape_px_cases:
  "pt_tape_px mm =
    (if mm = 6 then 32 else if mm = 9 then 52 else if mm = 12 then 76
     else if mm = 18 then 120 else if mm = 24 then 128 else if mm = 36 then 192 else 0)"
  by (auto simp: pt_tape_px_def g_tape_def)

lemma geometry_6 [simp]: "pt_tape_geometry 6 = Some \<lparr>nominal_px = 42, imageable_px = 32, left_px = 5,
    right_px = 37, margin_centimm = 74, left_margin_centimm = 74, right_margin_centimm = 74\<rparr>"
  by (simp add: pt_tape_geometry_def tape_px_cases)

lemma geometry_9 [simp]: "pt_tape_geometry 9 = Some \<lparr>nominal_px = 63, imageable_px = 52, left_px = 5,
    right_px = 57, margin_centimm = 83, left_margin_centimm = 83, right_margin_centimm = 85\<rparr>"
  by (simp add: pt_tape_geometry_def tape_px_cases)

lemma geometry_12 [simp]: "pt_tape_geometry 12 = Some \<lparr>nominal_px = 85, imageable_px = 76, left_px = 4,
    right_px = 80, margin_centimm = 63, left_margin_centimm = 63, right_margin_centimm = 71\<rparr>"
  by (simp add: pt_tape_geometry_def tape_px_cases)

lemma geometry_18 [simp]: "pt_tape_geometry 18 = Some \<lparr>nominal_px = 127, imageable_px = 120, left_px = 3,
    right_px = 123, margin_centimm = 53, left_margin_centimm = 53, right_margin_centimm = 57\<rparr>"
  by (simp add: pt_tape_geometry_def tape_px_cases)

lemma geometry_24 [simp]: "pt_tape_geometry 24 = Some \<lparr>nominal_px = 170, imageable_px = 128, left_px = 21,
    right_px = 149, margin_centimm = 296, left_margin_centimm = 297, right_margin_centimm = 297\<rparr>"
  by (simp add: pt_tape_geometry_def tape_px_cases)

lemma geometry_other:
  "mm \<notin> {6, 9, 12, 18, 24} \<Longrightarrow> pt_tape_geometry mm = None"
  by (simp add: pt_tape_geometry_def tape_px_cases)

lemma geometry_mm: "pt_tape_geometry mm = Some g \<Longrightarrow> mm \<in> {6, 9, 12, 18, 24}"
  using geometry_other by fastforce

section \<open>The interface of a tape table\<close>

text \<open>
  What the clients rely on: the imageable window lies in the nominal page and in the 128-dot
  head, the roll width in 1/100 mm converts back to the nominal pixels, and the published
  margins cut exactly the window out of the page when the driver converts them to pixels.
\<close>

locale tape_window =
  fixes geo :: "int \<Rightarrow> pt_geometry option"
  assumes geo_window: "geo mm = Some g \<Longrightarrow>
      0 \<le> left_px g \<and> right_px g = left_px g + imageable_px g \<and> right_px g \<le> nominal_px g"
    and geo_head: "geo mm = Some g \<Longrightarrow> 0 < imageable_px g \<and> imageable_px g \<le> 128"
    and geo_nominal: "geo mm = Some g \<Longrightarrow> nominal_px g = mm * 100 * 180 div 2540 \<and> 0 < mm \<and> mm < 256"
    and geo_left: "geo mm = Some g \<Longrightarrow> left_margin_centimm g * 180 div 2540 = left_px g"
    and geo_span: "geo mm = Some g \<Longrightarrow>
      nominal_px g - (left_margin_centimm g + right_margin_centimm g) * 180 div 2540 = imageable_px g"
    and geo_margins: "geo mm = Some g \<Longrightarrow>
      margin_centimm g \<le> left_margin_centimm g \<and> margin_centimm g \<le> right_margin_centimm g
      \<and> 0 < margin_centimm g \<and> left_margin_centimm g < 1000 \<and> right_margin_centimm g < 1000"
begin

lemma window_in_head:
  assumes "geo mm = Some g"
  shows "0 \<le> (128 - imageable_px g) div 2 \<and> (128 - imageable_px g) div 2 + imageable_px g \<le> 128"
  using geo_head [OF assms] by auto

lemma published_margins_fit:
  assumes "geo mm = Some g"
  shows "left_px g \<le> left_margin_centimm g * 180 div 2540"
    and "0 < nominal_px g - (left_margin_centimm g + right_margin_centimm g) * 180 div 2540"
    and "left_margin_centimm g * 180 div 2540
         + (nominal_px g - (left_margin_centimm g + right_margin_centimm g) * 180 div 2540) = right_px g"
  using geo_left [OF assms] geo_span [OF assms] geo_head [OF assms] geo_window [OF assms] by auto

lemma nominal_pos: "geo mm = Some g \<Longrightarrow> 0 < nominal_px g"
  using geo_window [of mm g] geo_head [of mm g] by auto

lemma nominal_bound:
  assumes "geo mm = Some g"
  shows "nominal_px g < 2000"
proof -
  have "mm \<le> 255" "0 \<le> mm"
    using geo_nominal [OF assms] by auto
  then show ?thesis
    using geo_nominal [OF assms] by linarith
qed

end

interpretation tw: tape_window pt_tape_geometry
proof
  fix mm g
  assume eq: "pt_tape_geometry mm = Some g"
  then have mm: "mm \<in> {6, 9, 12, 18, 24}" by (rule geometry_mm)
  show "0 \<le> left_px g \<and> right_px g = left_px g + imageable_px g \<and> right_px g \<le> nominal_px g"
    using mm eq by auto
  show "0 < imageable_px g \<and> imageable_px g \<le> 128"
    using mm eq by auto
  show "nominal_px g = mm * 100 * 180 div 2540 \<and> 0 < mm \<and> mm < 256"
    using mm eq by auto
  show "left_margin_centimm g * 180 div 2540 = left_px g"
    using mm eq by auto
  show "nominal_px g - (left_margin_centimm g + right_margin_centimm g) * 180 div 2540 = imageable_px g"
    using mm eq by auto
  show "margin_centimm g \<le> left_margin_centimm g \<and> margin_centimm g \<le> right_margin_centimm g
      \<and> 0 < margin_centimm g \<and> left_margin_centimm g < 1000 \<and> right_margin_centimm g < 1000"
    using mm eq by auto
qed

section \<open>Properties\<close>

text \<open>The two lookups of the device table agree and are exact: a row is found by its name
  precisely when it is the row found by its USB identity, every row is found under both keys,
  and each answer carries the key that was asked for.\<close>

theorem device_lookup_exact:
  "(pt_lookup_name (Some n) = Some d \<longleftrightarrow> d \<in> set g_devs \<and> dev_name d = n)
   \<and> (pt_lookup_dev v p = Some d \<longleftrightarrow> d \<in> set g_devs \<and> dev_vid d = v \<and> dev_pid d = p)"
  using lookup_name_row lookup_dev_row lookup_name_of_row lookup_dev_of_row by blast

text \<open>The margins a tape publishes select its printable window: for every supported width,
  the driver's conversion of the published margins to dots starts at the first imageable dot and
  spans exactly the imageable dots of the page of the nominal width.\<close>

theorem published_margins_select_window:
  assumes "pt_tape_geometry mm = Some g"
  shows "cdiv (left_margin_centimm g * 180) 2540 = left_px g
    \<and> nominal_px g - cdiv ((left_margin_centimm g + right_margin_centimm g) * 180) 2540 = imageable_px g
    \<and> left_px g + imageable_px g = right_px g \<and> 0 \<le> left_px g \<and> right_px g \<le> nominal_px g
    \<and> imageable_px g \<le> 128"
  using tw.geo_left [OF assms] tw.geo_span [OF assms] tw.geo_window [OF assms]
    tw.geo_head [OF assms] tw.geo_margins [OF assms] by simp

theorem published_margins_select_window_witness:
  "\<exists>g. pt_tape_geometry 12 = Some g \<and> cdiv (left_margin_centimm g * 180) 2540 = left_px g"
  using published_margins_select_window [OF geometry_12] geometry_12 by blast

end
