(* ===== verification/World.thy ===== *)
theory World
  imports Tables
begin

text \<open>
  The outside of the program. Everything the code calls and does not implement (PAPPL, libusb,
  BlueZ sockets, the C library's clock and allocator) is a parameter: the record \<open>env\<close> of
  functions from the history of all external calls so far to the answer of the next one. A
  call appends an event with its arguments and its answer to the history \<open>trace\<close>, newest
  first. A theorem about all \<open>env\<close> is a theorem about every behaviour of the outside, and a
  concrete \<open>env\<close> makes the code run.

  Log output (\<^verbatim>\<open>papplLog*\<close>, \<^verbatim>\<open>papplDeviceError\<close>, \<^verbatim>\<open>stderr\<close>) has no effect on the program and no event. A
  mutex section of the code is one atomic step of the model.
\<close>

section \<open>Data of the interfaces\<close>

record timespec =
  tv_sec :: int
  tv_nsec :: int

datatype preason = REASON_OFFLINE | REASON_MEDIA_EMPTY | REASON_MEDIA_NEEDED | REASON_OTHER
  \<comment> \<open>the bits of \<^verbatim>\<open>pappl_preason_t\<close> the code uses; a mask is a set\<close>

datatype jreason = JREASON_DOCUMENT_UNPRINTABLE_ERROR | JREASON_DOCUMENT_FORMAT_ERROR

record media_col =
  \<comment> \<open>the members of \<^verbatim>\<open>pappl_media_col_t\<close> the code sets or reads\<close>
  size_width :: int
  size_length :: int
  left_margin :: int
  right_margin :: int
  top_margin :: int
  bottom_margin :: int
  size_name :: string
  media_source :: string
  media_type :: string
  tracking_continuous :: bool

datatype ipp_tag = IPP_TAG_ENUM | IPP_TAG_INTEGER | IPP_TAG_KEYWORD | IPP_TAG_BEGIN_COLLECTION
  | IPP_TAG_NOVALUE | IPP_TAG_ZERO | IPP_TAG_OPERATION | IPP_TAG_OTHER

type_synonym ref = nat \<comment> \<open>a pointer or handle the program only passes around\<close>

record pt_usb_conn =
  usb_ctx :: ref
  usb_h :: ref
  usb_detached :: bool
  usb_model :: pt_dev

datatype pt_conn = Usb_Conn pt_usb_conn | Bt_Conn int
  \<comment> \<open>what the data pointer of a PAPPL device points to: a \<^verbatim>\<open>pt_usb_conn\<close> or a \<^verbatim>\<open>pt_bt_conn\<close>\<close>

datatype png_res = Png_File | Png_Storage | Png_Reader | Png_Info | Png_Options | Png_Pixels | Png_Rows
  \<comment> \<open>what a run of the PNG filter acquires and has to give back\<close>

datatype png_call = Png_Read_Info | Png_Transforms | Png_Read_Rows nat | Png_Read_End
  \<comment> \<open>the libpng calls that may leave by \<^verbatim>\<open>longjmp\<close>\<close>

section \<open>External calls\<close>

datatype event =
  \<comment> \<open>PAPPL jobs and printers\<close>
    Ev_Job_Canceled bool
  | Ev_Job_State int
  | Ev_Job_Message string
  | Ev_Job_Reasons "jreason set" "jreason set"
  | Ev_Printer_State int
  | Ev_Printer_Reasons "preason set" "preason set"
  | Ev_Ready_Media media_col bool
  | Ev_Open_Device bool
  | Ev_Close_Device
  \<comment> \<open>PAPPL clients\<close>
  | Ev_Unsupported "string option"
  | Ev_Respond int string
  | Ev_Authorized bool
  \<comment> \<open>PAPPL devices\<close>
  | Ev_Metrics u64
  | Ev_Write "u8 list" int
  | Ev_Flush
  \<comment> \<open>the C library\<close>
  | Ev_Clock timespec
  | Ev_Sleep timespec
  | Ev_Alloc bool
  \<comment> \<open>the PNG filter: resources asked for, given back, and calls of libpng\<close>
  | Ev_Acquire png_res bool
  | Ev_Release png_res
  | Ev_Png png_call bool
  \<comment> \<open>libusb\<close>
  | Ev_Usb_Init int
  | Ev_Usb_Exit ref
  | Ev_Usb_List "ref list option"
  | Ev_Usb_Free_List
  | Ev_Usb_Open ref "ref option"
  | Ev_Usb_Close ref
  | Ev_Usb_Driver_Active int
  | Ev_Usb_Detach int
  | Ev_Usb_Attach
  | Ev_Usb_Claim int
  | Ev_Usb_Release
  | Ev_Usb_In nat nat int "u8 list"
  | Ev_Usb_Out "u8 list" int nat
  | Ev_Found string string string
  | Ev_Found_Error string
  \<comment> \<open>sockets\<close>
  | Ev_Socket int
  | Ev_Connect "u8 list" int
  | Ev_Poll int int
  | Ev_So_Error int
  | Ev_Fcntl int
  | Ev_Recv nat "int + u8 list"
  | Ev_Send "u8 list" "int + nat"
  | Ev_Close_Fd int

type_synonym hist = "event list"

record env =
  \<comment> \<open>papplJobIsCanceled, papplJobGetState, papplJobGetFormat, papplJobGetCopies\<close>
  job_canceled :: "hist \<Rightarrow> bool"
  job_state :: "hist \<Rightarrow> int"
  job_format :: "string option"
  job_copies :: int
  \<comment> \<open>papplJobGetAttribute, papplPrinterGetDriverAttributes\<close>
  job_attribute :: "string \<Rightarrow> ref option"
  driver_attributes :: "hist \<Rightarrow> ref option"
  \<comment> \<open>ippGetValueTag, ippGetCount, ippGetInteger, ippGetString, ippGetCollection, ippFindAttribute\<close>
  ipp_value_tag :: "ref \<Rightarrow> ipp_tag"
  ipp_count :: "ref \<Rightarrow> int"
  ipp_integer :: "ref \<Rightarrow> nat \<Rightarrow> int"
  ipp_string :: "ref \<Rightarrow> nat \<Rightarrow> string option"
  ipp_collection :: "ref \<Rightarrow> nat \<Rightarrow> ref"
  ipp_find :: "ref \<Rightarrow> string \<Rightarrow> ipp_tag \<Rightarrow> ref option"
  \<comment> \<open>papplPrinterGetDeviceURI, papplPrinterGetState, papplPrinterGetDriverData\<close>
  device_uri :: "string option"
  printer_state :: "hist \<Rightarrow> int"
  ready_width :: "hist \<Rightarrow> int"
  x_default :: int
  \<comment> \<open>papplPrinterSetReadyMedia, papplPrinterOpenDevice, pwgFormatSizeName\<close>
  set_ready_media :: "hist \<Rightarrow> media_col \<Rightarrow> bool"
  open_device :: "hist \<Rightarrow> pt_conn option option"
  format_size_name :: "string option \<Rightarrow> string option \<Rightarrow> int \<Rightarrow> int \<Rightarrow> string"
  \<comment> \<open>papplDeviceGetMetrics (write\_bytes), papplDeviceWrite\<close>
  device_metrics :: "hist \<Rightarrow> u64"
  device_write :: "hist \<Rightarrow> u8 list \<Rightarrow> int"
  \<comment> \<open>clock\_gettime(CLOCK\_MONOTONIC), malloc and calloc (a null pointer is False)\<close>
  clock :: "hist \<Rightarrow> timespec"
  alloc_ok :: "hist \<Rightarrow> bool"
  malloc_row :: "hist \<Rightarrow> nat \<Rightarrow> u8 list"
  \<comment> \<open>libusb: init, get\_device\_list (None is a negative count), get\_device\_descriptor (None is an
     error), open, kernel\_driver\_active, detach\_kernel\_driver, claim\_interface, bulk\_transfer\<close>
  usb_init :: "hist \<Rightarrow> int"
  usb_context :: "hist \<Rightarrow> ref"
  usb_device_list :: "hist \<Rightarrow> ref list option"
  usb_descriptor :: "ref \<Rightarrow> (u16 \<times> u16) option"
  usb_open :: "hist \<Rightarrow> ref \<Rightarrow> ref option"
  usb_driver_active :: "hist \<Rightarrow> int"
  usb_detach :: "hist \<Rightarrow> int"
  usb_claim :: "hist \<Rightarrow> int"
  usb_bulk_in :: "hist \<Rightarrow> ref \<Rightarrow> nat \<Rightarrow> nat \<Rightarrow> int \<times> u8 list"
  usb_bulk_out :: "hist \<Rightarrow> ref \<Rightarrow> u8 list \<Rightarrow> nat \<Rightarrow> int \<times> nat"
  \<comment> \<open>sockets: a failing call is \<open>Inl errno\<close>\<close>
  bt_socket :: "hist \<Rightarrow> int"
  bt_connect :: "hist \<Rightarrow> int \<Rightarrow> u8 list \<Rightarrow> int + unit"
  fd_poll :: "hist \<Rightarrow> int \<Rightarrow> int \<Rightarrow> int + nat"
  fd_so_error :: "hist \<Rightarrow> int \<Rightarrow> int + int"
  fd_set_blocking :: "hist \<Rightarrow> int \<Rightarrow> int"
  fd_recv :: "hist \<Rightarrow> int \<Rightarrow> nat \<Rightarrow> int + u8 list"
  fd_send :: "hist \<Rightarrow> int \<Rightarrow> u8 list \<Rightarrow> int + nat"

record world =
  trace :: hist
  conn :: "pt_conn option" \<comment> \<open>papplDeviceGetData of the open device\<close>

definition note_event :: "event \<Rightarrow> 'a world_scheme \<Rightarrow> 'a world_scheme" where
  "note_event e s = s\<lparr>trace := e # trace s\<rparr>"

definition answer :: "event \<Rightarrow> 'r \<Rightarrow> 'a world_scheme \<Rightarrow> ('r \<times> 'a world_scheme) option" where
  "answer e r s = Some (r, note_event e s)"

lemma note_event_simps [simp]:
  "trace (note_event e s) = e # trace s"
  "conn (note_event e s) = conn s"
  "world.more (note_event e s) = world.more s"
  by (simp_all add: note_event_def)

lemma ensures_answer [simp]: "ensures (answer e r s) Q = Q r (note_event e s)"
  by (simp add: answer_def)

lemma returns_answer [simp]: "returns (answer e r s) Q = Q r (note_event e s)"
  by (simp add: answer_def)

lemma answer_not_None [simp]: "answer e r s \<noteq> None"
  by (simp add: answer_def)

section \<open>The calls\<close>

definition papplJobIsCanceled :: "env \<Rightarrow> 'a world_scheme \<Rightarrow> (bool \<times> 'a world_scheme) option" where
  "papplJobIsCanceled E s = (let c = job_canceled E (trace s) in answer (Ev_Job_Canceled c) c s)"

definition papplJobGetState :: "env \<Rightarrow> 'a world_scheme \<Rightarrow> (int \<times> 'a world_scheme) option" where
  "papplJobGetState E s = (let c = job_state E (trace s) in answer (Ev_Job_State c) c s)"

definition papplPrinterGetState :: "env \<Rightarrow> 'a world_scheme \<Rightarrow> (int \<times> 'a world_scheme) option" where
  "papplPrinterGetState E s = (let c = printer_state E (trace s) in answer (Ev_Printer_State c) c s)"

definition papplJobSetMessage :: "string \<Rightarrow> 'a world_scheme \<Rightarrow> (unit \<times> 'a world_scheme) option" where
  "papplJobSetMessage m s = answer (Ev_Job_Message m) () s"

definition papplJobSetReasons ::
  "jreason set \<Rightarrow> jreason set \<Rightarrow> 'a world_scheme \<Rightarrow> (unit \<times> 'a world_scheme) option" where
  "papplJobSetReasons add rm s = answer (Ev_Job_Reasons add rm) () s"

definition papplPrinterSetReasons ::
  "preason set \<Rightarrow> preason set \<Rightarrow> 'a world_scheme \<Rightarrow> (unit \<times> 'a world_scheme) option" where
  "papplPrinterSetReasons add rm s = answer (Ev_Printer_Reasons add rm) () s"

definition papplPrinterSetReadyMedia ::
  "env \<Rightarrow> media_col \<Rightarrow> 'a world_scheme \<Rightarrow> (bool \<times> 'a world_scheme) option" where
  "papplPrinterSetReadyMedia E m s =
    (let ok = set_ready_media E (trace s) m in answer (Ev_Ready_Media m ok) ok s)"

definition papplPrinterOpenDevice :: "env \<Rightarrow> 'a world_scheme \<Rightarrow> (bool \<times> 'a world_scheme) option" where
  \<comment> \<open>the answer carries the data pointer the opened device has\<close>
  "papplPrinterOpenDevice E s =
    (case open_device E (trace s) of
       None \<Rightarrow> answer (Ev_Open_Device False) False s
     | Some c \<Rightarrow> answer (Ev_Open_Device True) True (s\<lparr>conn := c\<rparr>))"

definition papplPrinterCloseDevice :: "'a world_scheme \<Rightarrow> (unit \<times> 'a world_scheme) option" where
  "papplPrinterCloseDevice s = answer Ev_Close_Device () (s\<lparr>conn := None\<rparr>)"

definition papplDeviceGetMetrics :: "env \<Rightarrow> 'a world_scheme \<Rightarrow> (u64 \<times> 'a world_scheme) option" where
  "papplDeviceGetMetrics E s = (let m = device_metrics E (trace s) in answer (Ev_Metrics m) m s)"

definition papplDeviceWrite ::
  "env \<Rightarrow> u8 list \<Rightarrow> 'a world_scheme \<Rightarrow> (int \<times> 'a world_scheme) option" where
  "papplDeviceWrite E buf s = (let n = device_write E (trace s) buf in answer (Ev_Write buf n) n s)"

definition papplDeviceFlush :: "'a world_scheme \<Rightarrow> (unit \<times> 'a world_scheme) option" where
  "papplDeviceFlush s = answer Ev_Flush () s"

definition clock_gettime :: "env \<Rightarrow> 'a world_scheme \<Rightarrow> (timespec \<times> 'a world_scheme) option" where
  "clock_gettime E s = (let t = clock E (trace s) in answer (Ev_Clock t) t s)"

definition nanosleep :: "timespec \<Rightarrow> 'a world_scheme \<Rightarrow> (unit \<times> 'a world_scheme) option" where
  "nanosleep t s = answer (Ev_Sleep t) () s"

definition alloc :: "env \<Rightarrow> 'a world_scheme \<Rightarrow> (bool \<times> 'a world_scheme) option" where
  "alloc E s = (let ok = alloc_ok E (trace s) in answer (Ev_Alloc ok) ok s)"

lemmas pappl_defs =
  papplJobIsCanceled_def papplJobGetState_def papplPrinterGetState_def papplJobSetMessage_def
  papplJobSetReasons_def papplPrinterSetReasons_def papplPrinterSetReadyMedia_def
  papplDeviceGetMetrics_def papplDeviceWrite_def papplDeviceFlush_def clock_gettime_def
  nanosleep_def alloc_def Let_def

section \<open>What a history shows\<close>

fun read_event :: "event \<Rightarrow> bool" where
  \<comment> \<open>the calls a status read makes\<close>
  "read_event (Ev_Clock t) = True"
| "read_event (Ev_Poll t r) = True"
| "read_event (Ev_Recv n r) = True"
| "read_event (Ev_Usb_In n t rc data) = True"
| "read_event _ = False"

fun read_data :: "event \<Rightarrow> u8 list" where
  "read_data (Ev_Usb_In n t rc data) = data"
| "read_data (Ev_Recv n (Inr data)) = data"
| "read_data _ = []"

definition replies :: "hist \<Rightarrow> u8 list" where
  \<comment> \<open>all bytes the device delivered, oldest first\<close>
  "replies h = concat (map read_data (rev h))"

lemma replies_simps [simp]:
  "replies [] = []" "replies (e # h) = replies h @ read_data e" "replies (h' @ h) = replies h @ replies h'"
  by (simp_all add: replies_def)

definition extends :: "(event \<Rightarrow> bool) \<Rightarrow> 'a world_scheme \<Rightarrow> 'a world_scheme \<Rightarrow> bool" where
  \<comment> \<open>the second state differs from the first only by further calls, all of the given kind\<close>
  "extends P s s' \<longleftrightarrow> conn s' = conn s \<and> world.more s' = world.more s
     \<and> (\<exists>new. trace s' = new @ trace s \<and> list_all P new)"

lemma extends_refl [simp]: "extends P s s"
  by (simp add: extends_def)

lemma extends_note [simp]: "extends P s s' \<Longrightarrow> P e \<Longrightarrow> extends P s (note_event e s')"
  by (auto simp: extends_def)

lemma extends_trans: "extends P s s' \<Longrightarrow> extends P s' s'' \<Longrightarrow> extends P s s''"
  by (auto simp: extends_def)

lemma extends_mono: "extends P s s' \<Longrightarrow> (\<And>e. P e \<Longrightarrow> Q e) \<Longrightarrow> extends Q s s'"
  by (auto simp: extends_def elim!: list.pred_mono_strong)

lemma extends_length: "extends P s s' \<Longrightarrow> length (trace s) \<le> length (trace s')"
  by (auto simp: extends_def)

section \<open>Time\<close>

definition millis :: "timespec \<Rightarrow> int" where
  \<comment> \<open>a lower bound of a time in milliseconds\<close>
  "millis t = tv_sec t * 1000 + tv_nsec t div 1000000"

definition clock_advances :: "env \<Rightarrow> bool" where
  \<comment> \<open>CLOCK\_MONOTONIC passes every point of time after finitely many calls\<close>
  "clock_advances E \<longleftrightarrow> (\<forall>m. \<exists>n. \<forall>h. n \<le> length h \<longrightarrow>
      0 \<le> tv_nsec (clock E h) \<and> tv_nsec (clock E h) < 1000000000 \<and> m \<le> tv_sec (clock E h))"

end
