(* ===== verification/Status.thy ===== *)
theory Status
  imports Tables
begin

unbundle bit_operations_syntax

text \<open>
  \<^verbatim>\<open>src/status.c\<close>, \<^verbatim>\<open>src/status.h\<close>: parsing the 32-byte status block.
\<close>

record pt_status =
  tape_mm :: int
  tape_px :: int
  st_error :: u16
  raw :: "u8 list"

definition zero_status :: pt_status where
  "zero_status = \<lparr>tape_mm = 0, tape_px = 0, st_error = 0, raw = replicate 32 0\<rparr>"

definition pt_parse_status :: "u8 list \<Rightarrow> pt_status option" where
  \<comment> \<open>the buffer has 32 bytes; \<open>None\<close> is the return value \<open>-1\<close>, which leaves the result untouched\<close>
  "pt_parse_status buf =
    (if buf ! 0 \<noteq> 0x80 \<or> buf ! 1 \<noteq> 0x20 then None
     else Some \<lparr>tape_mm = uint (buf ! 10),
                tape_px = pt_tape_px (uint (buf ! 10)),
                st_error = ucast (buf ! 8) OR push_bit 8 (ucast (buf ! 9)),
                raw = buf\<rparr>)"

lemma parse_status_Some:
  "pt_parse_status buf = Some st \<longleftrightarrow>
     buf ! 0 = 0x80 \<and> buf ! 1 = 0x20 \<and>
     st = \<lparr>tape_mm = uint (buf ! 10), tape_px = pt_tape_px (uint (buf ! 10)),
           st_error = ucast (buf ! 8) OR push_bit 8 (ucast (buf ! 9)), raw = buf\<rparr>"
  by (auto simp: pt_parse_status_def)

lemma parse_status_tape_range: "pt_parse_status buf = Some st \<Longrightarrow> 0 \<le> tape_mm st \<and> tape_mm st < 256"
  using uint_lt2p [of "buf ! 10"] by (auto simp: parse_status_Some)

text \<open>A status block is accepted exactly when its two header bytes are right, and then the
  error word is the little-endian value of bytes 8 and 9, the tape width is byte 10, and the whole
  block is kept; no header other than \<open>80 20\<close> is ever accepted.\<close>

theorem parse_status_exact:
  "(pt_parse_status buf \<noteq> None \<longleftrightarrow> buf ! 0 = 0x80 \<and> buf ! 1 = 0x20)
   \<and> (\<forall>st. pt_parse_status buf = Some st \<longrightarrow>
        unat (st_error st) = unat (buf ! 8) + 256 * unat (buf ! 9)
        \<and> tape_mm st = uint (buf ! 10) \<and> tape_px st = pt_tape_px (uint (buf ! 10)) \<and> raw st = buf)"
  by (auto simp: pt_parse_status_def u8_join)

definition sample_status :: "u8 list" where
  \<comment> \<open>a clean reply: 12 mm tape, no error, type 0\<close>
  "sample_status = [0x80, 0x20, 0x42, 0x30] @ replicate 6 0 @ [12, 1] @ replicate 20 0"

lemma sample_status_parses:
  "pt_parse_status sample_status =
     Some \<lparr>tape_mm = 12, tape_px = 76, st_error = 0, raw = sample_status\<rparr>"
  by (simp add: pt_parse_status_def sample_status_def tape_px_cases nth_append)

theorem parse_status_exact_witness:
  "pt_parse_status sample_status \<noteq> None \<and>
   (\<exists>st. pt_parse_status sample_status = Some st \<and> tape_mm st = uint (sample_status ! 10))"
  using parse_status_exact [of sample_status] sample_status_parses by auto

end
