(* ===== verification/Protocol.thy ===== *)
theory Protocol
  imports Tables
begin

unbundle bit_operations_syntax

text \<open>
  \<^verbatim>\<open>src/protocol.c\<close>, \<^verbatim>\<open>src/protocol.h\<close>: the command builders. A builder writes bytes into the
  caller's buffer and returns their number; its model is the list of those bytes, whose length is
  the returned number. The second half gives the commands an abstract syntax and a decoder, and the
  locale \<open>prefix_code\<close> states what a printer needs of such a code.
\<close>

section \<open>The builders\<close>

definition pt_cmd_invalidate :: "u8 list" where [cmd_defs]:
  "pt_cmd_invalidate = replicate 100 0"

definition pt_cmd_init :: "u8 list" where [cmd_defs]:
  "pt_cmd_init = [0x1b, 0x40]"

definition pt_cmd_rasterstart :: "u32 \<Rightarrow> u8 list" where [cmd_defs]:
  "pt_cmd_rasterstart flags =
    [0x1b, 0x69, if flags AND FLAG_P700_INIT \<noteq> 0 then 0x61 else 0x52, 0x01]"

definition pt_cmd_ff :: "u8 list" where [cmd_defs]:
  "pt_cmd_ff = [0x0c]"

definition pt_cmd_eject :: "u8 list" where [cmd_defs]:
  "pt_cmd_eject = [0x1a]"

definition pt_cmd_printinfo :: "u8 \<Rightarrow> u8 list" where [cmd_defs]:
  "pt_cmd_printinfo mm = [0x1b, 0x69, 0x63, 0x84, 0x00, mm, 0x00, 0x00]"

definition pt_cmd_printinfo_extended :: "u8 \<Rightarrow> u32 \<Rightarrow> u8 \<Rightarrow> u8 list" where [cmd_defs]:
  "pt_cmd_printinfo_extended mm rows page =
    [0x1b, 0x69, 0x7a, 0x84, 0x00, mm, 0x00,
     ucast rows, ucast (drop_bit 8 rows), ucast (drop_bit 16 rows), ucast (drop_bit 24 rows),
     page, 0x00]"

definition pt_cmd_compression :: "u8 \<Rightarrow> u8 list" where [cmd_defs]:
  "pt_cmd_compression mode = [0x4d, mode]"

definition pt_cmd_auto_status :: "bool \<Rightarrow> u8 list" where [cmd_defs]:
  "pt_cmd_auto_status enabled = [0x1b, 0x69, 0x21, if enabled then 0x00 else 0x01]"

definition pt_cmd_setmode :: "u8 \<Rightarrow> u8 list" where [cmd_defs]:
  "pt_cmd_setmode flags = [0x1b, 0x69, 0x4d, flags]"

definition pt_cmd_setadvanced :: "u8 \<Rightarrow> u8 list" where [cmd_defs]:
  "pt_cmd_setadvanced flags = [0x1b, 0x69, 0x4b, flags]"

definition pt_cmd_status_request :: "u8 list" where [cmd_defs]:
  "pt_cmd_status_request = [0x1b, 0x69, 0x53]"

definition pt_cmd_margin :: "u16 \<Rightarrow> u8 list" where [cmd_defs]:
  "pt_cmd_margin dots = [0x1b, 0x69, 0x64, ucast (dots AND 0xff), ucast (drop_bit 8 dots)]"

definition pt_cmd_sendraster :: "u8 list \<Rightarrow> u8 list" where [cmd_defs]:
  "pt_cmd_sendraster data = [0x47, word_of_nat (length data), 0x00] @ data"

definition pt_cmd_sendraster_packbits :: "u8 list \<Rightarrow> u8 list" where [cmd_defs]:
  "pt_cmd_sendraster_packbits data =
    [0x47, word_of_nat (length data + 1), 0x00, word_of_int (int (length data) - 1)] @ data"

definition pt_cmd_blank_continuation :: "u8 \<Rightarrow> u8 list" where
  "pt_cmd_blank_continuation mm =
     pt_cmd_rasterstart FLAG_P700_INIT
     @ pt_cmd_auto_status True
     @ pt_cmd_printinfo_extended mm 1 1
     @ pt_cmd_setmode 0x40
     @ pt_cmd_setadvanced 0
     @ pt_cmd_margin 14
     @ pt_cmd_compression 2
     @ pt_cmd_sendraster_packbits (replicate 16 0)
     @ pt_cmd_ff"

lemma cmd_nonempty [simp]:
  "pt_cmd_invalidate \<noteq> []" "pt_cmd_init \<noteq> []" "pt_cmd_rasterstart f \<noteq> []" "pt_cmd_ff \<noteq> []"
  "pt_cmd_eject \<noteq> []" "pt_cmd_printinfo mm \<noteq> []" "pt_cmd_printinfo_extended mm r pg \<noteq> []"
  "pt_cmd_compression m \<noteq> []" "pt_cmd_auto_status e \<noteq> []" "pt_cmd_setmode f' \<noteq> []"
  "pt_cmd_setadvanced f' \<noteq> []" "pt_cmd_status_request \<noteq> []" "pt_cmd_margin d \<noteq> []"
  "pt_cmd_sendraster data \<noteq> []" "pt_cmd_sendraster_packbits data \<noteq> []"
  by (simp_all add: cmd_defs)

section \<open>The command language\<close>

text \<open>
  The commands as abstract values. Uncompressed and PackBits raster lines share their first byte,
  so which of the two a line means depends on the model; \<open>pb\<close> says that the model uses PackBits.
\<close>

datatype pcmd =
    Invalidate
  | Init
  | Raster_Start bool
  | Form_Feed
  | Eject
  | Print_Info u8
  | Print_Info_Ext u8 u32 u8
  | Compression u8
  | Auto_Status bool
  | Set_Mode u8
  | Set_Advanced u8
  | Status_Request
  | Margin u16
  | Raster_Line "u8 list"

fun encode_cmd :: "bool \<Rightarrow> pcmd \<Rightarrow> u8 list" where
  "encode_cmd pb Invalidate = pt_cmd_invalidate"
| "encode_cmd pb Init = pt_cmd_init"
| "encode_cmd pb (Raster_Start p700) = pt_cmd_rasterstart (if p700 then FLAG_P700_INIT else 0)"
| "encode_cmd pb Form_Feed = pt_cmd_ff"
| "encode_cmd pb Eject = pt_cmd_eject"
| "encode_cmd pb (Print_Info mm) = pt_cmd_printinfo mm"
| "encode_cmd pb (Print_Info_Ext mm rows page) = pt_cmd_printinfo_extended mm rows page"
| "encode_cmd pb (Compression m) = pt_cmd_compression m"
| "encode_cmd pb (Auto_Status e) = pt_cmd_auto_status e"
| "encode_cmd pb (Set_Mode f) = pt_cmd_setmode f"
| "encode_cmd pb (Set_Advanced f) = pt_cmd_setadvanced f"
| "encode_cmd pb Status_Request = pt_cmd_status_request"
| "encode_cmd pb (Margin d) = pt_cmd_margin d"
| "encode_cmd pb (Raster_Line data) =
     (if pb then pt_cmd_sendraster_packbits data else pt_cmd_sendraster data)"

fun cmd_ok :: "bool \<Rightarrow> pcmd \<Rightarrow> bool" where
  \<comment> \<open>what the length bytes of a raster line can express; other commands are always fine\<close>
  "cmd_ok pb (Raster_Line data) =
     (if pb then 1 \<le> length data \<and> length data \<le> 128 else length data < 256)"
| "cmd_ok pb _ = True"

definition le32 :: "u8 \<Rightarrow> u8 \<Rightarrow> u8 \<Rightarrow> u8 \<Rightarrow> u32" where
  "le32 a b c d = ucast a OR push_bit 8 (ucast b) OR push_bit 16 (ucast c) OR push_bit 24 (ucast d)"

definition le16 :: "u8 \<Rightarrow> u8 \<Rightarrow> u16" where
  "le16 a b = ucast a OR push_bit 8 (ucast b)"

lemma le32_bytes:
  "le32 (ucast rows) (ucast (drop_bit 8 rows)) (ucast (drop_bit 16 rows)) (ucast (drop_bit 24 rows)) = rows"
proof (rule bit_word_eqI)
  fix n
  assume "n < LENGTH(32)"
  then consider "n < 8" | "8 \<le> n" "n < 16" | "16 \<le> n" "n < 24" | "24 \<le> n" "n < 32"
    by fastforce
  then show "bit (le32 (ucast rows) (ucast (drop_bit 8 rows)) (ucast (drop_bit 16 rows))
      (ucast (drop_bit 24 rows))) n = bit rows n"
    by cases (auto simp: le32_def bit_simps)
qed

lemma le16_bytes: "le16 (ucast (d AND 0xff)) (ucast (drop_bit 8 d)) = d"
proof -
  have "d AND 0xff = take_bit 8 d"
    by (simp add: take_bit_eq_mask mask_eq_exp_minus_1)
  then show ?thesis
    unfolding le16_def by (intro bit_word_eqI) (auto simp: bit_simps)
qed

definition parse_escape :: "u8 list \<Rightarrow> (pcmd \<times> u8 list) option" where
  \<comment> \<open>the commands that start \<open>1b 69\<close>, after these two bytes\<close>
  "parse_escape bs = (case bs of [] \<Rightarrow> None | k # r \<Rightarrow>
    (if k = 0x53 then Some (Status_Request, r)
     else if k = 0x61 \<and> r \<noteq> [] \<and> hd r = 0x01 then Some (Raster_Start True, tl r)
     else if k = 0x52 \<and> r \<noteq> [] \<and> hd r = 0x01 then Some (Raster_Start False, tl r)
     else if k = 0x21 \<and> r \<noteq> [] then Some (Auto_Status (hd r = 0), tl r)
     else if k = 0x4d \<and> r \<noteq> [] then Some (Set_Mode (hd r), tl r)
     else if k = 0x4b \<and> r \<noteq> [] then Some (Set_Advanced (hd r), tl r)
     else if k = 0x64 \<and> 2 \<le> length r then Some (Margin (le16 (r ! 0) (r ! 1)), drop 2 r)
     else if k = 0x63 \<and> 5 \<le> length r then Some (Print_Info (r ! 2), drop 5 r)
     else if k = 0x7a \<and> 10 \<le> length r then
       Some (Print_Info_Ext (r ! 2) (le32 (r ! 4) (r ! 5) (r ! 6) (r ! 7)) (r ! 8), drop 10 r)
     else None))"

definition parse_line :: "bool \<Rightarrow> u8 list \<Rightarrow> (pcmd \<times> u8 list) option" where
  \<comment> \<open>a raster line after its \<open>47\<close>: payload length, zero, payload (one literal run in PackBits)\<close>
  "parse_line pb bs =
    (if length bs < 2 then None
     else let n = unat (bs ! 0); payload = take n (drop 2 bs); r = drop n (drop 2 bs) in
       if length payload < n then None
       else if pb then (if n = 0 \<or> unat (hd payload) + 2 \<noteq> n then None
                        else Some (Raster_Line (tl payload), r))
       else Some (Raster_Line payload, r))"

definition parse_cmd :: "bool \<Rightarrow> u8 list \<Rightarrow> (pcmd \<times> u8 list) option" where
  "parse_cmd pb bs = (case bs of [] \<Rightarrow> None | b # r \<Rightarrow>
    (if b = 0 then (if take 99 r = replicate 99 0 then Some (Invalidate, drop 99 r) else None)
     else if b = 0x0c then Some (Form_Feed, r)
     else if b = 0x1a then Some (Eject, r)
     else if b = 0x4d \<and> r \<noteq> [] then Some (Compression (hd r), tl r)
     else if b = 0x47 then parse_line pb r
     else if b = 0x1b \<and> r \<noteq> [] \<and> hd r = 0x40 then Some (Init, tl r)
     else if b = 0x1b \<and> r \<noteq> [] \<and> hd r = 0x69 then parse_escape (tl r)
     else None))"

lemma parse_line_packbits:
  assumes "1 \<le> length data" "length data \<le> 128"
  shows "parse_line True (tl (pt_cmd_sendraster_packbits data) @ r) = Some (Raster_Line data, r)"
proof -
  have n: "unat (word_of_nat (length data + 1) :: u8) = length data + 1"
    using assms by (subst unat_of_nat) (simp add: take_bit_eq_mod)
  have "word_of_int (int (length data) - 1) = (word_of_nat (length data - 1) :: u8)"
    using assms by (simp add: of_nat_diff)
  moreover have "unat (word_of_nat (length data - 1) :: u8) = length data - 1"
    using assms by (subst unat_of_nat) (simp add: take_bit_eq_mod)
  ultimately show ?thesis
    using assms n by (simp add: parse_line_def cmd_defs Let_def)
qed

lemma parse_line_plain:
  assumes "length data < 256"
  shows "parse_line False (tl (pt_cmd_sendraster data) @ r) = Some (Raster_Line data, r)"
proof -
  have "unat (word_of_nat (length data) :: u8) = length data"
    using assms by (subst unat_of_nat) (simp add: take_bit_eq_mod)
  then show ?thesis
    by (simp add: parse_line_def cmd_defs Let_def)
qed

lemma parse_cmd_line: "parse_cmd pb (0x47 # bs) = parse_line pb bs"
  by (simp add: parse_cmd_def)

lemma sendraster_hd:
  "pt_cmd_sendraster_packbits data @ r = 0x47 # (tl (pt_cmd_sendraster_packbits data) @ r)"
  "pt_cmd_sendraster data @ r = 0x47 # (tl (pt_cmd_sendraster data) @ r)"
  by (simp_all add: cmd_defs)

lemma parse_cmd_raster:
  assumes "cmd_ok pb (Raster_Line data)"
  shows "parse_cmd pb (encode_cmd pb (Raster_Line data) @ r) = Some (Raster_Line data, r)"
proof (cases pb)
  case True
  with assms show ?thesis
    using parse_line_packbits [of data r] by (simp add: sendraster_hd parse_cmd_line)
next
  case False
  with assms show ?thesis
    using parse_line_plain [of data r] by (simp add: sendraster_hd parse_cmd_line)
qed

lemma parse_cmd_encode:
  "cmd_ok pb c \<Longrightarrow> parse_cmd pb (encode_cmd pb c @ r) = Some (c, r)"
proof (cases c)
  case (Raster_Line data)
  then show "cmd_ok pb c \<Longrightarrow> ?thesis" using parse_cmd_raster by simp
next
  case (Print_Info_Ext mm rows page)
  then show ?thesis
    using le32_bytes [of rows]
    by (simp add: cmd_defs parse_cmd_def parse_escape_def)
next
  case (Margin d)
  then show ?thesis
    using le16_bytes [of d] by (simp add: cmd_defs parse_cmd_def parse_escape_def)
next
  case Invalidate
  have inv: "pt_cmd_invalidate = 0 # replicate 99 0"
    by (simp add: cmd_defs flip: replicate_Suc)
  have "parse_cmd pb (0 # (replicate 99 0 @ r)) = Some (Invalidate, r)"
    by (simp only: parse_cmd_def list.case) simp
  then show ?thesis by (simp add: Invalidate inv)
next
  case (Print_Info mm)
  then show ?thesis by (simp add: cmd_defs parse_cmd_def parse_escape_def)
qed (simp_all add: cmd_defs flag_defs parse_cmd_def parse_escape_def)

section \<open>Command streams\<close>

fun decode_stream :: "('b list \<Rightarrow> ('c \<times> 'b list) option) \<Rightarrow> nat \<Rightarrow> 'b list \<Rightarrow> 'c list option" where
  \<comment> \<open>split a stream into commands; the fuel bounds their number\<close>
  "decode_stream dec fuel [] = Some []"
| "decode_stream dec 0 (b # bs) = None"
| "decode_stream dec (Suc fuel) (b # bs) =
     (case dec (b # bs) of None \<Rightarrow> None
      | Some (c, r) \<Rightarrow> map_option ((#) c) (decode_stream dec fuel r))"

locale prefix_code =
  fixes enc :: "'c \<Rightarrow> 'b list"
    and dec :: "'b list \<Rightarrow> ('c \<times> 'b list) option"
    and valid :: "'c \<Rightarrow> bool"
  assumes dec_enc: "valid c \<Longrightarrow> dec (enc c @ r) = Some (c, r)"
    and enc_nonempty: "enc c \<noteq> []"
begin

lemma decode_cons:
  assumes "valid c"
  shows "decode_stream dec (Suc fuel) (enc c @ r) = map_option ((#) c) (decode_stream dec fuel r)"
proof -
  obtain b bs where b: "enc c = b # bs" using enc_nonempty [of c] by (cases "enc c") auto
  have "dec (b # (bs @ r)) = Some (c, r)" using dec_enc [OF assms, of r] by (simp add: b)
  then show ?thesis by (simp add: b)
qed

lemma decode_concat:
  "list_all valid cs \<Longrightarrow> length cs \<le> fuel \<Longrightarrow> decode_stream dec fuel (concat (map enc cs)) = Some cs"
proof (induction cs arbitrary: fuel)
  case (Cons c cs)
  then obtain f where f: "fuel = Suc f" by (cases fuel) auto
  with Cons show ?case by (simp add: decode_cons)
qed simp

lemma length_le_bytes: "length cs \<le> length (concat (map enc cs))"
proof (induction cs)
  case (Cons c cs)
  have "1 \<le> length (enc c)" using enc_nonempty [of c] by (cases "enc c") auto
  with Cons show ?case by simp
qed simp

lemma stream_injective:
  assumes "list_all valid cs" "list_all valid ds" "concat (map enc cs) = concat (map enc ds)"
  shows "cs = ds"
proof -
  have "decode_stream dec (length cs + length ds) (concat (map enc cs)) = Some cs"
    using assms(1) by (rule decode_concat) simp
  moreover have "decode_stream dec (length cs + length ds) (concat (map enc ds)) = Some ds"
    using assms(2) by (rule decode_concat) simp
  ultimately show ?thesis using assms(3) by (metis option.inject)
qed

end

lemma encode_cmd_nonempty: "encode_cmd pb c \<noteq> []"
  by (cases c) simp_all

interpretation cmds: prefix_code "encode_cmd pb" "parse_cmd pb" "cmd_ok pb" for pb
  by unfold_locales (simp_all add: parse_cmd_encode encode_cmd_nonempty)

definition blank_program :: "u8 \<Rightarrow> pcmd list" where
  \<comment> \<open>the commands a blank continuation must amount to\<close>
  "blank_program mm =
    [Raster_Start True, Auto_Status True, Print_Info_Ext mm 1 1, Set_Mode 0x40, Set_Advanced 0,
     Margin 14, Compression 2, Raster_Line (replicate 16 0), Form_Feed]"

lemma blank_continuation_program:
  "pt_cmd_blank_continuation mm = concat (map (encode_cmd True) (blank_program mm))"
  by (simp add: pt_cmd_blank_continuation_def blank_program_def)

section \<open>Properties\<close>

text \<open>C35. The command encoding is unambiguous: every stream of commands, in either raster
  format, decodes back to exactly those commands, with the number of its bytes as enough fuel, so
  no two different command sequences put the same bytes on the wire. Raster lines must have a
  length that their length bytes can express.\<close>

theorem command_stream_roundtrip:
  assumes "list_all (cmd_ok pb) cs"
  shows "decode_stream (parse_cmd pb) (length (concat (map (encode_cmd pb) cs)))
           (concat (map (encode_cmd pb) cs)) = Some cs"
  using assms cmds.length_le_bytes by (rule cmds.decode_concat)

theorem command_stream_roundtrip_witness:
  "decode_stream (parse_cmd True)
     (length (concat (map (encode_cmd True) [Init, Margin 14, Raster_Line [1, 2]])))
     (concat (map (encode_cmd True) [Init, Margin 14, Raster_Line [1, 2]]))
   = Some [Init, Margin 14, Raster_Line [1, 2]]"
  by (rule command_stream_roundtrip) simp

text \<open>The blank continuation that releases a held label is 57 bytes long, fits the caller's
  64-byte buffer, and decodes to its documented program: raster start in P700 mode, automatic
  status, one continued row for the loaded tape, automatic cut, chain printing on, a 14-dot margin,
  PackBits, one white row and a form feed. In particular it contains no initialize, invalidate or
  eject.\<close>

theorem blank_continuation_exact:
  "length (pt_cmd_blank_continuation mm) = 57
   \<and> decode_stream (parse_cmd True) 57 (pt_cmd_blank_continuation mm) = Some (blank_program mm)
   \<and> Init \<notin> set (blank_program mm) \<and> Invalidate \<notin> set (blank_program mm) \<and> Eject \<notin> set (blank_program mm)"
proof -
  have "list_all (cmd_ok True) (blank_program mm)" by (simp add: blank_program_def)
  then have "decode_stream (parse_cmd True) 57 (concat (map (encode_cmd True) (blank_program mm)))
      = Some (blank_program mm)"
    by (rule cmds.decode_concat) (simp add: blank_program_def)
  then show ?thesis
    by (simp add: blank_continuation_program [symmetric])
      (simp add: pt_cmd_blank_continuation_def cmd_defs blank_program_def)
qed

end
