(* ===== verification/Bench.thy ===== *)
theory Bench
  imports World Status Protocol
begin

unbundle bit_operations_syntax

text \<open>
  A concrete environment for the witnesses: every call succeeds, the device takes every byte, one
  PT-P710BT is attached on 12 mm tape and answers a status request with a clean reply and a printed
  page with a receive-ready notification. The properties are stated for all environments; this one
  shows that their hypotheses can hold.
\<close>

definition status_packet :: "u8 \<Rightarrow> u8 list" where
  \<comment> \<open>a clean 32-byte status block of the given type for 12 mm tape\<close>
  "status_packet ty = [0x80, 0x20, 0, 0, 0, 0, 0, 0, 0, 0, 12, 0, 0, 0, 0, 0, 0, 0, ty, 0, 0, 0,
     0, 0, 0, 0, 0, 0, 0, 0, 0, 0]"

fun pending_reply :: "hist \<Rightarrow> u8 list" where
  \<comment> \<open>what the printer still owes: the answer to the newest write, unless it was read already\<close>
  "pending_reply [] = []"
| "pending_reply (Ev_Usb_In n t rc data # h) = (if data = [] then pending_reply h else [])"
| "pending_reply (Ev_Write buf n # h) =
    (if buf = pt_cmd_status_request then status_packet 0
     else if buf = pt_cmd_ff \<or> buf = pt_cmd_eject then status_packet 6
     else if length buf = 57 then status_packet 6 else [])"
| "pending_reply (e # h) = pending_reply h"

fun written_bytes :: "hist \<Rightarrow> nat" where
  "written_bytes [] = 0"
| "written_bytes (Ev_Write buf n # h) = length buf + written_bytes h"
| "written_bytes (e # h) = written_bytes h"

fun bench_width :: "hist \<Rightarrow> int" where
  "bench_width [] = 1200"
| "bench_width (Ev_Ready_Media m ok # h) = (if ok then size_width m else bench_width h)"
| "bench_width (e # h) = bench_width h"

definition bench :: env where
  "bench = \<lparr>
    job_canceled = (\<lambda>h. False), job_state = (\<lambda>h. 5), job_format = Some ''image/png'', job_copies = 1,
    job_attribute = (\<lambda>n. if n = ''finishings'' then Some 1 else None), driver_attributes = (\<lambda>h. None),
    ipp_value_tag = (\<lambda>a. IPP_TAG_ENUM), ipp_count = (\<lambda>a. 1), ipp_integer = (\<lambda>a i. 60),
    ipp_string = (\<lambda>a i. None), ipp_collection = (\<lambda>a i. 0), ipp_find = (\<lambda>c n t. None),
    device_uri = Some ''ptouch://Brother/PT-P710BT'', printer_state = (\<lambda>h. 3), ready_width = bench_width,
    x_default = 180, set_ready_media = (\<lambda>h m. True),
    open_device = (\<lambda>h. Some (Some (Usb_Conn \<lparr>usb_ctx = 0, usb_h = 1, usb_detached = False,
      usb_model = \<lparr>dev_vid = 0x04f9, dev_pid = 0x20af, dev_name = ''PT-P710BT'', dev_max_px = 128,
        dev_dpi = 180, dev_flags = FLAG_RASTER_PACKBITS OR FLAG_P700_INIT\<rparr>\<rparr>))),
    format_size_name = (\<lambda>a b w l. []), device_metrics = (\<lambda>h. word_of_nat (written_bytes h)),
    device_write = (\<lambda>h buf. int (length buf)), clock = (\<lambda>h. \<lparr>tv_sec = int (length h), tv_nsec = 0\<rparr>),
    alloc_ok = (\<lambda>h. True), malloc_row = (\<lambda>h i. replicate 16 0), usb_init = (\<lambda>h. 0), usb_context = (\<lambda>h. 0),
    usb_device_list = (\<lambda>h. Some [7]), usb_descriptor = (\<lambda>d. Some (0x04f9, 0x20af)),
    usb_open = (\<lambda>h d. Some 1), usb_driver_active = (\<lambda>h. 0), usb_detach = (\<lambda>h. 0), usb_claim = (\<lambda>h. 0),
    usb_bulk_in = (\<lambda>h u n t. if pending_reply h = [] then (- 7, []) else (0, take n (pending_reply h))),
    usb_bulk_out = (\<lambda>h u buf t. (0, length buf)),
    bt_socket = (\<lambda>h. 3), bt_connect = (\<lambda>h fd a. Inr ()), fd_poll = (\<lambda>h fd t. Inr 1),
    fd_so_error = (\<lambda>h fd. Inr 0), fd_set_blocking = (\<lambda>h fd. 0),
    fd_recv = (\<lambda>h fd n. Inr (replicate n 0)), fd_send = (\<lambda>h fd buf. Inr (length buf))\<rparr>"

lemma bench_simps [simp]:
  "job_canceled bench h = False" "job_state bench h = 5" "job_format bench = Some ''image/png''"
  "job_copies bench = 1" "device_uri bench = Some ''ptouch://Brother/PT-P710BT''"
  "ready_width bench = bench_width" "x_default bench = 180" "set_ready_media bench h m = True"
  "device_metrics bench h = word_of_nat (written_bytes h)" "device_write bench h buf = int (length buf)"
  "clock bench h = \<lparr>tv_sec = int (length h), tv_nsec = 0\<rparr>" "alloc_ok bench h = True"
  "malloc_row bench h i = replicate 16 0" "usb_init bench h = 0" "usb_context bench h = 0"
  "usb_device_list bench h = Some [7]" "usb_descriptor bench d = Some (0x04f9, 0x20af)"
  "usb_open bench h d = Some 1" "usb_driver_active bench h = 0" "usb_detach bench h = 0"
  "usb_claim bench h = 0"
  "usb_bulk_in bench h u n t = (if pending_reply h = [] then (- 7, []) else (0, take n (pending_reply h)))"
  "usb_bulk_out bench h u buf t = (0, length buf)"
  "fd_poll bench h fd ms = Inr 1" "fd_recv bench h fd n = Inr (replicate n 0)"
  "fd_send bench h fd buf = Inr (length buf)"
  "ipp_value_tag bench a = IPP_TAG_ENUM" "ipp_count bench a = 1" "ipp_integer bench a i = 60"
  "job_attribute bench nm = (if nm = ''finishings'' then Some 1 else None)"
  "printer_state bench h = 3" "format_size_name bench a1 a2 w l = []" "driver_attributes bench h = None"
  by (simp_all add: bench_def)

lemma bench_clock_advances: "clock_advances bench"
  unfolding clock_advances_def
proof
  fix m
  show "\<exists>n. \<forall>h. n \<le> length h \<longrightarrow> 0 \<le> tv_nsec (clock bench h) \<and> tv_nsec (clock bench h) < 1000000000
      \<and> m \<le> tv_sec (clock bench h)"
    by (rule exI [of _ "nat m"]) (simp, linarith)
qed

end
