(* ===== verification/Device_USB.thy ===== *)
theory Device_USB
  imports Bench
begin

unbundle bit_operations_syntax

text \<open>
  \<^verbatim>\<open>src/device_usb.c\<close>, \<^verbatim>\<open>src/device_usb.h\<close>: the supported models and their URIs, and the
  \<^verbatim>\<open>ptouch://\<close> scheme over libusb: discovery, open with its unwinding, close, bounded reads, full
  writes, counting. A URI or model argument \<open>None\<close> is a null pointer. The program's one device has
  one data pointer, the field \<open>conn\<close> of the world; a data pointer of the other scheme's type would
  be undefined behaviour and is \<open>None\<close>.
\<close>

section \<open>Models and URIs\<close>

definition pt_usb_supported_model :: "string option \<Rightarrow> pt_dev option" where
  "pt_usb_supported_model model =
    (let m = (case model of None \<Rightarrow> ''PT-2730'' | Some m \<Rightarrow> if m = [] then ''PT-2730'' else m) in
     if m = ''PT-2730'' \<or> m = ''PT-P710BT'' then pt_lookup_name (Some m) else None)"

definition usb_prefix :: string where
  "usb_prefix = ''ptouch://Brother/''"

definition pt_usb_model_from_uri :: "string option \<Rightarrow> pt_dev option" where
  "pt_usb_model_from_uri uri =
    (case uri of None \<Rightarrow> None
     | Some u \<Rightarrow> if prefix_of usb_prefix u \<and> length usb_prefix < length u
                 then pt_usb_supported_model (Some (drop (length usb_prefix) u)) else None)"

definition pt_usb_format_uri :: "pt_dev \<Rightarrow> nat \<Rightarrow> string" where
  "pt_usb_format_uri model sz = snprintf sz (usb_prefix @ dev_name model)"

definition pt_usb_format_id :: "pt_dev \<Rightarrow> nat \<Rightarrow> string" where
  "pt_usb_format_id model sz =
     snprintf sz (''MFG:Brother;MDL:'' @ dev_name model @ '';CMD:PT-CBP;'')"

definition pt_usb_is_uri :: "string option \<Rightarrow> bool" where
  "pt_usb_is_uri uri \<longleftrightarrow> pt_usb_model_from_uri uri \<noteq> None"

definition pt_2730 :: pt_dev where
  "pt_2730 = \<lparr>dev_vid = 0x04f9, dev_pid = 0x2041, dev_name = ''PT-2730'', dev_max_px = 128,
     dev_dpi = 180, dev_flags = FLAG_NONE\<rparr>"

definition pt_p710bt :: pt_dev where
  "pt_p710bt = \<lparr>dev_vid = 0x04f9, dev_pid = 0x20af, dev_name = ''PT-P710BT'', dev_max_px = 128,
     dev_dpi = 180, dev_flags = FLAG_RASTER_PACKBITS OR FLAG_P700_INIT\<rparr>"

lemma lookup_supported:
  "pt_lookup_name (Some ''PT-2730'') = Some pt_2730"
  "pt_lookup_name (Some ''PT-P710BT'') = Some pt_p710bt"
  by (simp_all add: pt_lookup_name_def g_devs_def pt_2730_def pt_p710bt_def)

lemma supported_model_iff:
  "pt_usb_supported_model m = Some d \<longleftrightarrow>
    (d = pt_2730 \<and> (m = None \<or> m = Some [] \<or> m = Some ''PT-2730''))
    \<or> (d = pt_p710bt \<and> m = Some ''PT-P710BT'')"
  by (cases m) (auto simp: pt_usb_supported_model_def lookup_supported)

lemma supported_rows: "pt_usb_supported_model m = Some d \<Longrightarrow> d = pt_2730 \<or> d = pt_p710bt"
  by (auto simp: supported_model_iff)

lemma models_differ: "pt_2730 \<noteq> pt_p710bt"
  by (simp add: pt_2730_def pt_p710bt_def)

lemma model_from_uri_iff:
  "pt_usb_model_from_uri uri = Some d \<longleftrightarrow>
    (d = pt_2730 \<and> uri = Some (usb_prefix @ ''PT-2730''))
    \<or> (d = pt_p710bt \<and> uri = Some (usb_prefix @ ''PT-P710BT''))"
  by (auto simp: pt_usb_model_from_uri_def supported_model_iff prefix_of_iff split: option.splits if_splits)

section \<open>Matching devices\<close>

definition usb_matches :: "env \<Rightarrow> u16 \<Rightarrow> u16 \<Rightarrow> ref \<Rightarrow> bool" where
  \<comment> \<open>the condition of the counting loop for one listed device\<close>
  "usb_matches E v p d = (case usb_descriptor E d of None \<Rightarrow> False | Some (v', p') \<Rightarrow> v' = v \<and> p' = p)"

fun count_matches :: "env \<Rightarrow> ref list \<Rightarrow> u16 \<Rightarrow> u16 \<Rightarrow> int \<Rightarrow> ref option \<Rightarrow> int \<times> ref option" where
  \<comment> \<open>the loop from a given count and last match; callers start at 0 and no match\<close>
  "count_matches E [] v p count match = (count, match)"
| "count_matches E (d # devs) v p count match =
    (if usb_matches E v p d then count_matches E devs v p (count + 1) (Some d)
     else count_matches E devs v p count match)"

lemma count_matches_length:
  "fst (count_matches E devs v p c m) = c + int (length (filter (usb_matches E v p) devs))"
  by (induction devs arbitrary: c m) auto

lemma count_matches_last:
  "snd (count_matches E devs v p c m) =
    (if filter (usb_matches E v p) devs = [] then m else Some (last (filter (usb_matches E v p) devs)))"
  by (induction devs arbitrary: c m) auto

lemma count_matches_one:
  assumes "count_matches E devs v p 0 None = (1, m)"
  shows "\<exists>d. filter (usb_matches E v p) devs = [d] \<and> m = Some d"
proof -
  have "length (filter (usb_matches E v p) devs) = 1"
    using count_matches_length [of E devs v p 0 None] assms by simp
  then obtain d where d: "filter (usb_matches E v p) devs = [d]"
    by (auto simp: length_Suc_conv)
  moreover have "m = Some d"
    using count_matches_last [of E devs v p 0 None] assms d by simp
  ultimately show ?thesis by blast
qed

section \<open>libusb sessions\<close>

text \<open>Every enumeration opens a context and a device list of its own.\<close>

definition libusb_init :: "env \<Rightarrow> 'a world_scheme \<Rightarrow> (int \<times> 'a world_scheme) option" where
  "libusb_init E s = (let rc = usb_init E (trace s) in answer (Ev_Usb_Init rc) rc s)"

definition libusb_exit :: "ref \<Rightarrow> 'a world_scheme \<Rightarrow> (unit \<times> 'a world_scheme) option" where
  "libusb_exit ctx s = answer (Ev_Usb_Exit ctx) () s"

definition libusb_get_device_list :: "env \<Rightarrow> 'a world_scheme \<Rightarrow> (ref list option \<times> 'a world_scheme) option" where
  "libusb_get_device_list E s = (let l = usb_device_list E (trace s) in answer (Ev_Usb_List l) l s)"

definition libusb_free_device_list :: "'a world_scheme \<Rightarrow> (unit \<times> 'a world_scheme) option" where
  "libusb_free_device_list s = answer Ev_Usb_Free_List () s"

definition libusb_open :: "env \<Rightarrow> ref \<Rightarrow> 'a world_scheme \<Rightarrow> (ref option \<times> 'a world_scheme) option" where
  "libusb_open E d s = (let h = usb_open E (trace s) d in answer (Ev_Usb_Open d h) h s)"

definition libusb_close :: "ref \<Rightarrow> 'a world_scheme \<Rightarrow> (unit \<times> 'a world_scheme) option" where
  "libusb_close h s = answer (Ev_Usb_Close h) () s"

definition libusb_kernel_driver_active :: "env \<Rightarrow> 'a world_scheme \<Rightarrow> (int \<times> 'a world_scheme) option" where
  "libusb_kernel_driver_active E s =
     (let rc = usb_driver_active E (trace s) in answer (Ev_Usb_Driver_Active rc) rc s)"

definition libusb_detach_kernel_driver :: "env \<Rightarrow> 'a world_scheme \<Rightarrow> (int \<times> 'a world_scheme) option" where
  "libusb_detach_kernel_driver E s = (let rc = usb_detach E (trace s) in answer (Ev_Usb_Detach rc) rc s)"

definition libusb_attach_kernel_driver :: "'a world_scheme \<Rightarrow> (unit \<times> 'a world_scheme) option" where
  "libusb_attach_kernel_driver s = answer Ev_Usb_Attach () s"

definition libusb_claim_interface :: "env \<Rightarrow> 'a world_scheme \<Rightarrow> (int \<times> 'a world_scheme) option" where
  "libusb_claim_interface E s = (let rc = usb_claim E (trace s) in answer (Ev_Usb_Claim rc) rc s)"

definition libusb_release_interface :: "'a world_scheme \<Rightarrow> (unit \<times> 'a world_scheme) option" where
  "libusb_release_interface s = answer Ev_Usb_Release () s"

lemmas libusb_defs =
  libusb_init_def libusb_exit_def libusb_get_device_list_def libusb_free_device_list_def
  libusb_open_def libusb_close_def libusb_kernel_driver_active_def libusb_detach_kernel_driver_def
  libusb_attach_kernel_driver_def libusb_claim_interface_def libusb_release_interface_def alloc_def
  Let_def

definition pt_usb_count :: "env \<Rightarrow> u16 \<Rightarrow> u16 \<Rightarrow> 'a world_scheme \<Rightarrow> (int \<times> 'a world_scheme) option" where
  "pt_usb_count E v p s = do {
     let ctx = usb_context E (trace s);
     (rc, s) \<leftarrow> libusb_init E s;
     if rc \<noteq> 0 then Some (- 1, s)
     else do {
       (l, s) \<leftarrow> libusb_get_device_list E s;
       case l of
         None \<Rightarrow> do { (_, s) \<leftarrow> libusb_exit ctx s; Some (- 1, s) }
       | Some devs \<Rightarrow> do {
           let count = fst (count_matches E devs v p 0 None);
           (_, s) \<leftarrow> libusb_free_device_list s;
           (_, s) \<leftarrow> libusb_exit ctx s;
           Some (count, s)
         }
     }
   }"

definition pt_usb_present :: "env \<Rightarrow> u16 \<Rightarrow> u16 \<Rightarrow> 'a world_scheme \<Rightarrow> (bool \<times> 'a world_scheme) option" where
  "pt_usb_present E v p s = do { (n, s) \<leftarrow> pt_usb_count E v p s; Some (n = 1, s) }"

definition unwind_claim :: "env \<Rightarrow> ref \<Rightarrow> bool \<Rightarrow> 'a world_scheme \<Rightarrow> (bool \<times> 'a world_scheme) option" where
  \<comment> \<open>claim the interface; on failure give the handle back (the unwind ladder)\<close>
  "unwind_claim E h detached s = do {
     (rc, s) \<leftarrow> libusb_claim_interface E s;
     if rc \<noteq> 0 then do {
       (_, s) \<leftarrow> (if detached then libusb_attach_kernel_driver s else Some ((), s));
       (_, s) \<leftarrow> libusb_close h s;
       Some (False, s)
     } else Some (True, s)
   }"

definition open_match :: "env \<Rightarrow> ref \<Rightarrow> 'a world_scheme \<Rightarrow> ((ref \<times> bool) option \<times> 'a world_scheme) option" where
  \<comment> \<open>open, detach and claim the matched device: the handle and whether a driver was detached\<close>
  "open_match E m s = do {
     (h, s) \<leftarrow> libusb_open E m s;
     case h of None \<Rightarrow> Some (None, s)
     | Some h \<Rightarrow> do {
         (active, s) \<leftarrow> libusb_kernel_driver_active E s;
         (rc, s) \<leftarrow> (if active = 1 then libusb_detach_kernel_driver E s else Some (- 1, s));
         let detached = (rc = 0);
         (ok, s) \<leftarrow> unwind_claim E h detached s;
         Some (if ok then Some (h, detached) else None, s)
       }
   }"

definition pt_usb_open :: "env \<Rightarrow> string option \<Rightarrow> 'a world_scheme \<Rightarrow> (bool \<times> 'a world_scheme) option" where
  "pt_usb_open E uri s = (case pt_usb_model_from_uri uri of
     None \<Rightarrow> Some (False, s)
   | Some supported \<Rightarrow> do {
       let ctx = usb_context E (trace s);
       (rc, s) \<leftarrow> libusb_init E s;
       if rc \<noteq> 0 then Some (False, s)
       else do {
         (l, s) \<leftarrow> libusb_get_device_list E s;
         case l of
           None \<Rightarrow> do { (_, s) \<leftarrow> libusb_exit ctx s; Some (False, s) }
         | Some devs \<Rightarrow>
             (case count_matches E devs (dev_vid supported) (dev_pid supported) 0 None of (count, match) \<Rightarrow>
               if count \<noteq> 1 then do {
                 (_, s) \<leftarrow> libusb_free_device_list s;
                 (_, s) \<leftarrow> libusb_exit ctx s;
                 Some (False, s)
               } else do {
                 m \<leftarrow> match;
                 (r, s) \<leftarrow> open_match E m s;
                 (_, s) \<leftarrow> libusb_free_device_list s;
                 case r of
                   None \<Rightarrow> do { (_, s) \<leftarrow> libusb_exit ctx s; Some (False, s) }
                 | Some (h, detached) \<Rightarrow> do {
                     (ok, s) \<leftarrow> alloc E s;
                     if \<not> ok then do {
                       (_, s) \<leftarrow> libusb_release_interface s;
                       (_, s) \<leftarrow> (if detached then libusb_attach_kernel_driver s else Some ((), s));
                       (_, s) \<leftarrow> libusb_close h s;
                       (_, s) \<leftarrow> libusb_exit ctx s;
                       Some (False, s)
                     } else
                       Some (True, s\<lparr>conn := Some (Usb_Conn
                         \<lparr>usb_ctx = ctx, usb_h = h, usb_detached = detached, usb_model = supported\<rparr>)\<rparr>)
                   }
               })
       }
     })"

definition usb_conn :: "'a world_scheme \<Rightarrow> pt_usb_conn option option" where
  \<comment> \<open>the device data read as a \<^verbatim>\<open>pt_usb_conn\<close>: undefined when it is the other scheme's\<close>
  "usb_conn s = (case conn s of None \<Rightarrow> Some None | Some (Usb_Conn c) \<Rightarrow> Some (Some c) | Some (Bt_Conn _) \<Rightarrow> None)"

definition pt_usb_close :: "'a world_scheme \<Rightarrow> (unit \<times> 'a world_scheme) option" where
  "pt_usb_close s = do {
     c \<leftarrow> usb_conn s;
     case c of None \<Rightarrow> Some ((), s)
     | Some c \<Rightarrow> do {
         (_, s) \<leftarrow> libusb_release_interface s;
         (_, s) \<leftarrow> (if usb_detached c then libusb_attach_kernel_driver s else Some ((), s));
         (_, s) \<leftarrow> libusb_close (usb_h c) s;
         (_, s) \<leftarrow> libusb_exit (usb_ctx c) s;
         Some ((), s\<lparr>conn := None\<rparr>)
       }
   }"

section \<open>Transfers\<close>

definition LIBUSB_ERROR_TIMEOUT :: int where "LIBUSB_ERROR_TIMEOUT = - 7"
definition PT_USB_TIMEOUT_MS :: nat where "PT_USB_TIMEOUT_MS = 2000"
definition PT_USB_STATUS_TIMEOUT_MS :: nat where "PT_USB_STATUS_TIMEOUT_MS = 300"

definition bulk_in :: "env \<Rightarrow> ref \<Rightarrow> nat \<Rightarrow> nat \<Rightarrow> 'a world_scheme \<Rightarrow> ((int \<times> u8 list) \<times> 'a world_scheme) option" where
  \<comment> \<open>the error code and the bytes libusb put into the buffer\<close>
  "bulk_in E h bytes timeout s = (case usb_bulk_in E (trace s) h bytes timeout of
     (rc, data) \<Rightarrow> answer (Ev_Usb_In bytes timeout rc data) (rc, data) s)"

definition bulk_out :: "env \<Rightarrow> ref \<Rightarrow> u8 list \<Rightarrow> nat \<Rightarrow> 'a world_scheme \<Rightarrow> ((int \<times> nat) \<times> 'a world_scheme) option" where
  \<comment> \<open>the error code and the number of bytes libusb took from the buffer\<close>
  "bulk_out E h buf timeout s = (case usb_bulk_out E (trace s) h buf timeout of
     (rc, t) \<Rightarrow> answer (Ev_Usb_Out buf rc t) (rc, t) s)"

definition read_result :: "int \<Rightarrow> u8 list \<Rightarrow> int" where
  \<comment> \<open>the value both USB read functions return for a transfer\<close>
  "read_result rc data =
    (if rc = 0 then int (length data)
     else if rc = LIBUSB_ERROR_TIMEOUT then (if length data > 0 then int (length data) else 0)
     else - 1)"

definition pt_usb_read :: "env \<Rightarrow> nat \<Rightarrow> 'a world_scheme \<Rightarrow> ((int \<times> u8 list) \<times> 'a world_scheme) option" where
  \<comment> \<open>the returned value and the bytes now at the start of the buffer\<close>
  "pt_usb_read E bytes s = do {
     c \<leftarrow> usb_conn s;
     case c of None \<Rightarrow> Some ((- 1, []), s)
     | Some c \<Rightarrow> do {
         ((rc, data), s) \<leftarrow> bulk_in E (usb_h c) bytes PT_USB_TIMEOUT_MS s;
         Some ((read_result rc data, data), s)
       }
   }"

definition pt_usb_read_status ::
  "env \<Rightarrow> bool \<Rightarrow> string option \<Rightarrow> nat \<Rightarrow> 'a world_scheme \<Rightarrow> ((int \<times> u8 list) \<times> 'a world_scheme) option" where
  \<comment> \<open>the first argument says that the device pointer is not null\<close>
  "pt_usb_read_status E device uri bytes s =
    (if \<not> device \<or> \<not> pt_usb_is_uri uri then Some ((- 1, []), s)
     else do {
       c \<leftarrow> usb_conn s;
       case c of None \<Rightarrow> Some ((- 1, []), s)
       | Some c \<Rightarrow> do {
           ((rc, data), s) \<leftarrow> bulk_in E (usb_h c) bytes PT_USB_STATUS_TIMEOUT_MS s;
           Some ((read_result rc data, data), s)
         }
     })"

function usb_write_loop :: "env \<Rightarrow> ref \<Rightarrow> u8 list \<Rightarrow> nat \<Rightarrow> 'a world_scheme \<Rightarrow> (int \<times> 'a world_scheme) option" where
  "usb_write_loop E h buf sent s =
    (if sent < length buf then
       (case usb_bulk_out E (trace s) h (drop sent buf) PT_USB_TIMEOUT_MS of (rc, t) \<Rightarrow>
          if (rc = 0 \<or> rc = LIBUSB_ERROR_TIMEOUT) \<and> 0 < t
          then usb_write_loop E h buf (sent + t) (note_event (Ev_Usb_Out (drop sent buf) rc t) s)
          else Some (- 1, note_event (Ev_Usb_Out (drop sent buf) rc t) s))
     else Some (int (length buf), s))"
  by pat_completeness auto
termination
  by (relation "measure (\<lambda>(E, h, buf, sent, s). length buf - sent)") auto

declare usb_write_loop.simps [simp del]

definition pt_usb_write :: "env \<Rightarrow> u8 list \<Rightarrow> 'a world_scheme \<Rightarrow> (int \<times> 'a world_scheme) option" where
  "pt_usb_write E buf s = do {
     c \<leftarrow> usb_conn s;
     case c of None \<Rightarrow> Some (- 1, s) | Some c \<Rightarrow> usb_write_loop E (usb_h c) buf 0 s
   }"

definition pt_usb_status :: "preason set" where
  "pt_usb_status = {}"

definition pt_usb_id :: "nat \<Rightarrow> string \<Rightarrow> 'a world_scheme \<Rightarrow> string option" where
  \<comment> \<open>the buffer, which holds \<open>buffer\<close> before the call\<close>
  "pt_usb_id bufsize buffer s = do {
     c \<leftarrow> usb_conn s;
     Some (case c of None \<Rightarrow> buffer | Some c \<Rightarrow> pt_usb_format_id (usb_model c) bufsize)
   }"

section \<open>Discovery\<close>

definition pt_usb_register :: "string option \<Rightarrow> pt_dev option" where
  \<comment> \<open>the discovery model the registration stores, from the value of \<^verbatim>\<open>PTOUCH_MODEL\<close>\<close>
  "pt_usb_register ptouch_model = pt_usb_supported_model ptouch_model"

definition PT_VID :: u16 where "PT_VID = 0x04f9"

definition unselected_message :: "pt_dev \<Rightarrow> u16 \<Rightarrow> u16 \<Rightarrow> string" where
  "unselected_message dev v p =
    (if pt_usb_supported_model (Some (dev_name dev)) \<noteq> None
     then snprintf 200 (dev_name dev @ '' ('' @ fmt_04x v @ '':'' @ fmt_04x p
            @ '') is attached but unselected; select PTOUCH_MODEL='' @ dev_name dev)
     else snprintf 200 (dev_name dev @ '' ('' @ fmt_04x v @ '':'' @ fmt_04x p
            @ '') is recognized but not print-supported''))"

fun report_unselected :: "env \<Rightarrow> pt_dev option \<Rightarrow> bool \<Rightarrow> ref list \<Rightarrow> 'a world_scheme \<Rightarrow> 'a world_scheme" where
  \<comment> \<open>the diagnostic loop; \<open>err_cb\<close> says that the error callback is not null\<close>
  "report_unselected E discovery_model err_cb [] s = s"
| "report_unselected E discovery_model err_cb (d # devs) s =
    report_unselected E discovery_model err_cb devs
      (case usb_descriptor E d of None \<Rightarrow> s
       | Some (v, p) \<Rightarrow>
           if v \<noteq> PT_VID then s
           else (case pt_lookup_dev v p of None \<Rightarrow> s
                 | Some dev \<Rightarrow> if Some dev = discovery_model then s
                     else if err_cb then note_event (Ev_Found_Error (unselected_message dev v p)) s
                     else s))"

definition pt_usb_list ::
  "env \<Rightarrow> pt_dev option \<Rightarrow> (string \<Rightarrow> string \<Rightarrow> string \<Rightarrow> bool) \<Rightarrow> bool \<Rightarrow> 'a world_scheme
   \<Rightarrow> (bool \<times> 'a world_scheme) option" where
  "pt_usb_list E discovery_model cb err_cb s = do {
     let ctx = usb_context E (trace s);
     (rc, s) \<leftarrow> libusb_init E s;
     if rc \<noteq> 0 then Some (False, s)
     else do {
       (l, s) \<leftarrow> libusb_get_device_list E s;
       case l of
         None \<Rightarrow> do { (_, s) \<leftarrow> libusb_exit ctx s; Some (False, s) }
       | Some devs \<Rightarrow> do {
           let s = report_unselected E discovery_model err_cb devs s;
           case discovery_model of
             None \<Rightarrow> do {
               (_, s) \<leftarrow> libusb_free_device_list s;
               (_, s) \<leftarrow> libusb_exit ctx s;
               Some (False, s)
             }
           | Some supported \<Rightarrow> do {
               let count = fst (count_matches E devs (dev_vid supported) (dev_pid supported) 0 None);
               let uri = pt_usb_format_uri supported 80;
               let id = pt_usb_format_id supported 100;
               let info = snprintf 160 (dev_name supported @ '' (USB)'');
               (stop, s) \<leftarrow>
                 (if count = 1 then answer (Ev_Found info uri id) (cb info uri id) s
                  else if count > 1 \<and> err_cb then
                    answer (Ev_Found_Error (snprintf 160 (''Multiple '' @ dev_name supported
                      @ '' devices match; USB selection is ambiguous''))) False s
                  else Some (False, s));
               (_, s) \<leftarrow> libusb_free_device_list s;
               (_, s) \<leftarrow> libusb_exit ctx s;
               Some (stop, s)
             }
         }
     }
   }"

section \<open>The resource ledger\<close>

datatype usb_res = Context | Device_List | Handle | Interface | Kernel_Driver
  \<comment> \<open>what libusb hands out and wants back; \<open>Kernel_Driver\<close> is a driver detached and not reattached\<close>

fun ledger_entry :: "event \<Rightarrow> usb_res \<Rightarrow> int" where
  "ledger_entry (Ev_Usb_Init rc) r = (if r = Context \<and> rc = 0 then 1 else 0)"
| "ledger_entry (Ev_Usb_Exit _) r = (if r = Context then - 1 else 0)"
| "ledger_entry (Ev_Usb_List l) r = (if r = Device_List \<and> l \<noteq> None then 1 else 0)"
| "ledger_entry Ev_Usb_Free_List r = (if r = Device_List then - 1 else 0)"
| "ledger_entry (Ev_Usb_Open _ h) r = (if r = Handle \<and> h \<noteq> None then 1 else 0)"
| "ledger_entry (Ev_Usb_Close _) r = (if r = Handle then - 1 else 0)"
| "ledger_entry (Ev_Usb_Detach rc) r = (if r = Kernel_Driver \<and> rc = 0 then 1 else 0)"
| "ledger_entry Ev_Usb_Attach r = (if r = Kernel_Driver then - 1 else 0)"
| "ledger_entry (Ev_Usb_Claim rc) r = (if r = Interface \<and> rc = 0 then 1 else 0)"
| "ledger_entry Ev_Usb_Release r = (if r = Interface then - 1 else 0)"
| "ledger_entry _ r = 0"

definition ledger :: "hist \<Rightarrow> usb_res \<Rightarrow> int" where
  "ledger h r = sum_list (map (\<lambda>e. ledger_entry e r) h)"

lemma ledger_simps [simp]:
  "ledger (e # h) r = ledger_entry e r + ledger h r"
  by (simp add: ledger_def)

definition conn_owns :: "pt_usb_conn \<Rightarrow> usb_res \<Rightarrow> int" where
  \<comment> \<open>what an open connection holds\<close>
  "conn_owns c r = (case r of Context \<Rightarrow> 1 | Device_List \<Rightarrow> 0 | Handle \<Rightarrow> 1 | Interface \<Rightarrow> 1
     | Kernel_Driver \<Rightarrow> if usb_detached c then 1 else 0)"

definition claimed :: "bool \<Rightarrow> usb_res \<Rightarrow> int" where
  \<comment> \<open>what a successful \<open>open_match\<close> adds\<close>
  "claimed detached r = (case r of Handle \<Rightarrow> 1 | Interface \<Rightarrow> 1
     | Kernel_Driver \<Rightarrow> if detached then 1 else 0 | _ \<Rightarrow> 0)"

definition usb_grows :: "hist \<Rightarrow> hist \<Rightarrow> (event \<Rightarrow> bool) \<Rightarrow> bool" where
  \<comment> \<open>\<open>h'\<close> extends \<open>h\<close> by events that satisfy \<open>P\<close>\<close>
  "usb_grows h h' P \<longleftrightarrow> (\<exists>new. h' = new @ h \<and> (\<forall>e\<in>set new. P e))"

lemma open_match_ledger:
  "returns (open_match E m s) (\<lambda>r s'.
     conn s' = conn s \<and> (\<forall>x. ledger (trace s') x = ledger (trace s) x
       + (case r of None \<Rightarrow> 0 | Some (h, detached) \<Rightarrow> claimed detached x)))"
  by (auto simp: open_match_def unwind_claim_def libusb_defs claimed_def returns_def answer_def
      split: option.splits usb_res.splits)

lemma usb_open_ledger:
  "returns (pt_usb_open E uri s) (\<lambda>ok s'.
     if ok then (case conn s' of
         Some (Usb_Conn c) \<Rightarrow> pt_usb_model_from_uri uri = Some (usb_model c)
           \<and> (\<forall>x. ledger (trace s') x = ledger (trace s) x + conn_owns c x)
       | _ \<Rightarrow> False)
     else conn s' = conn s \<and> (\<forall>x. ledger (trace s') x = ledger (trace s) x))"
proof (cases "pt_usb_model_from_uri uri")
  case (Some sup)
  have open_m: "\<exists>r s'. open_match E m t = Some (r, s') \<and> conn s' = conn t \<and>
      (\<forall>x. ledger (trace s') x = ledger (trace t) x
        + (case r of None \<Rightarrow> 0 | Some (h, detached) \<Rightarrow> claimed detached x))" for m and t :: "'a world_scheme"
    using open_match_ledger [of E m t] by (auto simp: returns_iff)
  have match: "\<exists>d. m = Some d" if "count_matches E devs (dev_vid sup) (dev_pid sup) 0 None = (1, m)" for devs m
    using count_matches_one [OF that] by blast
  show ?thesis
  proof (cases "usb_init E (trace s) = 0")
    case init: True
    define s1 where "s1 = note_event (Ev_Usb_Init 0) s"
    show ?thesis
    proof (cases "usb_device_list E (trace s1)")
      case None
      then show ?thesis
        using Some init by (simp add: pt_usb_open_def libusb_defs s1_def answer_def)
    next
      case devs: (Some devs)
      define s2 where "s2 = note_event (Ev_Usb_List (Some devs)) s1"
      obtain count m where cm: "count_matches E devs (dev_vid sup) (dev_pid sup) 0 None = (count, m)"
        by fastforce
      show ?thesis
      proof (cases "count = 1")
        case False
        then show ?thesis
          using Some init devs cm by (simp add: pt_usb_open_def libusb_defs s1_def s2_def answer_def)
      next
        case True
        with cm match obtain d where d: "m = Some d" by blast
        obtain r s3 where r: "open_match E d s2 = Some (r, s3)" "conn s3 = conn s2"
          "\<And>x. ledger (trace s3) x = ledger (trace s2) x
            + (case r of None \<Rightarrow> 0 | Some (h, detached) \<Rightarrow> claimed detached x)"
          using open_m by blast
        show ?thesis
          using Some init devs cm True d r
          by (auto simp: pt_usb_open_def libusb_defs s1_def s2_def answer_def conn_owns_def claimed_def
              split: option.splits usb_res.splits)
      qed
    qed
  qed (use Some in \<open>simp add: pt_usb_open_def libusb_defs answer_def\<close>)
qed (simp add: pt_usb_open_def)

lemma usb_close_ledger:
  assumes "conn s = Some (Usb_Conn c)"
  shows "returns (pt_usb_close s) (\<lambda>_ s'. conn s' = None \<and>
    (\<forall>x. ledger (trace s') x = ledger (trace s) x - conn_owns c x))"
  using assms by (auto simp: pt_usb_close_def usb_conn_def libusb_defs answer_def conn_owns_def
      split: usb_res.splits)

lemma open_match_opens:
  "ensures (open_match E m s) (\<lambda>r s'. usb_grows (trace s) (trace s') (\<lambda>e. \<forall>d h. e = Ev_Usb_Open d h \<longrightarrow> d = m))"
  by (auto simp: open_match_def unwind_claim_def libusb_defs usb_grows_def answer_def split: option.splits)

section \<open>Full writes\<close>

fun taken :: "event \<Rightarrow> u8 list" where
  \<comment> \<open>the bytes libusb took in a bulk OUT transfer\<close>
  "taken (Ev_Usb_Out buf rc t) = take t buf"
| "taken _ = []"

definition usb_sent :: "hist \<Rightarrow> u8 list" where
  \<comment> \<open>everything sent to the device, oldest first\<close>
  "usb_sent h = concat (map taken (rev h))"

lemma usb_sent_Cons [simp]: "usb_sent (e # h) = usb_sent h @ taken e"
  by (simp add: usb_sent_def)

lemma usb_write_loop_prefix:
  assumes "sent \<le> length buf"
  shows "\<exists>n s' k. usb_write_loop E h buf sent s = Some (n, s') \<and> conn s' = conn s
     \<and> usb_sent (trace s') = usb_sent (trace s) @ take k (drop sent buf)
     \<and> (n = int (length buf) \<and> length buf \<le> sent + k \<or> n = - 1)"
  using assms
proof (induction E h buf sent s rule: usb_write_loop.induct)
  case (1 E h buf sent s)
  obtain rc t where out: "usb_bulk_out E (trace s) h (drop sent buf) PT_USB_TIMEOUT_MS = (rc, t)"
    by fastforce
  define s1 where "s1 = note_event (Ev_Usb_Out (drop sent buf) rc t) s"
  show ?case
  proof (cases "sent < length buf \<and> (rc = 0 \<or> rc = LIBUSB_ERROR_TIMEOUT) \<and> 0 < t")
    case go: True
    show ?thesis
    proof (cases "sent + t \<le> length buf")
      case True
      have "\<exists>n s' k. usb_write_loop E h buf (sent + t) s1 = Some (n, s') \<and> conn s' = conn s1
          \<and> usb_sent (trace s') = usb_sent (trace s1) @ take k (drop (sent + t) buf)
          \<and> (n = int (length buf) \<and> length buf \<le> sent + t + k \<or> n = - 1)"
        unfolding s1_def using go out True by (intro "1.IH") auto
      then obtain n s' k where
        "usb_write_loop E h buf (sent + t) s1 = Some (n, s')" "conn s' = conn s1"
        "usb_sent (trace s') = usb_sent (trace s1) @ take k (drop (sent + t) buf)"
        "n = int (length buf) \<and> length buf \<le> sent + t + k \<or> n = - 1"
        by blast
      moreover have "take t (drop sent buf) @ take k (drop (sent + t) buf) = take (t + k) (drop sent buf)"
        by (metis take_add drop_drop add.commute)
      ultimately show ?thesis
        using go out by (subst usb_write_loop.simps) (auto simp: s1_def intro!: exI [of _ "t + k"])
    next
      case False
      then have "usb_write_loop E h buf (sent + t) s1 = Some (int (length buf), s1)"
        by (subst usb_write_loop.simps) simp
      with False go out show ?thesis
        by (subst usb_write_loop.simps) (auto simp: s1_def intro!: exI [of _ t])
    qed
  next
    case False
    then show ?thesis
      using out "1.prems"
      by (subst usb_write_loop.simps)
        (auto intro: exI [of _ t] exI [of _ "0::nat"])
  qed
qed

section \<open>Properties\<close>

text \<open>C36. Opening the USB device leaks nothing: it always returns, and when it fails at any
  stage (no context, no list, no match, an ambiguous match, open or claim refused, out of memory)
  every context, list, handle, claimed interface and detached kernel driver it acquired has been
  given back and no connection is stored. When it succeeds it holds exactly one context, handle and
  interface, and a detached driver exactly when the connection records one.\<close>

theorem usb_open_no_leak:
  "returns (pt_usb_open E uri s) (\<lambda>ok s'.
     if ok then (case conn s' of
         Some (Usb_Conn c) \<Rightarrow> pt_usb_model_from_uri uri = Some (usb_model c)
           \<and> ledger (trace s') Context = ledger (trace s) Context + 1
           \<and> ledger (trace s') Device_List = ledger (trace s) Device_List
           \<and> ledger (trace s') Handle = ledger (trace s) Handle + 1
           \<and> ledger (trace s') Interface = ledger (trace s) Interface + 1
           \<and> ledger (trace s') Kernel_Driver = ledger (trace s) Kernel_Driver + (if usb_detached c then 1 else 0)
       | _ \<Rightarrow> False)
     else conn s' = conn s \<and> ledger (trace s') = ledger (trace s))"
  by (rule returns_mono [OF usb_open_ledger])
    (auto simp: conn_owns_def fun_eq_iff split: if_splits option.splits pt_conn.splits)

text \<open>Closing an open USB connection gives back everything it holds: after open and
  close the ledger of libusb resources is what it was, and the device has no data.\<close>

theorem usb_open_close_balanced:
  "returns (do { (ok, s1) \<leftarrow> pt_usb_open E uri s; if ok then pt_usb_close s1 else Some ((), s1) })
     (\<lambda>_ s'. ledger (trace s') = ledger (trace s) \<and> (conn s' = None \<or> conn s' = conn s))"
proof -
  have "returns (if ok then pt_usb_close s1 else Some ((), s1))
      (\<lambda>_ s'. ledger (trace s') = ledger (trace s) \<and> (conn s' = None \<or> conn s' = conn s))"
    if "if ok then (case conn s1 of Some (Usb_Conn c) \<Rightarrow> pt_usb_model_from_uri uri = Some (usb_model c)
           \<and> (\<forall>x. ledger (trace s1) x = ledger (trace s) x + conn_owns c x) | _ \<Rightarrow> False)
       else conn s1 = conn s \<and> (\<forall>x. ledger (trace s1) x = ledger (trace s) x)" for ok s1
  proof (cases ok)
    case True
    with that obtain c where c: "conn s1 = Some (Usb_Conn c)"
      "\<forall>x. ledger (trace s1) x = ledger (trace s) x + conn_owns c x"
      by (auto split: option.splits pt_conn.splits)
    with True show ?thesis
      using usb_close_ledger [OF c(1)] by (auto simp: returns_iff fun_eq_iff)
  qed (use that in \<open>simp add: fun_eq_iff\<close>)
  then show ?thesis
    by (simp only: returns_bind) (rule returns_mono [OF usb_open_ledger])
qed

text \<open>C38. A USB write terminates and is all or nothing in what it reports: it returns the
  whole length or \<open>-1\<close>; the bytes the device took are always a prefix of the buffer, in order
  and without repetition across short transfers and timeouts, and all of them when it reports
  success.\<close>

theorem usb_write_full_or_error:
  assumes "usb_conn s = Some (Some c)"
  shows "\<exists>n s' k. pt_usb_write E buf s = Some (n, s')
     \<and> usb_sent (trace s') = usb_sent (trace s) @ take k buf
     \<and> (n = int (length buf) \<and> length buf \<le> k \<or> n = - 1)"
  using usb_write_loop_prefix [of 0 buf E "usb_h c" s] assms by (auto simp: pt_usb_write_def)

definition bench_conn :: pt_usb_conn where
  "bench_conn = \<lparr>usb_ctx = 0, usb_h = 1, usb_detached = False, usb_model = pt_p710bt\<rparr>"

theorem usb_write_full_or_error_witness:
  "\<exists>n s' k. pt_usb_write bench [1, 2] \<lparr>trace = [], conn = Some (Usb_Conn bench_conn)\<rparr> = Some (n, s')
     \<and> usb_sent (trace s') = usb_sent [] @ take k [1, 2]"
  using usb_write_full_or_error [of "\<lparr>trace = [], conn = Some (Usb_Conn bench_conn)\<rparr>" bench_conn bench "[1, 2]"]
  by (auto simp: usb_conn_def)

end
