(* ===== verification/Device_BT.thy ===== *)
theory Device_BT
  imports Bench Config
begin

text \<open>
  \<^verbatim>\<open>src/device_bt.c\<close>, \<^verbatim>\<open>src/device_bt.h\<close>: the \<^verbatim>\<open>ptouch-bt://\<close> scheme over an RFCOMM socket. A
  failing socket call answers \<open>Inl errno\<close>. The receive and send loops restart after an
  interrupting signal for as long as signals arrive, so they are partial functions, and that they
  return is a theorem.
\<close>

definition PT_BT_PREFIX :: string where "PT_BT_PREFIX = ''ptouch-bt://Brother/PT-P710BT/''"
definition PT_BT_CONNECT_TIMEOUT_MS :: int where "PT_BT_CONNECT_TIMEOUT_MS = 10000"
definition PT_BT_STATUS_TIMEOUT_MS :: int where "PT_BT_STATUS_TIMEOUT_MS = 300"
definition EINTR :: int where "EINTR = 4"
definition EINPROGRESS :: int where "EINPROGRESS = 115"

section \<open>URIs\<close>

definition pt_bt_address_from_uri :: "string option \<Rightarrow> u8 list option option" where
  "pt_bt_address_from_uri uri =
    (case uri of None \<Rightarrow> Some None
     | Some u \<Rightarrow> if prefix_of PT_BT_PREFIX u then pt_parse_bt_address (Some (drop (length PT_BT_PREFIX) u))
                 else Some None)"

lemma address_from_uri_defined: "\<exists>r. pt_bt_address_from_uri uri = Some r"
  using bt_octets_safe [of 0]
  by (auto simp: pt_bt_address_from_uri_def pt_parse_bt_address_def split: option.split)

definition pt_bt_is_uri :: "string option \<Rightarrow> bool" where
  \<comment> \<open>the parser is defined on every string, so its outer \<open>None\<close> does not occur\<close>
  "pt_bt_is_uri uri \<longleftrightarrow> (case pt_bt_address_from_uri uri of Some (Some _) \<Rightarrow> True | _ \<Rightarrow> False)"

definition pt_bt_format_uri :: "string \<Rightarrow> nat \<Rightarrow> string" where
  "pt_bt_format_uri address sz = snprintf sz (PT_BT_PREFIX @ address)"

section \<open>Socket calls\<close>

definition call_poll :: "env \<Rightarrow> int \<Rightarrow> int \<Rightarrow> 'a world_scheme \<Rightarrow> ((int + nat) \<times> 'a world_scheme) option" where
  "call_poll E fd timeout s = (let r = fd_poll E (trace s) fd timeout in
     answer (Ev_Poll timeout (case r of Inl e \<Rightarrow> - 1 | Inr n \<Rightarrow> int n)) r s)"

definition call_recv :: "env \<Rightarrow> int \<Rightarrow> nat \<Rightarrow> 'a world_scheme \<Rightarrow> ((int + u8 list) \<times> 'a world_scheme) option" where
  "call_recv E fd bytes s = (let r = fd_recv E (trace s) fd bytes in answer (Ev_Recv bytes r) r s)"

definition call_send :: "env \<Rightarrow> int \<Rightarrow> u8 list \<Rightarrow> 'a world_scheme \<Rightarrow> ((int + nat) \<times> 'a world_scheme) option" where
  "call_send E fd buf s = (let r = fd_send E (trace s) fd buf in answer (Ev_Send buf r) r s)"

definition call_close :: "int \<Rightarrow> 'a world_scheme \<Rightarrow> (unit \<times> 'a world_scheme) option" where
  "call_close fd s = answer (Ev_Close_Fd fd) () s"

lemmas socket_defs = call_poll_def call_recv_def call_send_def call_close_def Let_def

section \<open>Connecting\<close>

definition pt_ms_left :: "env \<Rightarrow> timespec \<Rightarrow> 'a world_scheme \<Rightarrow> (int \<times> 'a world_scheme) option" where
  "pt_ms_left E deadline s = do {
     (now, s) \<leftarrow> clock_gettime E s;
     let ms = (tv_sec deadline - tv_sec now) * 1000 + cdiv (tv_nsec deadline - tv_nsec now) 1000000;
     Some (if ms > 0 then ms else 0, s)
   }"

definition bdaddr :: "u8 list \<Rightarrow> u8 list" where
  \<comment> \<open>the loop that fills the little-endian \<^verbatim>\<open>bdaddr_t\<close>\<close>
  "bdaddr address = map (\<lambda>i. address ! (5 - i)) [0..<6]"

definition finish_connect :: "env \<Rightarrow> int \<Rightarrow> 'a world_scheme \<Rightarrow> (bool \<times> 'a world_scheme) option" where
  \<comment> \<open>the connection in progress: wait for it, then ask for its error\<close>
  "finish_connect E fd s = do {
     (ready, s) \<leftarrow> call_poll E fd PT_BT_CONNECT_TIMEOUT_MS s;
     if ready \<noteq> Inr 1 then Some (False, s)
     else (let r = fd_so_error E (trace s) fd in
       answer (Ev_So_Error (case r of Inl e \<Rightarrow> - 1 | Inr e \<Rightarrow> e)) (r = Inr 0) s)
   }"

definition pt_bt_connect :: "env \<Rightarrow> u8 list \<Rightarrow> 'a world_scheme \<Rightarrow> (int \<times> 'a world_scheme) option" where
  "pt_bt_connect E address s = do {
     let fd = bt_socket E (trace s);
     (_, s) \<leftarrow> answer (Ev_Socket fd) () s;
     if fd < 0 then Some (- 1, s)
     else do {
       let r = bt_connect E (trace s) fd (bdaddr address);
       (_, s) \<leftarrow> answer (Ev_Connect (bdaddr address) (case r of Inl e \<Rightarrow> e | Inr _ \<Rightarrow> 0)) () s;
       (connected, s) \<leftarrow> (if r = Inr () then Some (True, s)
                          else if r = Inl EINPROGRESS then finish_connect E fd s
                          else Some (False, s));
       (blocking, s) \<leftarrow> (if connected
                         then (let f = fd_set_blocking E (trace s) fd in answer (Ev_Fcntl f) (f = 0) s)
                         else Some (False, s));
       if blocking then Some (fd, s)
       else do { (_, s) \<leftarrow> call_close fd s; Some (- 1, s) }
     }
   }"

definition pt_bt_open :: "env \<Rightarrow> string option \<Rightarrow> 'a world_scheme \<Rightarrow> (bool \<times> 'a world_scheme) option" where
  "pt_bt_open E uri s = do {
     a \<leftarrow> pt_bt_address_from_uri uri;
     case a of None \<Rightarrow> Some (False, s)
     | Some address \<Rightarrow> do {
         (fd, s) \<leftarrow> pt_bt_connect E address s;
         if fd < 0 then Some (False, s)
         else do {
           (ok, s) \<leftarrow> alloc E s;
           if \<not> ok then do { (_, s) \<leftarrow> call_close fd s; Some (False, s) }
           else Some (True, s\<lparr>conn := Some (Bt_Conn fd)\<rparr>)
         }
       }
   }"

definition bt_conn :: "'a world_scheme \<Rightarrow> int option option" where
  \<comment> \<open>the device data read as a \<^verbatim>\<open>pt_bt_conn\<close>: undefined when it is the other scheme's\<close>
  "bt_conn s = (case conn s of None \<Rightarrow> Some None | Some (Bt_Conn fd) \<Rightarrow> Some (Some fd) | Some (Usb_Conn _) \<Rightarrow> None)"

definition pt_bt_close :: "'a world_scheme \<Rightarrow> (unit \<times> 'a world_scheme) option" where
  "pt_bt_close s = do {
     c \<leftarrow> bt_conn s;
     case c of None \<Rightarrow> Some ((), s)
     | Some fd \<Rightarrow> do { (_, s) \<leftarrow> call_close fd s; Some ((), s\<lparr>conn := None\<rparr>) }
   }"

section \<open>Receiving and sending\<close>

partial_function (option) bt_recv_loop ::
  "env \<Rightarrow> int \<Rightarrow> timespec \<Rightarrow> nat \<Rightarrow> u8 list \<Rightarrow> 'a world_scheme \<Rightarrow> ((int \<times> u8 list) \<times> 'a world_scheme) option" where
  "bt_recv_loop E fd deadline bytes got s =
    (if length got < bytes then do {
       (left, s) \<leftarrow> pt_ms_left E deadline s;
       (ready, s) \<leftarrow> call_poll E fd left s;
       case ready of
         Inl err \<Rightarrow> if err = EINTR then bt_recv_loop E fd deadline bytes got s else Some ((- 1, got), s)
       | Inr n \<Rightarrow>
           if n = 0 then Some ((int (length got), got), s)
           else do {
             (r, s) \<leftarrow> call_recv E fd (bytes - length got) s;
             case r of
               Inl err \<Rightarrow> if err = EINTR then bt_recv_loop E fd deadline bytes got s else Some ((- 1, got), s)
             | Inr data \<Rightarrow>
                 if data = [] then Some ((- 1, got), s)
                 else if length data > bytes - length got then None
                 else bt_recv_loop E fd deadline bytes (got @ data) s
           }
     } else Some ((int (length got), got), s))"

definition pt_bt_recv ::
  "env \<Rightarrow> int \<Rightarrow> nat \<Rightarrow> int \<Rightarrow> 'a world_scheme \<Rightarrow> ((int \<times> u8 list) \<times> 'a world_scheme) option" where
  "pt_bt_recv E fd bytes timeout_ms s = do {
     (now, s) \<leftarrow> clock_gettime E s;
     let sec = tv_sec now + cdiv timeout_ms 1000;
     let nsec = tv_nsec now + (timeout_ms smod 1000) * 1000000;
     let deadline = (if nsec \<ge> 1000000000 then \<lparr>tv_sec = sec + 1, tv_nsec = nsec - 1000000000\<rparr>
                     else \<lparr>tv_sec = sec, tv_nsec = nsec\<rparr>);
     bt_recv_loop E fd deadline bytes [] s
   }"

definition pt_bt_read_status ::
  "env \<Rightarrow> bool \<Rightarrow> string option \<Rightarrow> nat \<Rightarrow> 'a world_scheme \<Rightarrow> ((int \<times> u8 list) \<times> 'a world_scheme) option" where
  "pt_bt_read_status E device uri bytes s =
    (if \<not> device \<or> \<not> pt_bt_is_uri uri then Some ((- 1, []), s)
     else do {
       c \<leftarrow> bt_conn s;
       case c of None \<Rightarrow> Some ((- 1, []), s)
       | Some fd \<Rightarrow> pt_bt_recv E fd bytes PT_BT_STATUS_TIMEOUT_MS s
     })"

partial_function (option) bt_send_loop ::
  "env \<Rightarrow> int \<Rightarrow> u8 list \<Rightarrow> nat \<Rightarrow> 'a world_scheme \<Rightarrow> (int \<times> 'a world_scheme) option" where
  "bt_send_loop E fd buf sent s =
    (if sent < length buf then do {
       (r, s) \<leftarrow> call_send E fd (drop sent buf) s;
       case r of
         Inl err \<Rightarrow> if err = EINTR then bt_send_loop E fd buf sent s else Some (- 1, s)
       | Inr n \<Rightarrow> if n = 0 then Some (- 1, s) else bt_send_loop E fd buf (sent + n) s
     } else Some (int (length buf), s))"

definition pt_bt_write :: "env \<Rightarrow> u8 list \<Rightarrow> 'a world_scheme \<Rightarrow> (int \<times> 'a world_scheme) option" where
  "pt_bt_write E buf s = do {
     c \<leftarrow> bt_conn s;
     case c of None \<Rightarrow> Some (- 1, s) | Some fd \<Rightarrow> bt_send_loop E fd buf 0 s
   }"

section \<open>Termination of the loops\<close>

definition signals_end :: "env \<Rightarrow> nat \<Rightarrow> bool" where
  \<comment> \<open>after \<open>n\<close> calls no call is interrupted any more\<close>
  "signals_end E n \<longleftrightarrow> (\<forall>h fd. n \<le> length h \<longrightarrow>
      (\<forall>t. fd_poll E h fd t \<noteq> Inl EINTR) \<and> (\<forall>k. fd_recv E h fd k \<noteq> Inl EINTR)
      \<and> (\<forall>b. fd_send E h fd b \<noteq> Inl EINTR))"

definition recv_in_bounds :: "env \<Rightarrow> bool" where
  \<comment> \<open>recv never stores more than it was asked for\<close>
  "recv_in_bounds E \<longleftrightarrow> (\<forall>h fd n data. fd_recv E h fd n = Inr data \<longrightarrow> length data \<le> n)"

fun sent_part :: "event \<Rightarrow> u8 list" where
  "sent_part (Ev_Send buf (Inr n)) = take n buf"
| "sent_part _ = []"

definition bt_sent :: "hist \<Rightarrow> u8 list" where
  "bt_sent h = concat (map sent_part (rev h))"

lemma bt_streams_Cons [simp]:
  "bt_sent (e # h) = bt_sent h @ sent_part e"
  by (simp add: bt_sent_def)

lemma ms_left_returns: "\<exists>ms. pt_ms_left E deadline s = Some (ms, note_event (Ev_Clock (clock E (trace s))) s)"
  by (simp add: pt_ms_left_def clock_gettime_def answer_def Let_def)

definition recv_post :: "nat \<Rightarrow> u8 list \<Rightarrow> 'a world_scheme \<Rightarrow> (int \<times> u8 list) \<times> 'a world_scheme \<Rightarrow> bool" where
  \<comment> \<open>what a receive guarantees when it returns, from the bytes \<open>got\<close> so far\<close>
  "recv_post bytes got s r = (case r of ((n, data), s') \<Rightarrow>
     length data \<le> bytes \<and> (n = - 1 \<or> n = int (length data)) \<and> extends read_event s s'
     \<and> (\<exists>new. data = got @ new \<and> replies (trace s') = replies (trace s) @ new))"

lemma recv_post_stop:
  "length got \<le> bytes \<Longrightarrow> extends read_event s s' \<Longrightarrow> replies (trace s') = replies (trace s)
   \<Longrightarrow> n = - 1 \<or> n = int (length got) \<Longrightarrow> recv_post bytes got s ((n, got), s')"
  by (auto simp: recv_post_def)

lemma recv_post_step:
  "recv_post bytes (got @ data) s1 r \<Longrightarrow> extends read_event s s1
   \<Longrightarrow> replies (trace s1) = replies (trace s) @ data \<Longrightarrow> recv_post bytes got s r"
  by (auto simp: recv_post_def intro: extends_trans)

lemma recv_loop_post:
  assumes ret: "bt_recv_loop E fd deadline bytes got s = Some r" and "length got \<le> bytes"
  shows "recv_post bytes got s r"
proof -
  have "length got \<le> bytes \<longrightarrow> recv_post bytes got s r"
  proof (rule bt_recv_loop.raw_induct [where
        P = "\<lambda>E fd deadline bytes got s r. length got \<le> bytes \<longrightarrow> recv_post bytes got s r", OF _ ret], intro impI)
    fix f and E :: env and fd deadline bytes got and s :: "'a world_scheme" and r
    assume IH: "\<And>E fd deadline bytes got (s :: 'a world_scheme) r. f E fd deadline bytes got s = Some r
        \<Longrightarrow> length got \<le> bytes \<longrightarrow> recv_post bytes got s r"
      and eq: "(if length got < bytes then do {
         (left, s) \<leftarrow> pt_ms_left E deadline s;
         (ready, s) \<leftarrow> call_poll E fd left s;
         case ready of
           Inl err \<Rightarrow> if err = EINTR then f E fd deadline bytes got s else Some ((- 1, got), s)
         | Inr n \<Rightarrow>
             if n = 0 then Some ((int (length got), got), s)
             else do {
               (r, s) \<leftarrow> call_recv E fd (bytes - length got) s;
               case r of
                 Inl err \<Rightarrow> if err = EINTR then f E fd deadline bytes got s else Some ((- 1, got), s)
               | Inr data \<Rightarrow>
                   if data = [] then Some ((- 1, got), s)
                   else if length data > bytes - length got then None
                   else f E fd deadline bytes (got @ data) s
             }
       } else Some ((int (length got), got), s)) = Some r"
      and len: "length got \<le> bytes"
    obtain ms where ms: "pt_ms_left E deadline s = Some (ms, note_event (Ev_Clock (clock E (trace s))) s)"
      using ms_left_returns by blast
    show "recv_post bytes got s r"
      using eq len ms
      by (auto simp: socket_defs answer_def split: if_splits sum.splits
          intro!: recv_post_stop dest!: IH elim!: recv_post_step [where data = "[]", simplified] recv_post_step)
  qed
  with assms(2) show ?thesis by simp
qed

lemma recv_loop_returns:
  assumes sig: "signals_end E N" and bounds: "recv_in_bounds E" and "length got \<le> bytes"
  shows "\<exists>r. bt_recv_loop E fd deadline bytes got s = Some r"
  using assms(3)
proof (induction "(N - length (trace s)) + (bytes - length got)" arbitrary: got s rule: less_induct)
  case less
  obtain ms where ms: "pt_ms_left E deadline s = Some (ms, note_event (Ev_Clock (clock E (trace s))) s)"
    using ms_left_returns by blast
  define s1 where "s1 = note_event (Ev_Clock (clock E (trace s))) s"
  define ready where "ready = fd_poll E (trace s1) fd ms"
  define s2 where "s2 = note_event (Ev_Poll ms (case ready of Inl e \<Rightarrow> - 1 | Inr n \<Rightarrow> int n)) s1"
  define r where "r = fd_recv E (trace s2) fd (bytes - length got)"
  define s3 where "s3 = note_event (Ev_Recv (bytes - length got) r) s2"
  have len: "length (trace s2) = length (trace s) + 2" "length (trace s3) = length (trace s) + 3"
    by (simp_all add: s3_def s2_def s1_def)
  have early: "length (trace s) < N" if "ready = Inl EINTR \<or> r = Inl EINTR"
  proof (rule ccontr)
    assume "\<not> length (trace s) < N"
    then have "N \<le> length (trace s1)" "N \<le> length (trace s2)" by (simp_all add: s1_def s2_def)
    with sig that show False unfolding ready_def r_def signals_end_def by blast
  qed
  have again: "\<exists>r. bt_recv_loop E fd deadline bytes got s' = Some r"
    if "length (trace s) < N" "length (trace s) < length (trace s')" for s' :: "'a world_scheme"
    using less.hyps [of s' got] less.prems that by simp
  have more: "\<exists>r. bt_recv_loop E fd deadline bytes (got @ data) s3 = Some r"
    if "data \<noteq> []" "length data \<le> bytes - length got" "length got < bytes" for data
    using less.hyps [of s3 "got @ data"] that len by (cases data) auto
  have fits: "length data \<le> bytes - length got" if "r = Inr data" for data
    using bounds that unfolding r_def recv_in_bounds_def by blast
  have unfold: "bt_recv_loop E fd deadline bytes got s =
      (if length got < bytes then
         (case ready of
            Inl err \<Rightarrow> if err = EINTR then bt_recv_loop E fd deadline bytes got s2 else Some ((- 1, got), s2)
          | Inr n \<Rightarrow> if n = 0 then Some ((int (length got), got), s2)
              else (case r of
                 Inl err \<Rightarrow> if err = EINTR then bt_recv_loop E fd deadline bytes got s3 else Some ((- 1, got), s3)
               | Inr data \<Rightarrow> if data = [] then Some ((- 1, got), s3)
                   else if length data > bytes - length got then None
                   else bt_recv_loop E fd deadline bytes (got @ data) s3))
       else Some ((int (length got), got), s))"
    by (subst bt_recv_loop.simps) (auto simp: ms socket_defs answer_def s3_def r_def s2_def ready_def s1_def split: sum.split)
  have r3: ?case if "length got < bytes" "ready = Inr n" "n \<noteq> 0" for n
  proof (cases r)
    case (Inl err)
    then show ?thesis using that unfold again [of s3] early len by auto
  next
    case (Inr data)
    then show ?thesis using that unfold more [of data] fits [of data] by auto
  qed
  show ?case
  proof (cases "length got < bytes")
    case True
    show ?thesis
    proof (cases ready)
      case (Inl err)
      then show ?thesis using True unfold again [of s2] early len by auto
    next
      case (Inr n)
      then show ?thesis using True unfold r3 by (cases "n = 0") auto
    qed
  qed (simp add: unfold)
qed

lemma bt_recv_returns:
  assumes "signals_end E N" "recv_in_bounds E"
  shows "\<exists>n data s'. pt_bt_recv E fd bytes timeout s = Some ((n, data), s')
    \<and> extends read_event s s' \<and> length data \<le> bytes \<and> (n = - 1 \<or> n = int (length data))
    \<and> replies (trace s') = replies (trace s) @ data"
proof -
  obtain deadline where d: "pt_bt_recv E fd bytes timeout s
      = bt_recv_loop E fd deadline bytes [] (note_event (Ev_Clock (clock E (trace s))) s)"
    by (simp add: pt_bt_recv_def clock_gettime_def answer_def Let_def)
  have "\<exists>r. bt_recv_loop E fd deadline bytes [] (note_event (Ev_Clock (clock E (trace s))) s) = Some r"
    by (rule recv_loop_returns [OF assms]) simp
  then obtain r where r: "bt_recv_loop E fd deadline bytes [] (note_event (Ev_Clock (clock E (trace s))) s) = Some r" ..
  show ?thesis
    using recv_loop_post [OF r] extends_trans [of read_event s "note_event (Ev_Clock (clock E (trace s))) s"]
    unfolding d r by (cases r) (auto simp: recv_post_def)
qed

lemma send_loop_prefix:
  assumes sig: "signals_end E N" and "sent \<le> length buf"
  shows "\<exists>n s' k. bt_send_loop E fd buf sent s = Some (n, s') \<and> conn s' = conn s
     \<and> bt_sent (trace s') = bt_sent (trace s) @ take k (drop sent buf)
     \<and> (n = int (length buf) \<and> length buf \<le> sent + k \<or> n = - 1)"
  using assms(2)
proof (induction "(N - length (trace s)) + (length buf - sent)" arbitrary: sent s rule: less_induct)
  case less
  define r where "r = fd_send E (trace s) fd (drop sent buf)"
  define s1 where "s1 = note_event (Ev_Send (drop sent buf) r) s"
  have len: "length (trace s1) = length (trace s) + 1" by (simp add: s1_def)
  have unfold: "bt_send_loop E fd buf sent s =
      (if sent < length buf then
         (case r of Inl err \<Rightarrow> if err = EINTR then bt_send_loop E fd buf sent s1 else Some (- 1, s1)
          | Inr n \<Rightarrow> if n = 0 then Some (- 1, s1) else bt_send_loop E fd buf (sent + n) s1)
       else Some (int (length buf), s))"
    by (subst bt_send_loop.simps) (simp add: socket_defs answer_def flip: r_def s1_def)
  show ?case
  proof (cases "sent < length buf")
    case open_end: True
    show ?thesis
    proof (cases r)
      case (Inl err)
      show ?thesis
      proof (cases "err = EINTR")
        case True
        then have "length (trace s) < N"
          using sig Inl unfolding r_def signals_end_def by (metis not_less)
        then show ?thesis
          using less.hyps [of s1 sent] less.prems len unfold open_end Inl True
          by (simp add: s1_def)
      qed (use unfold open_end Inl in \<open>simp add: s1_def exI [of _ "0::nat"]\<close>)
    next
      case (Inr n)
      show ?thesis
      proof (cases "n = 0")
        case nz: False
        show ?thesis
        proof (cases "sent + n \<le> length buf")
          case True
          have smaller: "(N - length (trace s1)) + (length buf - (sent + n)) < (N - length (trace s)) + (length buf - sent)"
            using len nz open_end True by linarith
          obtain m s' k where ih: "bt_send_loop E fd buf (sent + n) s1 = Some (m, s')" "conn s' = conn s1"
            "bt_sent (trace s') = bt_sent (trace s1) @ take k (drop (sent + n) buf)"
            "m = int (length buf) \<and> length buf \<le> sent + n + k \<or> m = - 1"
            using less.hyps [OF smaller True] by blast
          have "take n (drop sent buf) @ take k (drop (sent + n) buf) = take (n + k) (drop sent buf)"
            by (metis take_add drop_drop add.commute)
          with ih show ?thesis
            using unfold open_end Inr nz by (auto simp: s1_def intro!: exI [of _ "n + k"])
        next
          case False
          then have "bt_send_loop E fd buf (sent + n) s1 = Some (int (length buf), s1)"
            by (subst bt_send_loop.simps) simp
          with False show ?thesis
            using unfold open_end Inr nz by (auto simp: s1_def intro!: exI [of _ n])
        qed
      qed (use unfold open_end Inr in \<open>simp add: s1_def exI [of _ "0::nat"]\<close>)
    qed
  qed (use unfold less.prems in \<open>simp add: exI [of _ "0::nat"]\<close>)
qed

section \<open>Properties\<close>

fun fd_entry :: "event \<Rightarrow> int \<Rightarrow> int" where
  "fd_entry (Ev_Socket fd) x = (if fd = x \<and> 0 \<le> fd then 1 else 0)"
| "fd_entry (Ev_Close_Fd fd) x = (if fd = x then - 1 else 0)"
| "fd_entry _ x = 0"

definition fds_open :: "hist \<Rightarrow> int \<Rightarrow> int" where
  \<comment> \<open>how often the descriptor was opened and not closed\<close>
  "fds_open h x = sum_list (map (\<lambda>e. fd_entry e x) h)"

lemma fds_open_Cons [simp]: "fds_open (e # h) x = fd_entry e x + fds_open h x"
  by (simp add: fds_open_def)

lemma bt_connect_fds:
  "returns (pt_bt_connect E address s) (\<lambda>fd s'. conn s' = conn s \<and> - 1 \<le> fd \<and>
     (\<forall>x. fds_open (trace s') x = fds_open (trace s) x + (if 0 \<le> fd \<and> x = fd then 1 else 0)))"
  by (auto simp: pt_bt_connect_def finish_connect_def socket_defs answer_def)

text \<open>C37. Receiving a Bluetooth reply is bounded and honest: it returns once signals stop
  interrupting, it stores at most the requested bytes, its result is \<open>-1\<close> or the number of bytes
  stored, and these are exactly the bytes the socket delivered meanwhile, in order.\<close>

theorem bt_recv_bounded:
  assumes "signals_end E N" "recv_in_bounds E"
  shows "\<exists>n data s'. pt_bt_recv E fd bytes timeout s = Some ((n, data), s')
    \<and> length data \<le> bytes \<and> (n = - 1 \<or> n = int (length data))
    \<and> replies (trace s') = replies (trace s) @ data"
  using bt_recv_returns [OF assms] by blast

theorem bt_recv_bounded_witness:
  "\<exists>n data s'. pt_bt_recv bench 3 32 300 \<lparr>trace = [], conn = None\<rparr> = Some ((n, data), s')
    \<and> length data \<le> 32"
proof -
  have "signals_end bench 0" "recv_in_bounds bench"
    by (simp_all add: signals_end_def recv_in_bounds_def)
  from bt_recv_bounded [OF this, of 3 32 300 "\<lparr>trace = [], conn = None\<rparr>"] show ?thesis by blast
qed

text \<open>C39. A Bluetooth write reports all or failure: once signals stop interrupting it returns,
  the socket has taken a prefix of the buffer, in order and without repetition, and the whole buffer
  when the reported value is its length.\<close>

theorem bt_write_full_or_error:
  assumes "signals_end E N" "bt_conn s = Some (Some fd)"
  shows "\<exists>n s' k. pt_bt_write E buf s = Some (n, s')
     \<and> bt_sent (trace s') = bt_sent (trace s) @ take k buf
     \<and> (n = int (length buf) \<and> length buf \<le> k \<or> n = - 1)"
  using send_loop_prefix [OF assms(1), of 0 buf fd s] assms(2) by (auto simp: pt_bt_write_def)

theorem bt_write_full_or_error_witness:
  "\<exists>n s' k. pt_bt_write bench [1, 2] \<lparr>trace = [], conn = Some (Bt_Conn 3)\<rparr> = Some (n, s')
     \<and> bt_sent (trace s') = bt_sent [] @ take k [1, 2]"
proof -
  have "signals_end bench 0" by (simp add: signals_end_def)
  from bt_write_full_or_error [OF this, of "\<lparr>trace = [], conn = Some (Bt_Conn 3)\<rparr>" 3 "[1, 2]"]
  show ?thesis by (auto simp: bt_conn_def)
qed

text \<open>C40. Opening the Bluetooth device leaks no descriptor: it always returns; when it fails
  at any stage the descriptors open are those open before and the device data is unchanged, and
  when it succeeds exactly the stored descriptor is open in addition. Closing gives it back.\<close>

theorem bt_open_no_leak:
  "returns (pt_bt_open E uri s) (\<lambda>ok s'.
     if ok then (\<exists>fd. conn s' = Some (Bt_Conn fd) \<and> (\<forall>x. fds_open (trace s') x = fds_open (trace s) x + (if x = fd then 1 else 0))
                  \<and> returns (pt_bt_close s') (\<lambda>_ s''. fds_open (trace s'') = fds_open (trace s) \<and> conn s'' = None))
     else conn s' = conn s \<and> fds_open (trace s') = fds_open (trace s))"
proof -
  obtain a where a: "pt_bt_address_from_uri uri = Some a" using address_from_uri_defined by blast
  show ?thesis
  proof (cases a)
    case (Some address)
    obtain fd s1 where c: "pt_bt_connect E address s = Some (fd, s1)" "conn s1 = conn s" "- 1 \<le> fd"
      "\<And>x. fds_open (trace s1) x = fds_open (trace s) x + (if 0 \<le> fd \<and> x = fd then 1 else 0)"
      using bt_connect_fds [of E address s] by (auto simp: returns_iff)
    show ?thesis
      using a Some c by (auto simp: pt_bt_open_def alloc_def pt_bt_close_def bt_conn_def socket_defs answer_def fun_eq_iff)
  qed (use a in \<open>simp add: pt_bt_open_def\<close>)
qed

end
