(* ===== verification/Cutter.thy ===== *)
theory Cutter
  imports Prelude
begin

text \<open>
  \<^verbatim>\<open>src/cutter.c\<close>, \<^verbatim>\<open>src/cutter.h\<close>: the four finishing modes and the cut policy they stand for.
\<close>

datatype pt_cut_mode = PT_CUT_EACH | PT_CUT_END | PT_CUT_NONE | PT_CUT_CHAIN

record pt_cut_policy =
  cut_between :: bool
  cut_at_end :: bool

definition pt_cut_policy_for :: "pt_cut_mode \<Rightarrow> pt_cut_policy" where
  "pt_cut_policy_for mode =
    \<lparr>cut_between = (mode = PT_CUT_CHAIN \<or> mode = PT_CUT_EACH),
     cut_at_end = (mode = PT_CUT_EACH \<or> mode = PT_CUT_END)\<rparr>"

definition pt_cut_autocut :: "pt_cut_policy \<Rightarrow> bool \<Rightarrow> bool" where
  "pt_cut_autocut policy first_label \<longleftrightarrow> first_label \<or> cut_between policy"

lemma policy_for_simps [simp]:
  "cut_between (pt_cut_policy_for m) \<longleftrightarrow> m = PT_CUT_CHAIN \<or> m = PT_CUT_EACH"
  "cut_at_end (pt_cut_policy_for m) \<longleftrightarrow> m = PT_CUT_EACH \<or> m = PT_CUT_END"
  by (simp_all add: pt_cut_policy_for_def)

lemma autocut_simps [simp]:
  "pt_cut_autocut p True"
  "pt_cut_autocut p False \<longleftrightarrow> cut_between p"
  by (simp_all add: pt_cut_autocut_def)

lemma policy_for_inj: "pt_cut_policy_for m = pt_cut_policy_for m' \<longleftrightarrow> m = m'"
  by (cases m; cases m') (simp_all add: pt_cut_policy_for_def)

lemma policy_for_surj: "\<exists>m. pt_cut_policy_for m = p"
proof -
  have "p = pt_cut_policy_for
      (if cut_between p then (if cut_at_end p then PT_CUT_EACH else PT_CUT_CHAIN)
       else (if cut_at_end p then PT_CUT_END else PT_CUT_NONE))"
    by (cases p) (auto simp: pt_cut_policy_for_def)
  then show ?thesis by metis
qed

end
