(* ===== verification/Driver_State.thy ===== *)
theory Driver_State
  imports Device_USB Device_BT Cutter
begin

text \<open>
  \<^verbatim>\<open>src/driver.c\<close>, the state the driver keeps: the printer state behind the driver data's extension
  pointer, the batch behind the job's data pointer, and the accessors of the run state. The locale
  \<open>run_guard\<close> states the discipline of the run state that the raster callbacks, the cut operation and
  the status callback share.
\<close>

datatype pt_run = PT_RUN_CLOSED | PT_RUN_OPEN | PT_RUN_OPEN_BLANK | PT_RUN_UNCERTAIN

record pt_printer_state =
  ps_model :: pt_dev
  ps_run :: pt_run
  ps_media_confirmed :: bool
  ps_idle_poll_seconds :: int
  ps_idle_polled :: bool
  ps_last_idle_poll :: timespec

record pt_batch =
  b_policy :: pt_cut_policy
  b_tape_mm :: u8
  b_first_label :: bool
  b_page_active :: bool
  b_pending :: bool
  b_failed :: bool
  b_page :: "(nat \<Rightarrow> u8 list) option"
    \<comment> \<open>the staged page: its 16-byte rows; \<open>None\<close> is the null pointer\<close>

record sys = world +
  printer :: "pt_printer_state option" \<comment> \<open>\<^verbatim>\<open>data.extension\<close>\<close>
  batch :: "pt_batch option" \<comment> \<open>\<^verbatim>\<open>papplJobGetData\<close>\<close>

section \<open>Accessors\<close>

definition pt_run_get :: "sys \<Rightarrow> pt_run" where
  "pt_run_get s = (case printer s of None \<Rightarrow> PT_RUN_UNCERTAIN | Some st \<Rightarrow> ps_run st)"

definition pt_run_set :: "pt_run \<Rightarrow> sys \<Rightarrow> sys" where
  "pt_run_set r s = s\<lparr>printer := map_option (\<lambda>st. st\<lparr>ps_run := r\<rparr>) (printer s)\<rparr>"

definition pt_chain_get :: "sys \<Rightarrow> bool" where
  "pt_chain_get s = (let r = pt_run_get s in r = PT_RUN_OPEN \<or> r = PT_RUN_OPEN_BLANK)"

definition pt_chain_set :: "bool \<Rightarrow> sys \<Rightarrow> sys" where
  "pt_chain_set is_open s = s\<lparr>printer := map_option (\<lambda>st.
     if ps_run st \<noteq> PT_RUN_UNCERTAIN
     then st\<lparr>ps_run := (if is_open then PT_RUN_OPEN else PT_RUN_CLOSED)\<rparr> else st) (printer s)\<rparr>"

definition pt_set_media_confirmed :: "bool \<Rightarrow> sys \<Rightarrow> sys" where
  "pt_set_media_confirmed c s = s\<lparr>printer := map_option (\<lambda>st. st\<lparr>ps_media_confirmed := c\<rparr>) (printer s)\<rparr>"

definition pt_delete_cb :: "sys \<Rightarrow> sys" where
  "pt_delete_cb s = s\<lparr>printer := None\<rparr>"

definition PT_P710BT_PID :: u16 where "PT_P710BT_PID = 0x20af"

definition upd_batch :: "(pt_batch \<Rightarrow> pt_batch) \<Rightarrow> sys \<Rightarrow> sys" where
  \<comment> \<open>assignments to members of \<^verbatim>\<open>*batch\<close>\<close>
  "upd_batch f s = s\<lparr>batch := map_option f (batch s)\<rparr>"

definition pt_fail_job :: "sys \<Rightarrow> sys" where
  \<comment> \<open>the callbacks return its result, false\<close>
  "pt_fail_job s = upd_batch (\<lambda>b. b\<lparr>b_failed := True\<rparr>) s"

section \<open>Frame facts\<close>

lemma note_event_sys [simp]:
  "printer (note_event e s) = printer s"
  "batch (note_event e s) = batch s"
  by (simp_all add: note_event_def)

lemma state_simps [simp]:
  "trace (pt_run_set r s) = trace s" "conn (pt_run_set r s) = conn s" "batch (pt_run_set r s) = batch s"
  "trace (pt_chain_set c s) = trace s" "conn (pt_chain_set c s) = conn s" "batch (pt_chain_set c s) = batch s"
  "trace (pt_set_media_confirmed m s) = trace s" "conn (pt_set_media_confirmed m s) = conn s"
  "batch (pt_set_media_confirmed m s) = batch s"
  "trace (upd_batch f s) = trace s" "conn (upd_batch f s) = conn s" "printer (upd_batch f s) = printer s"
  "batch (upd_batch f s) = map_option f (batch s)"
  by (simp_all add: pt_run_set_def pt_chain_set_def pt_set_media_confirmed_def upd_batch_def)

lemma fail_job_simps [simp]:
  "trace (pt_fail_job s) = trace s" "conn (pt_fail_job s) = conn s" "printer (pt_fail_job s) = printer s"
  "batch (pt_fail_job s) = map_option (\<lambda>b. b\<lparr>b_failed := True\<rparr>) (batch s)"
  by (simp_all add: pt_fail_job_def)

definition has_state :: "sys \<Rightarrow> bool" where
  "has_state s \<longleftrightarrow> printer s \<noteq> None"

definition model_of :: "sys \<Rightarrow> pt_dev option" where
  "model_of s = map_option ps_model (printer s)"

lemma model_simps [simp]:
  "model_of (pt_run_set r s) = model_of s" "model_of (pt_chain_set c s) = model_of s"
  "model_of (pt_set_media_confirmed m s) = model_of s" "model_of (upd_batch f s) = model_of s"
  "model_of (pt_fail_job s) = model_of s" "model_of (note_event e s) = model_of s"
  by (simp_all add: model_of_def pt_run_set_def pt_chain_set_def pt_set_media_confirmed_def
      option.map_comp comp_def upd_batch_def cong: option.map_cong)
    (cases "printer s"; simp)

lemma has_state_model: "has_state s \<longleftrightarrow> model_of s \<noteq> None"
  by (simp add: has_state_def model_of_def)

lemma run_get_simps [simp]:
  "pt_run_get (note_event e s) = pt_run_get s"
  "pt_run_get (upd_batch f s) = pt_run_get s"
  "pt_run_get (pt_fail_job s) = pt_run_get s"
  "pt_run_get (pt_set_media_confirmed m s) = pt_run_get s"
  by (simp_all add: pt_run_get_def pt_set_media_confirmed_def option.case_eq_if option.map_sel
      split: option.split)

lemma run_get_set: "has_state s \<Longrightarrow> pt_run_get (pt_run_set r s) = r"
  by (auto simp: pt_run_get_def pt_run_set_def has_state_def)

lemma run_get_none: "\<not> has_state s \<Longrightarrow> pt_run_get s = PT_RUN_UNCERTAIN"
  by (simp add: has_state_def pt_run_get_def)

lemma run_get_chain: "pt_run_get (pt_chain_set c s) =
   (if pt_run_get s = PT_RUN_UNCERTAIN then PT_RUN_UNCERTAIN else if c then PT_RUN_OPEN else PT_RUN_CLOSED)"
  by (auto simp: pt_run_get_def pt_chain_set_def split: option.splits)

lemma run_set_uncertain [simp]: "pt_run_get (pt_run_set PT_RUN_UNCERTAIN s) = PT_RUN_UNCERTAIN"
  using run_get_set run_get_none by (cases "has_state s") (auto simp: pt_run_set_def has_state_def)

lemma has_state_simps [simp]:
  "has_state (pt_run_set r s) = has_state s" "has_state (pt_chain_set c s) = has_state s"
  "has_state (pt_set_media_confirmed m s) = has_state s" "has_state (upd_batch f s) = has_state s"
  "has_state (pt_fail_job s) = has_state s" "has_state (note_event e s) = has_state s"
  by (simp_all add: has_state_model)

section \<open>The discipline of the run state\<close>

text \<open>
  Two threads write the run state: the job thread decides it (\<open>put\<close>), the status thread only
  observes a cassette (\<open>observe\<close>), in any order of their critical sections.
\<close>

datatype run_action = Decide pt_run | Observe bool

locale run_guard =
  fixes get :: "'s \<Rightarrow> pt_run"
    and put :: "pt_run \<Rightarrow> 's \<Rightarrow> 's"
    and observe :: "bool \<Rightarrow> 's \<Rightarrow> 's"
    and live :: "'s \<Rightarrow> bool"
  assumes get_put: "live s \<Longrightarrow> get (put r s) = r"
    and get_dead: "\<not> live s \<Longrightarrow> get s = PT_RUN_UNCERTAIN"
    and get_observe: "get (observe c s) =
      (if get s = PT_RUN_UNCERTAIN then PT_RUN_UNCERTAIN else if c then PT_RUN_OPEN else PT_RUN_CLOSED)"
    and live_put: "live (put r s) = live s"
    and live_observe: "live (observe c s) = live s"
begin

lemma observations_keep_uncertain:
  "get (fold observe cs s) = PT_RUN_UNCERTAIN \<longleftrightarrow> get s = PT_RUN_UNCERTAIN"
  by (induction cs arbitrary: s) (auto simp: get_observe)

lemma uncertain_until_decided:
  "get (fold observe cs (put PT_RUN_UNCERTAIN s)) = PT_RUN_UNCERTAIN"
proof -
  have "get (put PT_RUN_UNCERTAIN s) = PT_RUN_UNCERTAIN"
    using get_put get_dead live_put by blast
  then show ?thesis by (simp add: observations_keep_uncertain)
qed

lemma dead_stays_uncertain: "\<not> live s \<Longrightarrow> get (fold observe cs s) = PT_RUN_UNCERTAIN"
  using observations_keep_uncertain get_dead by blast

end

fun apply_action :: "run_action \<Rightarrow> sys \<Rightarrow> sys" where
  "apply_action (Decide r) s = pt_run_set r s"
| "apply_action (Observe c) s = pt_chain_set c s"

interpretation rg: run_guard pt_run_get pt_run_set pt_chain_set has_state
  by unfold_locales (simp_all add: run_get_set run_get_none run_get_chain)

fun is_observation :: "run_action \<Rightarrow> bool" where
  "is_observation (Observe c) = True"
| "is_observation (Decide r) = False"

lemma observations_fold:
  "list_all is_observation as \<Longrightarrow> \<exists>cs. fold apply_action as = fold pt_chain_set cs"
proof (induction as)
  case Nil
  then show ?case by (metis fold_simps(1) ext)
next
  case (Cons a as)
  then obtain c cs where "a = Observe c" "fold apply_action as = fold pt_chain_set cs"
    by (cases a) auto
  then have "fold apply_action (a # as) = fold pt_chain_set (c # cs)"
    by (auto simp: fun_eq_iff)
  then show ?case by blast
qed

section \<open>Properties\<close>

text \<open>Uncertain output latches: once the job thread has marked the run uncertain, no
  interleaving of observations by the status thread (cassette seen, cassette gone, in any number
  and order) makes it healthy again; only a later decision of the job thread can.\<close>

theorem uncertain_latches:
  assumes "list_all is_observation as"
  shows "pt_run_get (fold apply_action as (pt_run_set PT_RUN_UNCERTAIN s)) = PT_RUN_UNCERTAIN"
  using observations_fold [OF assms] rg.uncertain_until_decided by metis

definition idle_state :: "pt_run \<Rightarrow> pt_printer_state" where
  "idle_state r = \<lparr>ps_model = pt_p710bt, ps_run = r, ps_media_confirmed = False,
     ps_idle_poll_seconds = - 1, ps_idle_polled = False, ps_last_idle_poll = \<lparr>tv_sec = 0, tv_nsec = 0\<rparr>\<rparr>"

definition bench_sys :: sys where
  "bench_sys = \<lparr>trace = [], conn = Some (Usb_Conn bench_conn), printer = Some (idle_state PT_RUN_CLOSED),
     batch = None\<rparr>"

theorem uncertain_latches_witness:
  "pt_run_get (fold apply_action [Observe True, Observe False] (pt_run_set PT_RUN_UNCERTAIN bench_sys))
     = PT_RUN_UNCERTAIN"
  by (rule uncertain_latches) simp

end
