(* ===== verification/Effects.thy ===== *)
theory Effects
  imports Driver_State
begin

text \<open>
  What the printer has been told. The properties of the job callbacks speak of the buffers passed to
  the device and of the parts of the driver's state a step leaves alone; the relations here carry
  both through the proofs.
\<close>

section \<open>The written buffers\<close>

fun written :: "event \<Rightarrow> u8 list list" where
  "written (Ev_Write buf n) = [buf]"
| "written _ = []"

definition writes :: "hist \<Rightarrow> u8 list list" where
  \<comment> \<open>all buffers given to \<^verbatim>\<open>papplDeviceWrite\<close>, oldest first\<close>
  "writes h = concat (map written (rev h))"

definition outputs :: "hist \<Rightarrow> u8 list list" where
  \<comment> \<open>print output: everything but status requests, which the printer answers without acting\<close>
  "outputs h = filter (\<lambda>b. b \<noteq> pt_cmd_status_request) (writes h)"

fun sleeps :: "event \<Rightarrow> bool" where
  "sleeps (Ev_Sleep t) = True"
| "sleeps _ = False"

lemma writes_simps [simp]:
  "writes [] = []" "writes (e # h) = writes h @ written e" "writes (h' @ h) = writes h @ writes h'"
  by (simp_all add: writes_def)

lemma outputs_simps [simp]:
  "outputs [] = []"
  "outputs (e # h) = outputs h @ filter (\<lambda>b. b \<noteq> pt_cmd_status_request) (written e)"
  "outputs (h' @ h) = outputs h @ outputs h'"
  by (simp_all add: outputs_def)

lemma read_event_silent: "read_event e \<Longrightarrow> written e = []"
  by (cases e) simp_all

lemma read_event_awake: "read_event e \<Longrightarrow> \<not> sleeps e"
  by (cases e) simp_all

lemma read_events_silent [simp]: "list_all read_event new \<Longrightarrow> writes new = [] \<and> outputs new = []"
  by (induction new) (simp_all add: read_event_silent)

section \<open>Frames\<close>

fun png_event :: "event \<Rightarrow> bool" where
  "png_event (Ev_Acquire r ok) = True"
| "png_event (Ev_Release r) = True"
| "png_event (Ev_Png c ok) = True"
| "png_event _ = False"

definition no_output :: "event \<Rightarrow> bool" where
  \<comment> \<open>no print output, and nothing of the PNG filter\<close>
  "no_output e \<longleftrightarrow> filter (\<lambda>b. b \<noteq> pt_cmd_status_request) (written e) = [] \<and> \<not> png_event e"

lemma no_output_simps [simp]:
  "no_output (Ev_Job_Canceled c)" "no_output (Ev_Job_State i)" "no_output (Ev_Job_Message m)"
  "no_output (Ev_Job_Reasons x y)" "no_output (Ev_Printer_State i)" "no_output (Ev_Printer_Reasons p q)"
  "no_output (Ev_Ready_Media md ok)" "no_output (Ev_Open_Device ok)" "no_output Ev_Close_Device"
  "no_output (Ev_Metrics u)" "no_output (Ev_Write pt_cmd_status_request n)" "no_output Ev_Flush"
  "no_output (Ev_Clock t)" "no_output (Ev_Sleep t)" "no_output (Ev_Alloc ok)"
  "no_output (Ev_Unsupported a)" "no_output (Ev_Respond st txt)" "no_output (Ev_Authorized ok)"
  "no_output (Ev_Usb_Init rc)" "no_output (Ev_Usb_Exit ctx)" "no_output (Ev_Usb_List l)" "no_output Ev_Usb_Free_List"
  by (simp_all add: no_output_def)

text \<open>
  A held run ends without output only when a report of the cassette closes it. Such a report is
  visible in the history: the printer is told that it has no cassette, or ready media are accepted whose
  width is not the one published before.
\<close>

fun closing :: "env \<Rightarrow> event \<Rightarrow> hist \<Rightarrow> bool" where
  \<comment> \<open>the event, on this history, reports that the held cassette is gone\<close>
  "closing E (Ev_Printer_Reasons add rm) h = (REASON_MEDIA_EMPTY \<in> add)"
| "closing E (Ev_Ready_Media m ok) h = (ok \<and> size_width m \<noteq> ready_width E h)"
| "closing E _ h = False"

fun closings :: "env \<Rightarrow> hist \<Rightarrow> nat" where
  \<comment> \<open>the number of such reports\<close>
  "closings E [] = 0"
| "closings E (e # h) = (if closing E e h then Suc (closings E h) else closings E h)"

lemma closings_mono: "closings E h \<le> closings E (new @ h)"
  by (induction new) auto

fun calm :: "event \<Rightarrow> bool" where
  "calm (Ev_Printer_Reasons add rm) = (REASON_MEDIA_EMPTY \<notin> add)"
| "calm (Ev_Ready_Media m ok) = (\<not> ok)"
| "calm _ = True"

lemma calm_closing: "calm e \<Longrightarrow> \<not> closing E e h"
  by (cases e) auto

lemma calm_closings: "list_all calm new \<Longrightarrow> closings E (new @ h) = closings E h"
  by (induction new) (auto simp: calm_closing)

lemma sleeps_quiet: "sleeps e \<Longrightarrow> no_output e \<and> calm e"
  by (cases e) simp_all

lemma read_event_quiet: "read_event e \<Longrightarrow> no_output e \<and> calm e"
  by (cases e) (simp_all add: no_output_def)

definition silent :: "'a world_scheme \<Rightarrow> 'a world_scheme \<Rightarrow> bool" where
  \<comment> \<open>calls happened, none of them print output or report a lost cassette, and nothing else changed\<close>
  "silent s s' \<longleftrightarrow> extends (\<lambda>e. no_output e \<and> calm e) s s'"

lemma silent_refl [simp]: "silent s s"
  by (simp add: silent_def)

lemma silent_note [simp]: "silent s s' \<Longrightarrow> no_output e \<Longrightarrow> calm e \<Longrightarrow> silent s (note_event e s')"
  by (simp add: silent_def)

lemma silent_trans: "silent s s' \<Longrightarrow> silent s' s'' \<Longrightarrow> silent s s''"
  by (auto simp: silent_def intro: extends_trans)

lemma read_only_silent: "extends read_event s s' \<Longrightarrow> silent s s'"
  by (auto simp: silent_def intro: extends_mono dest: read_event_quiet)

lemma no_outputs: "list_all no_output new \<Longrightarrow> outputs new = []"
  by (induction new) (simp_all add: no_output_def)

lemma list_all_both: "list_all (\<lambda>x. P x \<and> Q x) xs \<longleftrightarrow> list_all P xs \<and> list_all Q xs"
  by (induction xs) auto

lemma silent_outputs: "silent s s' \<Longrightarrow> outputs (trace s') = outputs (trace s)"
  by (auto simp: silent_def extends_def no_outputs list_all_both)

lemma silent_closings: "silent s s' \<Longrightarrow> closings E (trace s') = closings E (trace s)"
  by (auto simp: silent_def extends_def calm_closings list_all_both)

lemma more_sys:
  fixes s s' :: sys
  assumes "world.more s' = world.more s"
  shows "printer s' = printer s" "batch s' = batch s"
  using assms by (cases s; cases s'; simp)+

lemma silent_sys:
  fixes s s' :: sys
  assumes "silent s s'"
  shows "printer s' = printer s" "batch s' = batch s" "conn s' = conn s"
    "pt_run_get s' = pt_run_get s" "model_of s' = model_of s" "has_state s' = has_state s"
    "outputs (trace s') = outputs (trace s)"
  using assms more_sys [of s' s] silent_outputs [OF assms]
  by (simp_all add: silent_def extends_def pt_run_get_def model_of_def has_state_def)

text \<open>
  A tape observation may in addition record the cassette: it confirms or revokes the media and may
  close a healthy run.
\<close>

definition run_observed :: "pt_run \<Rightarrow> pt_run \<Rightarrow> bool" where
  "run_observed r r' \<longleftrightarrow> r' = r \<or> (r \<noteq> PT_RUN_UNCERTAIN \<and> r' = PT_RUN_CLOSED)"

text \<open>
  Observing can only lower what is claimed of the run: a healthy run may turn out closed, an uncertain
  one stays. This is a partial order on the run states.
\<close>

instantiation pt_run :: order
begin

definition less_eq_pt_run :: "pt_run \<Rightarrow> pt_run \<Rightarrow> bool" where
  "r' \<le> r \<longleftrightarrow> run_observed r r'"

definition less_pt_run :: "pt_run \<Rightarrow> pt_run \<Rightarrow> bool" where
  "r' < r \<longleftrightarrow> r' \<le> r \<and> r' \<noteq> (r :: pt_run)"

instance
  by standard (auto simp: less_eq_pt_run_def less_pt_run_def run_observed_def)

end

lemma run_le [simp]:
  "PT_RUN_CLOSED \<le> r \<longleftrightarrow> r \<noteq> PT_RUN_UNCERTAIN" "PT_RUN_OPEN \<le> r \<longleftrightarrow> r = PT_RUN_OPEN"
  "PT_RUN_OPEN_BLANK \<le> r \<longleftrightarrow> r = PT_RUN_OPEN_BLANK" "PT_RUN_UNCERTAIN \<le> r \<longleftrightarrow> r = PT_RUN_UNCERTAIN"
  "r \<le> PT_RUN_UNCERTAIN \<longleftrightarrow> r = PT_RUN_UNCERTAIN" "r \<le> PT_RUN_CLOSED \<longleftrightarrow> r = PT_RUN_CLOSED"
  by (auto simp: less_eq_pt_run_def run_observed_def)

definition observes :: "sys \<Rightarrow> sys \<Rightarrow> bool" where
  "observes s s' \<longleftrightarrow> conn s' = conn s \<and> batch s' = batch s \<and> model_of s' = model_of s
     \<and> outputs (trace s') = outputs (trace s) \<and> length (trace s) \<le> length (trace s')
     \<and> run_observed (pt_run_get s) (pt_run_get s') \<and> (\<exists>new. trace s' = new @ trace s \<and> list_all no_output new)"

lemma observes_refl [simp]: "observes s s"
  by (simp add: observes_def run_observed_def)

lemma observes_trans: "observes s s' \<Longrightarrow> observes s' s'' \<Longrightarrow> observes s s''"
  by (auto simp: observes_def less_eq_pt_run_def [symmetric] dest: order_trans)

lemma observes_run: "observes s s' \<Longrightarrow> pt_run_get s' \<le> pt_run_get s"
  by (simp add: observes_def less_eq_pt_run_def)

lemma silent_observes: "silent s s' \<Longrightarrow> observes s s'"
  by (simp add: observes_def silent_sys run_observed_def) (auto simp: silent_def extends_def list_all_both)

lemma observes_silent: "observes s s' \<Longrightarrow> silent s' s'' \<Longrightarrow> observes s s''"
  by (rule observes_trans [OF _ silent_observes])

lemma observes_note [simp]: "observes s s' \<Longrightarrow> no_output e \<Longrightarrow> observes s (note_event e s')"
  by (auto simp: observes_def no_output_def)

lemma observes_media [simp]: "observes s s' \<Longrightarrow> observes s (pt_set_media_confirmed c s')"
  by (simp add: observes_def)

lemma observes_chain [simp]: "observes s s' \<Longrightarrow> observes s (pt_chain_set False s')"
  by (auto simp: observes_def run_observed_def run_get_chain)

lemma observes_uncertain: "observes s s' \<Longrightarrow> pt_run_get s = PT_RUN_UNCERTAIN \<longleftrightarrow> pt_run_get s' = PT_RUN_UNCERTAIN"
  by (auto simp: observes_def run_observed_def)

section \<open>Following the run through the reports\<close>

definition tracks :: "env \<Rightarrow> sys \<Rightarrow> sys \<Rightarrow> bool" where
  \<comment> \<open>between the states the run was only observed: it is held exactly if it was and no report closed it\<close>
  "tracks E s s' \<longleftrightarrow> closings E (trace s) \<le> closings E (trace s')
     \<and> pt_chain_get s' = (pt_chain_get s \<and> closings E (trace s') = closings E (trace s))"

lemma tracks_refl [simp]: "tracks E s s"
  by (simp add: tracks_def)

lemma tracks_trans: "tracks E s s' \<Longrightarrow> tracks E s' s'' \<Longrightarrow> tracks E s s''"
  by (auto simp: tracks_def)

lemma chain_get_simps [simp]:
  "pt_chain_get (note_event e s) = pt_chain_get s" "pt_chain_get (upd_batch f s) = pt_chain_get s"
  "pt_chain_get (pt_set_media_confirmed m s) = pt_chain_get s" "pt_chain_get (pt_fail_job s) = pt_chain_get s"
  "\<not> pt_chain_get (pt_chain_set False s)"
  by (simp_all add: pt_chain_get_def run_get_chain Let_def)

lemma tracks_simps [simp]:
  "tracks E s (upd_batch f s') = tracks E s s'" "tracks E (upd_batch f s) s' = tracks E s s'"
  "tracks E s (pt_set_media_confirmed m s') = tracks E s s'"
  "calm e \<Longrightarrow> tracks E s (note_event e s') = tracks E s s'" "calm e \<Longrightarrow> tracks E (note_event e s) s' = tracks E s s'"
  by (simp_all add: tracks_def calm_closing)

lemma silent_tracks: "silent s s' \<Longrightarrow> tracks E s s'"
  by (simp add: tracks_def silent_closings silent_sys pt_chain_get_def)

definition run_continues :: "env \<Rightarrow> sys \<Rightarrow> sys \<Rightarrow> bool" where
  \<comment> \<open>the run was held at first, and nothing since reported another cassette or none\<close>
  "run_continues E s s' \<longleftrightarrow> pt_chain_get s \<and> closings E (trace s') = closings E (trace s)"

lemma tracks_continues: "tracks E s s' \<Longrightarrow> closings E (trace s') = closings E (trace s'') \<Longrightarrow> pt_chain_get s' = run_continues E s s''"
  by (simp add: tracks_def run_continues_def)

end
