(* ===== verification/Live_Status.thy ===== *)
theory Live_Status
  imports Effects
begin

text \<open>
  \<^verbatim>\<open>src/driver.c\<close>, talking to the open device: confirmed writes and the live tape read that discards
  stale replies. The locale \<open>status_reader\<close> states what these routines need of the transport's status
  read; both transports and the dispatch between them are instances.
\<close>

section \<open>Writes\<close>

definition pt_dev_write :: "env \<Rightarrow> u8 list \<Rightarrow> 'a world_scheme \<Rightarrow> (bool \<times> 'a world_scheme) option" where
  "pt_dev_write E buf s = do {
     (before, s) \<leftarrow> papplDeviceGetMetrics E s;
     (accepted, s) \<leftarrow> papplDeviceWrite E buf s;
     (_, s) \<leftarrow> papplDeviceFlush s;
     (after, s) \<leftarrow> papplDeviceGetMetrics E s;
     Some (accepted = int (length buf) \<and> after - before = word_of_nat (length buf), s)
   }"

definition pt_job_write :: "env \<Rightarrow> u8 list \<Rightarrow> 'a world_scheme \<Rightarrow> (bool \<times> 'a world_scheme) option" where
  "pt_job_write E buf s = do {
     (ok, s) \<leftarrow> pt_dev_write E buf s;
     if ok then Some (True, s)
     else do {
       (_, s) \<leftarrow> papplJobSetMessage
         ''Write to printer failed; output uncertain: power-cycle printer, then restart server'' s;
       Some (False, s)
     }
   }"

definition pt_live_uri :: "string option \<Rightarrow> bool" where
  "pt_live_uri uri \<longleftrightarrow> pt_usb_is_uri uri \<or> pt_bt_is_uri uri"

definition pt_read_status ::
  "env \<Rightarrow> string option \<Rightarrow> nat \<Rightarrow> 'a world_scheme \<Rightarrow> ((int \<times> u8 list) \<times> 'a world_scheme) option" where
  "pt_read_status E uri bytes s =
    (if pt_bt_is_uri uri then pt_bt_read_status E True uri bytes s
     else pt_usb_read_status E True uri bytes s)"

section \<open>The live tape\<close>

definition PT_STATUS_POLL_TRIES :: nat where "PT_STATUS_POLL_TRIES = 10"
definition PT_STATUS_POLL_NS :: int where "PT_STATUS_POLL_NS = 100000000"

record pt_live_read =
  lr_n :: int
  lr_parsed :: bool
  lr_write_failed :: bool
  lr_st :: pt_status

definition zero_live :: pt_live_read where
  "zero_live = \<lparr>lr_n = 0, lr_parsed = False, lr_write_failed = False, lr_st = zero_status\<rparr>"

text \<open>The two loops of \<^verbatim>\<open>pt_read_live_tape\<close>, over the status read \<open>rd\<close> of the device.\<close>

fun drain_input ::
  "(nat \<Rightarrow> 'a world_scheme \<Rightarrow> ((int \<times> u8 list) \<times> 'a world_scheme) option) \<Rightarrow> nat \<Rightarrow> 'a world_scheme
   \<Rightarrow> ((unit + bool \<times> nat) \<times> 'a world_scheme) option" where
  \<comment> \<open>\<open>Inl ()\<close> is a failed read; otherwise whether the input is drained and the tries left\<close>
  "drain_input rd 0 s = Some (Inr (False, 0), s)"
| "drain_input rd (Suc tries) s = do {
     ((n, data), s) \<leftarrow> rd 32 s;
     _ \<leftarrow> blit (replicate 32 0) 0 data;
     if n < 0 then Some (Inl (), s)
     else if n = 0 then Some (Inr (True, tries), s)
     else drain_input rd tries s
   }"

fun collect_reply ::
  "(nat \<Rightarrow> 'a world_scheme \<Rightarrow> ((int \<times> u8 list) \<times> 'a world_scheme) option) \<Rightarrow> nat \<Rightarrow> u8 list \<Rightarrow> nat
   \<Rightarrow> pt_live_read \<Rightarrow> 'a world_scheme \<Rightarrow> (pt_live_read \<times> 'a world_scheme) option" where
  "collect_reply rd 0 buf used r s = Some (r, s)"
| "collect_reply rd (Suc tries) buf used r s = do {
     (_, s) \<leftarrow> nanosleep \<lparr>tv_sec = 0, tv_nsec = PT_STATUS_POLL_NS\<rparr> s;
     ((n, data), s) \<leftarrow> rd (32 - used) s;
     buf \<leftarrow> blit buf used data;
     if n < 0 then Some (r\<lparr>lr_n := n\<rparr>, s)
     else
       let used = used + nat n; r = r\<lparr>lr_n := int used\<rparr> in
       if used < 32 then collect_reply rd tries buf used r s
       else if buf ! 18 = 0 then
         Some (case pt_parse_status buf of None \<Rightarrow> r\<lparr>lr_parsed := False\<rparr>
               | Some st \<Rightarrow> r\<lparr>lr_parsed := True, lr_st := st\<rparr>, s)
       else collect_reply rd tries buf 0 (r\<lparr>lr_n := 0\<rparr>) s
   }"

definition pt_read_live_tape ::
  "env \<Rightarrow> string option \<Rightarrow> 'a world_scheme \<Rightarrow> (pt_live_read \<times> 'a world_scheme) option" where
  "pt_read_live_tape E uri s =
    (if \<not> pt_live_uri uri then Some (zero_live\<lparr>lr_n := - 1\<rparr>, s)
     else do {
       (d, s) \<leftarrow> drain_input (pt_read_status E uri) PT_STATUS_POLL_TRIES s;
       case d of
         Inl _ \<Rightarrow> Some (zero_live\<lparr>lr_n := - 1\<rparr>, s)
       | Inr (drained, tries) \<Rightarrow>
           if \<not> drained then Some (zero_live, s)
           else do {
             (ok, s) \<leftarrow> pt_dev_write E pt_cmd_status_request s;
             if \<not> ok then Some (zero_live\<lparr>lr_n := - 1, lr_write_failed := True\<rparr>, s)
             else collect_reply (pt_read_status E uri) tries (replicate 32 0) 0 zero_live s
           }
     })"

definition fresh_reply :: "u8 list \<Rightarrow> pt_status \<Rightarrow> bool" where
  \<comment> \<open>the bytes are whole blocks, the last of which is a snapshot that parses to the status\<close>
  "fresh_reply bytes st \<longleftrightarrow> (\<exists>old pkt. bytes = old @ pkt \<and> 32 dvd length old \<and> length pkt = 32
     \<and> pkt ! 18 = 0 \<and> pt_parse_status pkt = Some st)"

lemma fresh_reply_one: "length pkt = 32 \<Longrightarrow> pkt ! 18 = 0 \<Longrightarrow> pt_parse_status pkt = Some st \<Longrightarrow> fresh_reply pkt st"
  unfolding fresh_reply_def by (intro exI [of _ "[]"] exI [of _ pkt]) simp

lemma fresh_reply_skip: "fresh_reply bytes st \<Longrightarrow> length old = 32 \<Longrightarrow> fresh_reply (old @ bytes) st"
  unfolding fresh_reply_def by (metis append.assoc dvd_add dvd_refl length_append)

lemma take_blit:
  "blit buf used data = Some buf' \<Longrightarrow> used \<le> length buf \<Longrightarrow> take (used + length data) buf' = take used buf @ data"
  by (auto simp: blit_def split: if_splits)

section \<open>The interface of a status read\<close>

locale status_reader =
  fixes rd :: "nat \<Rightarrow> 'a world_scheme \<Rightarrow> ((int \<times> u8 list) \<times> 'a world_scheme) option"
  assumes rd_result: "ensures (rd n s) (\<lambda>(k, data) s'. k < 0 \<or> k = int (length data))"
    and rd_frame: "ensures (rd n s) (\<lambda>(k, data) s'. extends read_event s s')"
    and rd_replies: "ensures (rd n s) (\<lambda>(k, data) s'. replies (trace s') = replies (trace s) @ data)"
begin

lemma rd_all:
  assumes "rd n s = Some ((k, data), s')"
  shows "k < 0 \<or> k = int (length data)" "extends read_event s s'" "replies (trace s') = replies (trace s) @ data"
  using ensuresD [OF rd_result assms] ensuresD [OF rd_frame assms] ensuresD [OF rd_replies assms] by auto

lemma drain_step:
  assumes "drain_input rd (Suc tries) s = Some (d, s')"
  obtains n data s1 where "rd 32 s = Some ((n, data), s1)" "extends read_event s s1"
    "n < 0 \<and> d = Inl () \<and> s' = s1 \<or> n = 0 \<and> d = Inr (True, tries) \<and> s' = s1
     \<or> 0 < n \<and> drain_input rd tries s1 = Some (d, s')"
  using assms rd_all by (auto split: Option.bind_splits if_splits)

lemma drain_post:
  "drain_input rd tries s = Some (d, s') \<Longrightarrow> extends read_event s s' \<and>
     (\<forall>drained left. d = Inr (drained, left) \<longrightarrow> left \<le> tries \<and> (\<not> drained \<longrightarrow> left = 0) \<and>
        (drained \<longrightarrow> left < tries \<and> (\<exists>s0 data. extends read_event s s0 \<and> rd 32 s0 = Some ((0, data), s'))))"
proof (induction tries arbitrary: s)
  case (Suc tries)
  obtain n data s1 where r: "rd 32 s = Some ((n, data), s1)" "extends read_event s s1"
    "n < 0 \<and> d = Inl () \<and> s' = s1 \<or> n = 0 \<and> d = Inr (True, tries) \<and> s' = s1
     \<or> 0 < n \<and> drain_input rd tries s1 = Some (d, s')"
    using Suc.prems by (rule drain_step)
  then show ?case
    using Suc.IH [of s1] extends_trans [OF r(2)] extends_refl [of read_event s] by (fastforce intro: le_SucI less_SucI)
qed auto

lemma collect_step:
  assumes "collect_reply rd (Suc tries) buf used r s = Some (r', s')" "length buf = 32" "used < 32"
  obtains n data s1 evs buf1 where "trace s1 = evs @ Ev_Sleep \<lparr>tv_sec = 0, tv_nsec = PT_STATUS_POLL_NS\<rparr> # trace s"
    "list_all read_event evs" "replies evs = data" "conn s1 = conn s" "world.more s1 = world.more s"
    "length buf1 = 32" "take (used + length data) buf1 = take used buf @ data"
    "n < 0 \<and> r' = r\<lparr>lr_n := n\<rparr> \<and> s' = s1
     \<or> n = int (length data) \<and> used + length data < 32
         \<and> collect_reply rd tries buf1 (used + length data) (r\<lparr>lr_n := int (used + length data)\<rparr>) s1 = Some (r', s')
     \<or> used + length data = 32 \<and> buf1 ! 18 = 0 \<and> s' = s1 \<and> lr_write_failed r' = lr_write_failed r
         \<and> (lr_parsed r' \<longrightarrow> pt_parse_status buf1 = Some (lr_st r'))
     \<or> used + length data = 32 \<and> collect_reply rd tries buf1 0 (r\<lparr>lr_n := 0\<rparr>) s1 = Some (r', s')"
proof -
  define s0 where "s0 = note_event (Ev_Sleep \<lparr>tv_sec = 0, tv_nsec = PT_STATUS_POLL_NS\<rparr>) s"
  obtain n data s1 buf1 where r: "rd (32 - used) s0 = Some ((n, data), s1)" "blit buf used data = Some buf1"
    using assms(1) by (auto simp: nanosleep_def answer_def s0_def split: Option.bind_splits)
  note rd = rd_all [OF r(1)]
  obtain evs where evs: "trace s1 = evs @ trace s0" "list_all read_event evs"
    using rd(2) by (auto simp: extends_def)
  have fits: "used + length data \<le> 32"
    using r(2) assms(2) by (simp add: blit_def split: if_splits)
  have cs: "n < 0 \<and> r' = r\<lparr>lr_n := n\<rparr> \<and> s' = s1
     \<or> n = int (length data) \<and> used + length data < 32
         \<and> collect_reply rd tries buf1 (used + length data) (r\<lparr>lr_n := int (used + length data)\<rparr>) s1 = Some (r', s')
     \<or> used + length data = 32 \<and> buf1 ! 18 = 0 \<and> s' = s1 \<and> lr_write_failed r' = lr_write_failed r
         \<and> (lr_parsed r' \<longrightarrow> pt_parse_status buf1 = Some (lr_st r'))
     \<or> used + length data = 32 \<and> collect_reply rd tries buf1 0 (r\<lparr>lr_n := 0\<rparr>) s1 = Some (r', s')"
  proof -
    have eq: "(if n < 0 then Some (r\<lparr>lr_n := n\<rparr>, s1)
       else let used = used + nat n; r = r\<lparr>lr_n := int used\<rparr> in
         if used < 32 then collect_reply rd tries buf1 used r s1
         else if buf1 ! 18 = 0 then
           Some (case pt_parse_status buf1 of None \<Rightarrow> r\<lparr>lr_parsed := False\<rparr>
                 | Some st \<Rightarrow> r\<lparr>lr_parsed := True, lr_st := st\<rparr>, s1)
         else collect_reply rd tries buf1 0 (r\<lparr>lr_n := 0\<rparr>) s1) = Some (r', s')"
      using assms(1) r by (simp add: nanosleep_def answer_def flip: s0_def)
    consider "n < 0" | "n = int (length data)" "used + length data < 32" | "n = int (length data)" "used + length data = 32"
      using rd(1) fits by linarith
    then show ?thesis
    proof cases
      case 3
      then show ?thesis using eq by (cases "buf1 ! 18 = 0"; cases "pt_parse_status buf1") (auto simp: Let_def)
    qed (use eq in \<open>simp_all add: Let_def\<close>)
  qed
  show thesis
  proof (rule that [OF _ evs(2) _ _ _ _ _ cs])
    show "trace s1 = evs @ Ev_Sleep \<lparr>tv_sec = 0, tv_nsec = PT_STATUS_POLL_NS\<rparr> # trace s"
      using evs(1) by (simp add: s0_def)
    show "replies evs = data" using rd(3) evs(1) by simp
    show "conn s1 = conn s" "world.more s1 = world.more s" using rd(2) by (simp_all add: extends_def s0_def)
    show "length buf1 = 32" using blit_length [OF r(2)] assms(2) by simp
    show "take (used + length data) buf1 = take used buf @ data" using take_blit [OF r(2)] assms(2,3) by simp
  qed
qed

lemma collect_post:
  "collect_reply rd tries buf used r s = Some (r', s') \<Longrightarrow> length buf = 32 \<Longrightarrow> used < 32 \<Longrightarrow> \<not> lr_parsed r \<Longrightarrow>
     conn s' = conn s \<and> world.more s' = world.more s \<and> lr_write_failed r' = lr_write_failed r \<and>
     (\<exists>new. trace s' = new @ trace s \<and> list_all (\<lambda>e. read_event e \<or> sleeps e) new
        \<and> length (filter sleeps new) \<le> tries
        \<and> (lr_parsed r' \<longrightarrow> fresh_reply (take used buf @ replies new) (lr_st r')))"
proof (induction tries arbitrary: buf used r s)
  case (Suc tries)
  obtain n data s1 evs buf1 where st: "trace s1 = evs @ Ev_Sleep \<lparr>tv_sec = 0, tv_nsec = PT_STATUS_POLL_NS\<rparr> # trace s"
    "list_all read_event evs" "replies evs = data" "conn s1 = conn s" "world.more s1 = world.more s"
    "length buf1 = 32" "take (used + length data) buf1 = take used buf @ data"
    and c: "n < 0 \<and> r' = r\<lparr>lr_n := n\<rparr> \<and> s' = s1
     \<or> n = int (length data) \<and> used + length data < 32
         \<and> collect_reply rd tries buf1 (used + length data) (r\<lparr>lr_n := int (used + length data)\<rparr>) s1 = Some (r', s')
     \<or> used + length data = 32 \<and> buf1 ! 18 = 0 \<and> s' = s1 \<and> lr_write_failed r' = lr_write_failed r
         \<and> (lr_parsed r' \<longrightarrow> pt_parse_status buf1 = Some (lr_st r'))
     \<or> used + length data = 32 \<and> collect_reply rd tries buf1 0 (r\<lparr>lr_n := 0\<rparr>) s1 = Some (r', s')"
    using Suc.prems(1,2,3) by (rule collect_step)
  let ?sl = "Ev_Sleep \<lparr>tv_sec = 0, tv_nsec = PT_STATUS_POLL_NS\<rparr>"
  have quiet: "filter sleeps evs = []" "list_all (\<lambda>e. read_event e \<or> sleeps e) evs"
    using st(2) read_event_awake by (auto simp: list_all_iff filter_empty_conv)
  show ?case
    using c
  proof (elim disjE conjE)
    assume "n < 0" "r' = r\<lparr>lr_n := n\<rparr>" "s' = s1"
    then show ?thesis using st quiet Suc.prems by (intro conjI exI [of _ "evs @ [?sl]"]) auto
  next
    assume "used + length data < 32"
      "collect_reply rd tries buf1 (used + length data) (r\<lparr>lr_n := int (used + length data)\<rparr>) s1 = Some (r', s')"
    from Suc.IH [OF this(2) st(6) this(1)] Suc.prems(4) obtain new where
      "trace s' = new @ trace s1" "list_all (\<lambda>e. read_event e \<or> sleeps e) new" "length (filter sleeps new) \<le> tries"
      "conn s' = conn s1" "world.more s' = world.more s1" "lr_write_failed r' = lr_write_failed r"
      "lr_parsed r' \<longrightarrow> fresh_reply (take (used + length data) buf1 @ replies new) (lr_st r')"
      by auto
    then show ?thesis using st quiet by (intro conjI exI [of _ "new @ evs @ [?sl]"]) auto
  next
    assume "used + length data = 32" "buf1 ! 18 = 0" "s' = s1" "lr_write_failed r' = lr_write_failed r"
      "lr_parsed r' \<longrightarrow> pt_parse_status buf1 = Some (lr_st r')"
    moreover from this have "lr_parsed r' \<longrightarrow> fresh_reply (take used buf @ data) (lr_st r')"
      using st(6,7) fresh_reply_one [of buf1] by simp
    ultimately show ?thesis using st quiet by (intro conjI exI [of _ "evs @ [?sl]"]) auto
  next
    assume full: "used + length data = 32"
      and again: "collect_reply rd tries buf1 0 (r\<lparr>lr_n := 0\<rparr>) s1 = Some (r', s')"
    from Suc.IH [OF again st(6)] Suc.prems(4) obtain new where
      new: "trace s' = new @ trace s1" "list_all (\<lambda>e. read_event e \<or> sleeps e) new" "length (filter sleeps new) \<le> tries"
      "conn s' = conn s1" "world.more s' = world.more s1" "lr_write_failed r' = lr_write_failed r"
      "lr_parsed r' \<longrightarrow> fresh_reply (replies new) (lr_st r')"
      by auto
    have "length (take used buf @ data) = 32" using full Suc.prems(2,3) by simp
    from fresh_reply_skip [OF _ this, of "replies new"] new st quiet show ?thesis
      by (intro conjI exI [of _ "new @ evs @ [?sl]"]) auto
  qed
qed auto

end

text \<open>The extension states when the read is safe: it returns and stays in the caller's buffer.\<close>

locale bounded_reader = status_reader rd
  for rd :: "nat \<Rightarrow> 'a world_scheme \<Rightarrow> ((int \<times> u8 list) \<times> 'a world_scheme) option" +
  fixes link :: "pt_conn option \<Rightarrow> bool"
  assumes rd_returns: "link (conn s) \<Longrightarrow> returns (rd n s) (\<lambda>(k, data) s'. length data \<le> n)"
begin

lemma drain_returns:
  "link (conn s) \<Longrightarrow> returns (drain_input rd tries s) (\<lambda>r s'. conn s' = conn s)"
proof (induction tries arbitrary: s)
  case (Suc tries)
  obtain n data s1 where r: "rd 32 s = Some ((n, data), s1)" "length data \<le> 32"
    using rd_returns [OF Suc.prems, of 32] by (auto simp: returns_iff)
  moreover have "conn s1 = conn s" using rd_all(2) [OF r(1)] by (simp add: extends_def)
  ultimately show ?case
    using Suc.IH [of s1] Suc.prems by (simp add: blit_def)
qed simp

lemma collect_returns:
  "link (conn s) \<Longrightarrow> length buf = 32 \<Longrightarrow> used < 32 \<Longrightarrow> returns (collect_reply rd tries buf used r s) (\<lambda>r s'. True)"
proof (induction tries arbitrary: buf used r s)
  case (Suc tries)
  let ?s = "note_event (Ev_Sleep \<lparr>tv_sec = 0, tv_nsec = PT_STATUS_POLL_NS\<rparr>) s"
  obtain n data s1 where r: "rd (32 - used) ?s = Some ((n, data), s1)" "length data \<le> 32 - used"
    using rd_returns [of ?s "32 - used"] Suc.prems by (auto simp: returns_iff)
  have "blit buf used data \<noteq> None"
    using r(2) Suc.prems by (simp add: blit_def)
  then obtain buf1 where b: "blit buf used data = Some buf1" "length buf1 = 32"
    using blit_length Suc.prems(2) by fastforce
  have l: "link (conn s1)" using rd_all(2) [OF r(1)] Suc.prems by (simp add: extends_def)
  show ?case
    using r(1) b Suc.IH [OF l b(2)] by (simp add: nanosleep_def answer_def Let_def)
qed simp

end

section \<open>The transports implement it\<close>

definition usb_in_bounds :: "env \<Rightarrow> bool" where
  \<comment> \<open>libusb never stores more than it was asked for\<close>
  "usb_in_bounds E \<longleftrightarrow> (\<forall>h u n t rc data. usb_bulk_in E h u n t = (rc, data) \<longrightarrow> length data \<le> n)"

definition reads_end :: "env \<Rightarrow> bool" where
  "reads_end E \<longleftrightarrow> usb_in_bounds E \<and> recv_in_bounds E \<and> (\<exists>N. signals_end E N)"

fun link_matches :: "string option \<Rightarrow> pt_conn option \<Rightarrow> bool" where
  \<comment> \<open>the open connection is of the scheme the URI names\<close>
  "link_matches uri None = True"
| "link_matches uri (Some (Usb_Conn c)) = (\<not> pt_bt_is_uri uri)"
| "link_matches uri (Some (Bt_Conn fd)) = pt_bt_is_uri uri"

interpretation usb_reader: status_reader "pt_usb_read_status E device uri" for E device uri
  by unfold_locales
    (auto simp: pt_usb_read_status_def usb_conn_def bulk_in_def read_result_def ensures_def answer_def
      split: Option.bind_splits if_splits option.splits pt_conn.splits prod.splits)

lemma bt_read_ensures:
  "ensures (pt_bt_read_status E device uri bytes s) (\<lambda>(k, data) s'. (k < 0 \<or> k = int (length data))
     \<and> extends read_event s s' \<and> replies (trace s') = replies (trace s) @ data)"
proof -
  have "ensures (pt_bt_recv E fd bytes ms s) (\<lambda>(k, data) s'. (k < 0 \<or> k = int (length data))
     \<and> extends read_event s s' \<and> replies (trace s') = replies (trace s) @ data)" for fd ms
  proof (rule ensuresI, clarify)
    fix k data s'
    assume "pt_bt_recv E fd bytes ms s = Some ((k, data), s')"
    then obtain deadline where
      "bt_recv_loop E fd deadline bytes [] (note_event (Ev_Clock (clock E (trace s))) s) = Some ((k, data), s')"
      by (auto simp: pt_bt_recv_def clock_gettime_def answer_def Let_def)
    from recv_loop_post [OF this] show "(k < 0 \<or> k = int (length data)) \<and> extends read_event s s'
        \<and> replies (trace s') = replies (trace s) @ data"
      using extends_trans [of read_event s "note_event (Ev_Clock (clock E (trace s))) s" s']
      by (auto simp: recv_post_def)
  qed
  then show ?thesis
    by (auto simp: pt_bt_read_status_def bt_conn_def split: Option.bind_split option.split pt_conn.split)
qed

interpretation bt_reader: status_reader "pt_bt_read_status E device uri" for E device uri
proof
  fix n and s :: "'a world_scheme"
  show "ensures (pt_bt_read_status E device uri n s) (\<lambda>(k, data) s'. k < 0 \<or> k = int (length data))"
    by (rule ensures_mono [OF bt_read_ensures]) auto
  show "ensures (pt_bt_read_status E device uri n s) (\<lambda>(k, data) s'. extends read_event s s')"
    by (rule ensures_mono [OF bt_read_ensures]) auto
  show "ensures (pt_bt_read_status E device uri n s) (\<lambda>(k, data) s'. replies (trace s') = replies (trace s) @ data)"
    by (rule ensures_mono [OF bt_read_ensures]) auto
qed

interpretation live_reader: status_reader "pt_read_status E uri" for E uri
proof
  fix n and s :: "'a world_scheme"
  show "ensures (pt_read_status E uri n s) (\<lambda>(k, data) s'. k < 0 \<or> k = int (length data))"
    by (simp add: pt_read_status_def usb_reader.rd_result bt_reader.rd_result)
  show "ensures (pt_read_status E uri n s) (\<lambda>(k, data) s'. extends read_event s s')"
    by (simp add: pt_read_status_def usb_reader.rd_frame bt_reader.rd_frame)
  show "ensures (pt_read_status E uri n s) (\<lambda>(k, data) s'. replies (trace s') = replies (trace s) @ data)"
    by (simp add: pt_read_status_def usb_reader.rd_replies bt_reader.rd_replies)
qed

interpretation live_link: bounded_reader "pt_read_status E uri" "\<lambda>c. reads_end E \<and> link_matches uri c" for E uri
proof
  fix n and s :: "'a world_scheme"
  assume l: "reads_end E \<and> link_matches uri (conn s)"
  show "returns (pt_read_status E uri n s) (\<lambda>(k, data) s'. length data \<le> n)"
  proof (cases "pt_bt_is_uri uri")
    case True
    with l have "bt_conn s \<noteq> None" by (cases "conn s"; simp add: bt_conn_def split: pt_conn.split) (auto elim: link_matches.elims)
    moreover have "returns (pt_bt_recv E fd n PT_BT_STATUS_TIMEOUT_MS s) (\<lambda>(k, data) s'. length data \<le> n)" for fd
    proof -
      obtain N where "signals_end E N" "recv_in_bounds E" using l by (auto simp: reads_end_def)
      from bt_recv_returns [OF this, of fd n PT_BT_STATUS_TIMEOUT_MS s] show ?thesis by auto
    qed
    ultimately show ?thesis
      using True by (auto simp: pt_read_status_def pt_bt_read_status_def split: option.split)
  next
    case False
    with l have "usb_conn s \<noteq> None" by (cases "conn s"; simp add: usb_conn_def split: pt_conn.split) (auto elim: link_matches.elims)
    with False l show ?thesis
      by (auto simp: pt_read_status_def pt_usb_read_status_def reads_end_def usb_in_bounds_def bulk_in_def split: option.split prod.split)
  qed
qed

section \<open>The bench link\<close>

lemma bench_link [simp]:
  "reads_end bench" "link_matches (Some ''ptouch://Brother/PT-P710BT'') (conn bench_sys)"
  "pt_live_uri (Some ''ptouch://Brother/PT-P710BT'')" "\<not> pt_bt_is_uri (Some ''ptouch://Brother/PT-P710BT'')"
  "pt_usb_is_uri (Some ''ptouch://Brother/PT-P710BT'')"
  by (simp_all add: reads_end_def usb_in_bounds_def recv_in_bounds_def signals_end_def bench_sys_def pt_bt_is_uri_def
      pt_bt_address_from_uri_def PT_BT_PREFIX_def prefix_of_def pt_live_uri_def pt_usb_is_uri_def
      pt_usb_model_from_uri_def usb_prefix_def supported_model_iff)

lemma bench_read:
  "conn s = Some (Usb_Conn c) \<Longrightarrow> pt_read_status bench (Some ''ptouch://Brother/PT-P710BT'') n s =
    (let data = take n (pending_reply (trace s)); rc = (if pending_reply (trace s) = [] then - 7 else 0) in
     Some ((int (length data), data), note_event (Ev_Usb_In n 300 rc data) s))"
  by (auto simp: pt_read_status_def pt_usb_read_status_def usb_conn_def bulk_in_def read_result_def
      answer_def PT_USB_STATUS_TIMEOUT_MS_def LIBUSB_ERROR_TIMEOUT_def Let_def)

lemma bench_dev_write: "pt_dev_write bench buf s = Some (True, note_event (Ev_Metrics (word_of_nat (length buf + written_bytes (trace s))))
    (note_event Ev_Flush (note_event (Ev_Write buf (int (length buf))) (note_event (Ev_Metrics (word_of_nat (written_bytes (trace s)))) s))))"
  by (simp add: pt_dev_write_def pappl_defs answer_def)

lemma bench_drain:
  assumes "conn s = Some (Usb_Conn c)" "pending_reply (trace s) = []"
  shows "drain_input (pt_read_status bench (Some ''ptouch://Brother/PT-P710BT'')) PT_STATUS_POLL_TRIES s
    = Some (Inr (True, 9), note_event (Ev_Usb_In 32 300 (- 7) []) s)"
  using assms drain_input.simps(2) [of _ 9 s]
  by (simp add: PT_STATUS_POLL_TRIES_def bench_read Let_def blit_def)

lemma bench_collect:
  assumes "conn s = Some (Usb_Conn c)" "pending_reply (trace s) = status_packet 0"
  shows "\<exists>s'. collect_reply (pt_read_status bench (Some ''ptouch://Brother/PT-P710BT'')) 9 (replicate 32 0) 0 zero_live s =
    Some (\<lparr>lr_n = 32, lr_parsed = True, lr_write_failed = False,
      lr_st = \<lparr>tape_mm = 12, tape_px = 76, st_error = 0, raw = status_packet 0\<rparr>\<rparr>, s')
    \<and> conn s' = conn s \<and> world.more s' = world.more s \<and> pending_reply (trace s') = []
    \<and> bench_width (trace s') = bench_width (trace s)"
proof -
  have "take 32 (status_packet 0) = status_packet 0" "status_packet 0 \<noteq> []" "length (status_packet 0) = 32"
    "status_packet 0 ! 18 = 0" "pt_parse_status (status_packet 0) = Some \<lparr>tape_mm = 12, tape_px = 76, st_error = 0, raw = status_packet 0\<rparr>"
    by (simp_all add: status_packet_def pt_parse_status_def tape_px_cases)
  then show ?thesis
    using assms collect_reply.simps(2) [of _ 8 "replicate 32 0" 0 zero_live s]
    by (simp add: bench_read Let_def blit_def nanosleep_def answer_def zero_live_def)
qed

lemma bench_live_tape:
  assumes "conn s = Some (Usb_Conn c)" "pending_reply (trace s) = []"
  shows "\<exists>s'. pt_read_live_tape bench (Some ''ptouch://Brother/PT-P710BT'') s =
    Some (\<lparr>lr_n = 32, lr_parsed = True, lr_write_failed = False,
      lr_st = \<lparr>tape_mm = 12, tape_px = 76, st_error = 0, raw = status_packet 0\<rparr>\<rparr>, s')
    \<and> conn s' = conn s \<and> world.more s' = world.more s \<and> pending_reply (trace s') = []
    \<and> bench_width (trace s') = bench_width (trace s)"
  using assms bench_collect [of "note_event (Ev_Metrics (word_of_nat (3 + written_bytes (trace s)))) (note_event Ev_Flush
    (note_event (Ev_Write pt_cmd_status_request 3) (note_event (Ev_Metrics (word_of_nat (written_bytes (trace s)))) (note_event (Ev_Usb_In 32 300 (- 7) []) s))))"]
  by (simp add: pt_read_live_tape_def bench_drain bench_dev_write pt_cmd_status_request_def)

section \<open>Facts about writes and the live read\<close>

lemma dev_write_result:
  "\<exists>before after n ok. pt_dev_write E buf s = Some (ok, note_event (Ev_Metrics after) (note_event Ev_Flush
     (note_event (Ev_Write buf n) (note_event (Ev_Metrics before) s)))) \<and> (ok \<longrightarrow> n = int (length buf))"
  by (auto simp: pt_dev_write_def pappl_defs answer_def)

lemma job_write_returns:
  "returns (pt_job_write E buf s) (\<lambda>ok s'. conn s' = conn s \<and> world.more s' = world.more s
     \<and> writes (trace s') = writes (trace s) @ [buf] \<and> length (trace s) \<le> length (trace s'))"
  using dev_write_result [of E buf s] by (auto simp: pt_job_write_def papplJobSetMessage_def)

lemma live_tape_cases:
  assumes "pt_read_live_tape E uri s = Some (r, s')"
  obtains (silent) "extends read_event s s'" "\<not> lr_parsed r"
  | (unsent) s1 before after n where "extends read_event s s1" "\<not> lr_parsed r"
      "s' = note_event (Ev_Metrics after) (note_event Ev_Flush
         (note_event (Ev_Write pt_cmd_status_request n) (note_event (Ev_Metrics before) s1)))"
  | (asked) s0 data s1 before after left s2 where "extends read_event s s0"
      "pt_read_status E uri 32 s0 = Some ((0, data), s1)" "extends read_event s s1" "left \<le> 9"
      "s2 = note_event (Ev_Metrics after) (note_event Ev_Flush
         (note_event (Ev_Write pt_cmd_status_request 3) (note_event (Ev_Metrics before) s1)))"
      "collect_reply (pt_read_status E uri) left (replicate 32 0) 0 zero_live s2 = Some (r, s')"
proof (cases "pt_live_uri uri")
  case False
  then show thesis using assms silent by (auto simp: pt_read_live_tape_def zero_live_def)
next
  case True
  obtain d s1 where d: "drain_input (pt_read_status E uri) PT_STATUS_POLL_TRIES s = Some (d, s1)"
    using assms True by (auto simp: pt_read_live_tape_def split: Option.bind_splits)
  note post = live_reader.drain_post [OF d]
  obtain ok before after n where w: "pt_dev_write E pt_cmd_status_request s1 = Some (ok, note_event (Ev_Metrics after)
      (note_event Ev_Flush (note_event (Ev_Write pt_cmd_status_request n) (note_event (Ev_Metrics before) s1))))"
    "ok \<longrightarrow> n = 3"
    using dev_write_result [of E pt_cmd_status_request s1] by (auto simp: pt_cmd_status_request_def)
  consider (none) "s' = s1" "\<not> lr_parsed r"
    | (failed) "\<not> ok" "s' = note_event (Ev_Metrics after) (note_event Ev_Flush
         (note_event (Ev_Write pt_cmd_status_request n) (note_event (Ev_Metrics before) s1)))" "\<not> lr_parsed r"
    | (reply) left where "d = Inr (True, left)" "ok"
      "collect_reply (pt_read_status E uri) left (replicate 32 0) 0 zero_live (note_event (Ev_Metrics after)
         (note_event Ev_Flush (note_event (Ev_Write pt_cmd_status_request n) (note_event (Ev_Metrics before) s1))))
       = Some (r, s')"
    using assms True d w(1) by (auto simp: pt_read_live_tape_def zero_live_def split: sum.splits if_splits)
  then show thesis
  proof cases
    case none
    then show thesis using post silent by simp
  next
    case failed
    then show thesis using post unsent by blast
  next
    case reply
    then obtain s0 data where s0: "extends read_event s s0" "pt_read_status E uri 32 s0 = Some ((0, data), s1)" "left \<le> 9"
      using post by (auto simp: PT_STATUS_POLL_TRIES_def)
    show thesis
      by (rule asked [OF s0(1,2) _ s0(3) _ reply(3)]) (use post w(2) reply(2) in simp_all)
  qed
qed

lemma live_tape_silent: "ensures (pt_read_live_tape E uri s) (\<lambda>r s'. silent s s')"
proof (rule ensuresI)
  fix r s'
  assume r: "pt_read_live_tape E uri s = Some (r, s')"
  from r show "silent s s'"
  proof (cases rule: live_tape_cases)
    case silent
    then show ?thesis by (simp add: read_only_silent)
  next
    case (unsent s1 before after n)
    then show ?thesis using read_only_silent [of s s1] by simp
  next
    case (asked s0 data s1 before after left s2)
    have "silent s s2" using read_only_silent [OF asked(3)] asked(5) by simp
    moreover have "silent s2 s'"
      using live_reader.collect_post [OF asked(6)] read_event_quiet sleeps_quiet
      by (auto simp: silent_def extends_def zero_live_def elim!: list.pred_mono_strong)
    ultimately show ?thesis by (rule silent_trans)
  qed
qed

lemma live_tape_range:
  assumes "pt_read_live_tape E uri s = Some (r, s')" "lr_parsed r"
  shows "0 \<le> tape_mm (lr_st r) \<and> tape_mm (lr_st r) < 256"
  using assms(1)
proof (cases rule: live_tape_cases)
  case (asked s0 data s1 before after left s2)
  then show ?thesis
    using live_reader.collect_post [OF asked(6)] assms(2) parse_status_tape_range
    by (auto simp: zero_live_def fresh_reply_def)
qed (use assms(2) in simp_all)

text \<open>C15. A live read answers with a fresh, matching reply: whenever it reports a parsed status, it
  consumed queued input until a read brought no data, then sent exactly one status request, and then,
  within at most nine delays, received whole 32-byte blocks of which the last is a snapshot (type
  0) with the reported contents. No block that was queued before the request is ever reported.\<close>

theorem live_tape_fresh:
  assumes "pt_read_live_tape E uri s = Some (r, s')" "lr_parsed r"
  shows "\<exists>s0 s1 data new before after. extends read_event s s0
    \<and> pt_read_status E uri 32 s0 = Some ((0, data), s1) \<and> extends read_event s s1
    \<and> trace s' = new @ [Ev_Metrics after, Ev_Flush, Ev_Write pt_cmd_status_request 3, Ev_Metrics before] @ trace s1
    \<and> list_all (\<lambda>e. read_event e \<or> sleeps e) new \<and> length (filter sleeps new) \<le> 9
    \<and> fresh_reply (replies new) (lr_st r)"
  using assms(1)
proof (cases rule: live_tape_cases)
  case (asked s0 data s1 before after left s2)
  obtain new where new: "trace s' = new @ trace s2" "list_all (\<lambda>e. read_event e \<or> sleeps e) new"
    "length (filter sleeps new) \<le> left" "fresh_reply (replies new) (lr_st r)"
    using live_reader.collect_post [OF asked(6)] assms(2) by (auto simp: zero_live_def)
  then show ?thesis
    using asked(1-5) by (intro exI [of _ s0] exI [of _ s1] exI [of _ data] exI [of _ new] exI [of _ before]
        exI [of _ after]) auto
qed (use assms(2) in simp_all)

theorem live_tape_fresh_witness:
  "\<exists>r s' s1 new before after. pt_read_live_tape bench (Some ''ptouch://Brother/PT-P710BT'') bench_sys = Some (r, s')
    \<and> trace s' = new @ [Ev_Metrics after, Ev_Flush, Ev_Write pt_cmd_status_request 3, Ev_Metrics before] @ trace (s1 :: sys)
    \<and> fresh_reply (replies new) (lr_st r)"
proof -
  obtain r s' where r: "pt_read_live_tape bench (Some ''ptouch://Brother/PT-P710BT'') bench_sys = Some (r, s')" "lr_parsed r"
    using bench_live_tape [of bench_sys bench_conn] by (auto simp: bench_sys_def)
  show ?thesis
    using live_tape_fresh [OF r] r(1) by blast
qed

lemma live_tape_total:
  assumes "reads_end E" "link_matches uri (conn s)"
  shows "returns (pt_read_live_tape E uri s) (\<lambda>r s'. silent s s')"
proof (cases "pt_live_uri uri")
  case True
  obtain d s1 where d: "drain_input (pt_read_status E uri) PT_STATUS_POLL_TRIES s = Some (d, s1)" "conn s1 = conn s"
    using live_link.drain_returns [of E uri s PT_STATUS_POLL_TRIES] assms by (auto simp: returns_iff)
  obtain ok s2 where w: "pt_dev_write E pt_cmd_status_request s1 = Some (ok, s2)" "conn s2 = conn s"
    using dev_write_result [of E pt_cmd_status_request s1] d(2) by fastforce
  have "\<exists>r s'. collect_reply (pt_read_status E uri) left (replicate 32 0) 0 zero_live s2 = Some (r, s')" for left
    using live_link.collect_returns [of E uri s2 "replicate 32 0" 0 left zero_live] assms w(2)
    by (auto simp: returns_iff)
  then obtain r s' where "pt_read_live_tape E uri s = Some (r, s')"
    using True d w by (cases d) (fastforce simp: pt_read_live_tape_def)+
  then show ?thesis using live_tape_silent [of E uri s] by simp
qed (simp add: pt_read_live_tape_def)

text \<open>A live read is safe and bounded on every link: if the transport stays in the buffers it is
  given and signals end, and the open connection is of the scheme of the URI, it returns without
  touching memory outside its buffers, and it sends no print output whatever the device answers.\<close>

theorem live_tape_returns:
  assumes "reads_end E" "link_matches uri (conn s)"
  shows "returns (pt_read_live_tape E uri s) (\<lambda>r s'. outputs (trace s') = outputs (trace s) \<and> conn s' = conn s)"
  by (rule returns_mono [OF live_tape_total [OF assms]]) (simp add: silent_outputs, simp add: silent_def extends_def)

theorem live_tape_returns_witness:
  "returns (pt_read_live_tape bench (Some ''ptouch://Brother/PT-P710BT'') bench_sys)
     (\<lambda>r s'. outputs (trace s') = [] \<and> conn s' = Some (Usb_Conn bench_conn))"
  using live_tape_returns [of bench "Some ''ptouch://Brother/PT-P710BT''" bench_sys]
  by (simp add: bench_sys_def)

end
