(* ===== verification/Loops.thy ===== *)
theory Loops
  imports Prelude
begin

text \<open>
  A C loop as the repetition of its body. The body gets the loop's variables and the state, and
  leaves the loop with \<open>Inl result\<close> or goes round again with \<open>Inr variables\<close>. A loop that never
  leaves is \<open>None\<close>. The two rules are the partial-correctness invariant and, with a measure, the total
  one.
\<close>

partial_function (option) iterate ::
  "('c \<Rightarrow> 's \<Rightarrow> (('r + 'c) \<times> 's) option) \<Rightarrow> 'c \<Rightarrow> 's \<Rightarrow> ('r \<times> 's) option" where
  "iterate body c s = do {
     (x, s) \<leftarrow> body c s;
     case x of Inl r \<Rightarrow> Some (r, s) | Inr c \<Rightarrow> iterate body c s
   }"

lemma iterate_ensures:
  assumes body: "\<And>c s. Inv c s \<Longrightarrow> ensures (body c s) (\<lambda>x s'. case x of Inl r \<Rightarrow> Q r s' | Inr c' \<Rightarrow> Inv c' s')"
    and init: "Inv c s"
  shows "ensures (iterate body c s) Q"
proof (rule ensuresI)
  fix r s'
  assume ret: "iterate body c s = Some (r, s')"
  have "body = body \<longrightarrow> Inv c s \<longrightarrow> (case (r, s') of (r, s') \<Rightarrow> Q r s')"
  proof (rule iterate.raw_induct [where P = "\<lambda>b c s y. b = body \<longrightarrow> Inv c s \<longrightarrow> (case y of (r, s') \<Rightarrow> Q r s')",
        OF _ ret], intro impI)
    fix f and b :: "'a \<Rightarrow> 'b \<Rightarrow> (('c + 'a) \<times> 'b) option" and c s y
    assume IH: "\<And>b c s y. f b c s = Some y \<Longrightarrow> b = body \<longrightarrow> Inv c s \<longrightarrow> (case y of (r, s') \<Rightarrow> Q r s')"
      and eq: "b c s \<bind> (\<lambda>(x, s). case x of Inl r \<Rightarrow> Some (r, s) | Inr c \<Rightarrow> f b c s) = Some y"
      and b: "b = body" and inv: "Inv c s"
    obtain x s1 where x: "body c s = Some (x, s1)"
      using eq b by (cases "body c s") auto
    show "case y of (r, s') \<Rightarrow> Q r s'"
    proof (cases x)
      case (Inl r)
      then show ?thesis using body [OF inv] eq x b by auto
    next
      case (Inr c')
      then have "Inv c' s1" "f body c' s1 = Some y" using body [OF inv] eq x b by simp_all
      then show ?thesis using IH by blast
    qed
  qed
  then show "Q r s'" using init by simp
qed

lemma iterate_returns:
  fixes m :: "'c \<Rightarrow> 's \<Rightarrow> nat"
  assumes body: "\<And>c s. Inv c s \<Longrightarrow> returns (body c s)
      (\<lambda>x s'. case x of Inl r \<Rightarrow> Q r s' | Inr c' \<Rightarrow> Inv c' s' \<and> m c' s' < m c s)"
    and init: "Inv c s"
  shows "returns (iterate body c s) Q"
  using init
proof (induction "m c s" arbitrary: c s rule: less_induct)
  case less
  obtain x s1 where x: "body c s = Some (x, s1)"
    "case x of Inl r \<Rightarrow> Q r s1 | Inr c' \<Rightarrow> Inv c' s1 \<and> m c' s1 < m c s"
    using body [OF less.prems] by (auto simp: returns_iff)
  then show ?case
    using less.hyps by (cases x) (subst iterate.simps, simp)+
qed

end
