(* ===== verification/Tape_Status.thy ===== *)
theory Tape_Status
  imports Live_Status Loops
begin

text \<open>
  \<^verbatim>\<open>src/driver.c\<close>, what the status means for jobs and the printer: publishing the tape, the job's
  tape confirmation, the wait for receive-ready, and the idle status callback.
\<close>

section \<open>Publishing the tape\<close>

definition media_col_for :: "env \<Rightarrow> int \<Rightarrow> int \<Rightarrow> int \<Rightarrow> media_col option" where
  \<comment> \<open>\<open>None\<close> is the return value false, after which no caller reads the result\<close>
  "media_col_for E mm length_centimm dpi =
    (if dpi \<noteq> 180 then None
     else map_option (\<lambda>g.
       \<lparr>size_width = mm * 100, size_length = length_centimm,
        left_margin = left_margin_centimm g, right_margin = right_margin_centimm g,
        top_margin = 0, bottom_margin = 0,
        size_name = format_size_name E None None (mm * 100) length_centimm,
        media_source = ''main-roll'', media_type = ''labels'', tracking_continuous = True\<rparr>)
       (pt_tape_geometry mm))"

definition PT_STATUS_REASONS :: "preason set" where
  "PT_STATUS_REASONS = {REASON_OFFLINE, REASON_MEDIA_EMPTY, REASON_MEDIA_NEEDED, REASON_OTHER}"

definition publish_fault :: "preason set \<Rightarrow> sys \<Rightarrow> (bool \<times> sys) option" where
  \<comment> \<open>the common end of \<^verbatim>\<open>pt_publish_tape\<close>\<close>
  "publish_fault reasons s = do {
     (_, s) \<leftarrow> papplPrinterSetReasons reasons (PT_STATUS_REASONS - reasons) (pt_set_media_confirmed False s);
     Some (False, s)
   }"

definition pt_publish_tape :: "env \<Rightarrow> pt_live_read \<Rightarrow> sys \<Rightarrow> (bool \<times> sys) option" where
  "pt_publish_tape E live s =
    (if \<not> lr_parsed live then publish_fault {REASON_OFFLINE} s
     else if st_error (lr_st live) \<noteq> 0 then publish_fault {REASON_OTHER} s
     else if tape_mm (lr_st live) = 0 then publish_fault {REASON_MEDIA_EMPTY} (pt_chain_set False s)
     else
       let old_width = ready_width E (trace s) in
       case media_col_for E (tape_mm (lr_st live)) 10000 (x_default E) of
         None \<Rightarrow> publish_fault {REASON_MEDIA_NEEDED, REASON_OTHER} s
       | Some media \<Rightarrow> do {
           (ok, s) \<leftarrow> papplPrinterSetReadyMedia E media s;
           if \<not> ok then publish_fault {REASON_MEDIA_NEEDED, REASON_OTHER} s
           else do {
             let s = (if old_width \<noteq> size_width media then pt_chain_set False s else s);
             (_, s) \<leftarrow> papplPrinterSetReasons {} PT_STATUS_REASONS (pt_set_media_confirmed True s);
             Some (True, s)
           }
         })"

definition pt_recovery_required :: "sys \<Rightarrow> (bool \<times> sys) option" where
  "pt_recovery_required s =
    (if pt_run_get s \<noteq> PT_RUN_UNCERTAIN then Some (False, s)
     else do { (_, s) \<leftarrow> papplPrinterSetReasons {REASON_OTHER} {} s; Some (True, s) })"

section \<open>Waiting for the tape of a job and for receive-ready\<close>

definition PT_MEDIA_REFRESH_MS :: int where "PT_MEDIA_REFRESH_MS = 10000"
definition PT_MEDIA_RETRY_NS :: int where "PT_MEDIA_RETRY_NS = 500000000"
definition PT_PRINT_READY_TIMEOUT_MS :: int where "PT_PRINT_READY_TIMEOUT_MS = 20000"

definition ms_between :: "timespec \<Rightarrow> timespec \<Rightarrow> int" where
  "ms_between t0 now = (tv_sec now - tv_sec t0) * 1000 + cdiv (tv_nsec now - tv_nsec t0) 1000000"

definition pt_ms_since :: "env \<Rightarrow> timespec \<Rightarrow> 'a world_scheme \<Rightarrow> (int \<times> 'a world_scheme) option" where
  "pt_ms_since E t0 s = do {
     (now, s) \<leftarrow> clock_gettime E s;
     Some (ms_between t0 now, s)
   }"

definition refresh_body ::
  "env \<Rightarrow> string option \<Rightarrow> timespec \<Rightarrow> unit \<Rightarrow> sys \<Rightarrow> (((bool \<times> pt_live_read) + unit) \<times> sys) option" where
  \<comment> \<open>the body of the do-while loop; it ends with whether the tape was published, and the last read\<close>
  "refresh_body E uri start = (\<lambda>_ s. do {
     (live, s) \<leftarrow> pt_read_live_tape E uri s;
     (ok, s) \<leftarrow> pt_publish_tape E live s;
     if ok then Some (Inl (True, live), s)
     else if lr_parsed live \<or> lr_n live \<noteq> 0 then Some (Inl (False, live), s)
     else do {
       (canceled, s) \<leftarrow> papplJobIsCanceled E s;
       if canceled then Some (Inl (False, live), s)
       else do {
         (_, s) \<leftarrow> nanosleep \<lparr>tv_sec = 0, tv_nsec = PT_MEDIA_RETRY_NS\<rparr> s;
         (ms, s) \<leftarrow> pt_ms_since E start s;
         Some (if ms < PT_MEDIA_REFRESH_MS then Inr () else Inl (False, live), s)
       }
     }
   })"

definition pt_refresh_ready_media :: "env \<Rightarrow> sys \<Rightarrow> (bool \<times> sys) option" where
  "pt_refresh_ready_media E s = do {
     (recovery, s) \<leftarrow> pt_recovery_required s;
     if recovery then do {
       (_, s) \<leftarrow> papplJobSetMessage ''Output uncertain: power-cycle printer, then restart server'' s;
       Some (False, s)
     }
     else if \<not> pt_live_uri (device_uri E) then Some (True, s)
     else do {
       (start, s) \<leftarrow> clock_gettime E s;
       ((ok, live), s) \<leftarrow> iterate (refresh_body E (device_uri E) start) () s;
       if ok then Some (True, s)
       else do {
         (_, s) \<leftarrow> papplJobSetReasons {JREASON_DOCUMENT_UNPRINTABLE_ERROR} {} s;
         (_, s) \<leftarrow> papplJobSetMessage
           (if lr_write_failed live then ''Status request to printer failed; nothing was printed''
            else ''Live tape status is not clean, readable, and supported'') s;
         Some (False, s)
       }
     }
   }"

definition receive_ready :: "u8 list \<Rightarrow> bool" where
  \<comment> \<open>a phase change to the receiving state\<close>
  "receive_ready packet \<longleftrightarrow> packet ! 18 = 6 \<and> packet ! 19 = 0 \<and> packet ! 20 = 0 \<and> packet ! 21 = 0"

definition await_verdict :: "nat \<Rightarrow> u8 list \<Rightarrow> (bool \<times> string) + u8 list \<times> nat" where
  \<comment> \<open>what the loop does with a complete packet\<close>
  "await_verdict msize packet = (case pt_parse_status packet of
       None \<Rightarrow> Inl (False, snprintf msize ''printer reported invalid status after printing'')
     | Some st \<Rightarrow>
         if st_error st \<noteq> 0 then
           Inl (False, snprintf msize (''printer reported error 0x'' @ fmt_04x (st_error st) @ '' after printing''))
         else if receive_ready packet then Inl (True, [])
         else Inr (packet, 0))"

definition await_body ::
  "env \<Rightarrow> string option \<Rightarrow> bool \<Rightarrow> nat \<Rightarrow> timespec \<Rightarrow> u8 list \<times> nat \<Rightarrow> sys
   \<Rightarrow> (((bool \<times> string) + u8 list \<times> nat) \<times> sys) option" where
  \<comment> \<open>the while loop over the packet and the number of its bytes received\<close>
  "await_body E uri job msize start = (\<lambda>(packet, used) s. do {
     (ms, s) \<leftarrow> pt_ms_since E start s;
     if ms < PT_PRINT_READY_TIMEOUT_MS then do {
       (canceled, s) \<leftarrow> (if job then papplJobIsCanceled E s else Some (False, s));
       if canceled then Some (Inl (False, []), s)
       else do {
         ((n, data), s) \<leftarrow> pt_read_status E uri (32 - used) s;
         packet \<leftarrow> blit packet used data;
         Some (if n < 0 then Inl (False, snprintf msize ''printer status read failed after printing'')
               else let used = used + nat n in
                 if used < 32 then Inr (packet, used) else await_verdict msize packet, s)
       }
     }
     else Some (Inl (False, snprintf msize ''printer did not become ready after printing''), s)
   })"

definition pt_await_ready :: "env \<Rightarrow> bool \<Rightarrow> nat \<Rightarrow> sys \<Rightarrow> ((bool \<times> string) \<times> sys) option" where
  \<comment> \<open>\<open>job\<close> says that a job is given; the second result is the message\<close>
  "pt_await_ready E job msize s =
    (if \<not> pt_live_uri (device_uri E) then Some ((True, []), s)
     else do {
       (start, s) \<leftarrow> clock_gettime E s;
       iterate (await_body E (device_uri E) job msize start) (replicate 32 0, 0) s
     })"

definition pt_wait_ready :: "env \<Rightarrow> sys \<Rightarrow> (bool \<times> sys) option" where
  "pt_wait_ready E s = do {
     ((ok, message), s) \<leftarrow> pt_await_ready E True 64 s;
     if ok then Some (True, s)
     else do {
       (_, s) \<leftarrow> (if message \<noteq> [] then papplJobSetMessage message s else Some ((), s));
       Some (False, s)
     }
   }"

section \<open>The idle status callback\<close>

definition IPP_PSTATE_PROCESSING :: int where "IPP_PSTATE_PROCESSING = 4"

definition pt_idle_poll_due :: "env \<Rightarrow> sys \<Rightarrow> (bool \<times> sys) option" where
  "pt_idle_poll_due E s = do {
     st \<leftarrow> printer s;
     (due, s) \<leftarrow>
       (if ps_idle_poll_seconds st < 0 then Some (True, s)
        else if 0 < ps_idle_poll_seconds st then
          if \<not> ps_idle_polled st then Some (True, s)
          else do {
            (ms, s) \<leftarrow> pt_ms_since E (ps_last_idle_poll st) s;
            Some (ps_idle_poll_seconds st * 1000 \<le> ms, s)
          }
        else Some (False, s));
     if \<not> due then Some (False, s)
     else do {
       (now, s) \<leftarrow> clock_gettime E s;
       Some (True, s\<lparr>printer := Some (st\<lparr>ps_idle_polled := True, ps_last_idle_poll := now\<rparr>)\<rparr>)
     }
   }"

definition status_cb :: "env \<Rightarrow> sys \<Rightarrow> (bool \<times> sys) option" where
  "status_cb E s = do {
     (state, s) \<leftarrow> papplPrinterGetState E s;
     if state = IPP_PSTATE_PROCESSING then Some (True, s)
     else do {
       (recovery, s) \<leftarrow> pt_recovery_required s;
       if recovery \<or> \<not> pt_live_uri (device_uri E) then Some (True, s)
       else do {
         (due, s) \<leftarrow> pt_idle_poll_due E s;
         if \<not> due then Some (True, s)
         else do {
           st \<leftarrow> printer s;
           (count, s) \<leftarrow> (if pt_usb_is_uri (device_uri E)
             then pt_usb_count E (dev_vid (ps_model st)) (dev_pid (ps_model st)) s else Some (1, s));
           if count \<noteq> 1 then do {
             (_, s) \<leftarrow> papplPrinterSetReasons {REASON_OFFLINE} (PT_STATUS_REASONS - {REASON_OFFLINE}) s;
             let s = pt_set_media_confirmed False s;
             Some (True, if count = 0 then pt_chain_set False s else s)
           }
           else do {
             (opened, s) \<leftarrow> papplPrinterOpenDevice E s;
             if \<not> opened then do {
               (state, s) \<leftarrow> papplPrinterGetState E s;
               if state = IPP_PSTATE_PROCESSING then Some (True, s)
               else do {
                 (_, s) \<leftarrow> papplPrinterSetReasons {REASON_OFFLINE} (PT_STATUS_REASONS - {REASON_OFFLINE}) s;
                 Some (True, pt_set_media_confirmed False s)
               }
             }
             else do {
               (live, s) \<leftarrow> pt_read_live_tape E (device_uri E) s;
               (_, s) \<leftarrow> papplPrinterCloseDevice s;
               (_, s) \<leftarrow> pt_publish_tape E live s;
               Some (True, s)
             }
           }
         }
       }
     }
   }"

section \<open>What publishing does\<close>

datatype tape_condition = Tape_Unknown | Tape_Fault | Tape_None | Tape_Refused | Tape_Ready media_col
  \<comment> \<open>what a live read says about the cassette\<close>

definition tape_condition_of :: "env \<Rightarrow> hist \<Rightarrow> pt_live_read \<Rightarrow> tape_condition" where
  "tape_condition_of E h live =
    (if \<not> lr_parsed live then Tape_Unknown
     else if st_error (lr_st live) \<noteq> 0 then Tape_Fault
     else if tape_mm (lr_st live) = 0 then Tape_None
     else case media_col_for E (tape_mm (lr_st live)) 10000 (x_default E) of
       None \<Rightarrow> Tape_Refused
     | Some media \<Rightarrow> if set_ready_media E h media then Tape_Ready media else Tape_Refused)"

fun condition_reasons :: "tape_condition \<Rightarrow> preason set" where
  "condition_reasons Tape_Unknown = {REASON_OFFLINE}"
| "condition_reasons Tape_Fault = {REASON_OTHER}"
| "condition_reasons Tape_None = {REASON_MEDIA_EMPTY}"
| "condition_reasons Tape_Refused = {REASON_MEDIA_NEEDED, REASON_OTHER}"
| "condition_reasons (Tape_Ready media) = {}"

fun closes_run :: "int \<Rightarrow> tape_condition \<Rightarrow> bool" where
  \<comment> \<open>the cassette is gone, or its width is not the published one\<close>
  "closes_run old Tape_None = True"
| "closes_run old (Tape_Ready media) = (size_width media \<noteq> old)"
| "closes_run old _ = False"

fun is_ready :: "tape_condition \<Rightarrow> bool" where
  "is_ready (Tape_Ready media) = True"
| "is_ready _ = False"

definition media_confirmed_of :: "sys \<Rightarrow> bool option" where
  "media_confirmed_of s = map_option ps_media_confirmed (printer s)"

lemma media_confirmed_simps [simp]:
  "media_confirmed_of (note_event e s) = media_confirmed_of s"
  "media_confirmed_of (pt_chain_set c s) = media_confirmed_of s"
  "media_confirmed_of (pt_set_media_confirmed m s) = map_option (\<lambda>_. m) (media_confirmed_of s)"
  by (simp_all add: media_confirmed_of_def pt_chain_set_def pt_set_media_confirmed_def option.map_comp comp_def
      cong: option.map_cong) (cases "printer s"; auto)

lemma media_col_width: "media_col_for E mm l dpi = Some m \<Longrightarrow> size_width m = mm * 100 \<and> mm \<in> {6, 9, 12, 18, 24} \<and> dpi = 180"
  using geometry_mm by (auto simp: media_col_for_def split: if_splits)

lemma publish_observes:
  "returns (pt_publish_tape E live s) (\<lambda>ok s'. observes s s' \<and> (ok \<longleftrightarrow> is_ready (tape_condition_of E (trace s) live)))"
  by (auto simp: pt_publish_tape_def publish_fault_def tape_condition_of_def pappl_defs split: option.split)

lemma ready_tape:
  "is_ready (tape_condition_of E h live) \<Longrightarrow>
     lr_parsed live \<and> st_error (lr_st live) = 0 \<and> tape_mm (lr_st live) \<in> {6, 9, 12, 18, 24}"
  using media_col_width by (fastforce simp: tape_condition_of_def split: if_splits option.splits)

text \<open>C14. Publishing a live read does exactly what the cassette's condition demands, in every case:
  it succeeds only for a clean, supported and accepted tape; it sets exactly the printer-state
  reasons of the condition and clears the other status reasons; the media counts as confirmed exactly
  on success; and a healthy run is closed exactly when the cassette is gone or its width differs from
  the published one, while an uncertain run stays uncertain. Nothing is printed.\<close>

theorem publish_tape_exact:
  "returns (pt_publish_tape E live s) (\<lambda>ok s'. let c = tape_condition_of E (trace s) live in
     ok = is_ready c
     \<and> hd (trace s') = Ev_Printer_Reasons (condition_reasons c) (PT_STATUS_REASONS - condition_reasons c)
     \<and> media_confirmed_of s' = map_option (\<lambda>_. ok) (media_confirmed_of s)
     \<and> pt_run_get s' = (if closes_run (ready_width E (trace s)) c \<and> pt_run_get s \<noteq> PT_RUN_UNCERTAIN
                         then PT_RUN_CLOSED else pt_run_get s)
     \<and> outputs (trace s') = outputs (trace s) \<and> batch s' = batch s)"
  by (auto simp: pt_publish_tape_def publish_fault_def tape_condition_of_def pappl_defs run_get_chain
      split: option.split)

section \<open>Time limits\<close>

lemma cdiv_lower: "- \<bar>a\<bar> \<le> cdiv a 1000000" for a :: int
proof (cases "0 \<le> a")
  case False
  then have "cdiv a 1000000 = - ((- a) div 1000000)"
    by (simp add: signed_divide_int_def sgn_if)
  moreover have "(- a) div 1000000 \<le> - a" using False by linarith
  ultimately show ?thesis using False by linarith
qed (simp add: pos_imp_zdiv_nonneg_iff)

lemma deadline_arith:
  fixes limit s0 n0 sec ns q :: int
  assumes "0 \<le> ns" "ns < 1000000000" "s0 + \<bar>limit\<bar> + \<bar>n0\<bar> + 1000000000 \<le> sec" "- \<bar>ns - n0\<bar> \<le> q"
  shows "limit \<le> (sec - s0) * 1000 + q"
proof -
  have "\<bar>ns - n0\<bar> \<le> 1000000000 + \<bar>n0\<bar>" using assms(1,2) by linarith
  then show ?thesis using assms(3,4) by (simp add: algebra_simps)
qed

lemma deadline_passes:
  assumes "clock_advances E"
  shows "\<exists>N. \<forall>h. N \<le> length h \<longrightarrow> limit \<le> ms_between start (clock E h)"
proof -
  define m where "m = tv_sec start + \<bar>limit\<bar> + \<bar>tv_nsec start\<bar> + 1000000000"
  obtain N where N: "\<And>h. N \<le> length h \<Longrightarrow> 0 \<le> tv_nsec (clock E h) \<and> tv_nsec (clock E h) < 1000000000
      \<and> m \<le> tv_sec (clock E h)"
    using assms unfolding clock_advances_def by blast
  have "limit \<le> ms_between start (clock E h)" if "N \<le> length h" for h
    using N [OF that] cdiv_lower [of "tv_nsec (clock E h) - tv_nsec start"]
    unfolding ms_between_def m_def by (intro deadline_arith) simp_all
  then show ?thesis by blast
qed

definition ms_now :: "env \<Rightarrow> timespec \<Rightarrow> 'a world_scheme \<Rightarrow> int" where
  "ms_now E start s = ms_between start (clock E (trace s))"

lemma ms_since_eq: "pt_ms_since E start s = Some (ms_now E start s, note_event (Ev_Clock (clock E (trace s))) s)"
  by (simp add: pt_ms_since_def clock_gettime_def answer_def ms_now_def Let_def)

section \<open>The job's tape confirmation\<close>

lemma live_wp:
  "observes s0 s \<Longrightarrow> (\<And>r s'. observes s0 s' \<Longrightarrow> silent s s' \<Longrightarrow> pt_read_live_tape E uri s = Some (r, s') \<Longrightarrow> Q r s')
   \<Longrightarrow> ensures (pt_read_live_tape E uri s) Q"
  using live_tape_silent [of E uri s] by (auto intro!: ensuresI dest: observes_silent)

lemma publish_wp:
  "observes s0 s \<Longrightarrow> (\<And>ok s'. observes s0 s' \<Longrightarrow> observes s s' \<Longrightarrow> ok \<longleftrightarrow> is_ready (tape_condition_of E (trace s) live) \<Longrightarrow> Q ok s')
   \<Longrightarrow> ensures (pt_publish_tape E live s) Q"
  using publish_observes [of E live s] by (auto simp: returns_iff intro!: ensuresI dest: observes_trans)

lemma recovery_required_result:
  "pt_recovery_required s = Some (pt_run_get s = PT_RUN_UNCERTAIN,
     if pt_run_get s = PT_RUN_UNCERTAIN then note_event (Ev_Printer_Reasons {REASON_OTHER} {}) s else s)"
  by (simp add: pt_recovery_required_def pappl_defs answer_def)

lemma refresh_body_observes:
  "observes s0 s \<Longrightarrow> ensures (refresh_body E uri start v s) (\<lambda>x s'. observes s0 s')"
  by (auto simp: refresh_body_def pappl_defs ms_since_eq intro!: live_wp [of s0] publish_wp [of s0])

lemma refresh_observes:
  "ensures (pt_refresh_ready_media E s) (\<lambda>ok s'. observes s s' \<and> (ok \<longrightarrow> pt_run_get s \<noteq> PT_RUN_UNCERTAIN))"
proof -
  have "ensures (iterate (refresh_body E uri start) () s') (\<lambda>r s''. observes s s'')" if "observes s s'" for uri start s'
    by (rule iterate_ensures [where Inv = "\<lambda>_. observes s", OF ensures_mono [OF refresh_body_observes]])
      (auto simp: that split: sum.split)
  note loop = ensures_mono [OF this]
  show ?thesis
    by (simp add: pt_refresh_ready_media_def recovery_required_result pappl_defs) (auto simp: pappl_defs intro!: loop)
qed

lemma publish_tracks: "ensures (pt_publish_tape E live s) (\<lambda>ok s'. tracks E s s')"
  by (auto simp: pt_publish_tape_def publish_fault_def pappl_defs tracks_def split: option.split)

lemma tracks_wp:
  assumes "tracks E s0 s"
  shows "(\<And>r s'. tracks E s0 s' \<Longrightarrow> Q r s') \<Longrightarrow> ensures (pt_read_live_tape E uri s) Q"
    and "(\<And>ok s'. tracks E s0 s' \<Longrightarrow> R ok s') \<Longrightarrow> ensures (pt_publish_tape E live s) R"
proof -
  show "(\<And>r s'. tracks E s0 s' \<Longrightarrow> Q r s') \<Longrightarrow> ensures (pt_read_live_tape E uri s) Q"
    by (rule ensures_mono [OF live_tape_silent]) (blast intro: tracks_trans [OF assms] silent_tracks)
  show "(\<And>ok s'. tracks E s0 s' \<Longrightarrow> R ok s') \<Longrightarrow> ensures (pt_publish_tape E live s) R"
    by (rule ensures_mono [OF publish_tracks]) (blast intro: tracks_trans [OF assms])
qed

lemma refresh_tracks: "ensures (pt_refresh_ready_media E s) (\<lambda>ok s'. tracks E s s')"
proof -
  have body: "ensures (refresh_body E uri start v s') (\<lambda>x s''. tracks E s s'')" if "tracks E s s'" for uri start v s'
    using that by (auto simp: refresh_body_def pappl_defs ms_since_eq intro!: tracks_wp)
  have "ensures (iterate (refresh_body E uri start) () s') (\<lambda>r s''. tracks E s s'')" if "tracks E s s'" for uri start s'
    by (rule iterate_ensures [where Inv = "\<lambda>_. tracks E s", OF ensures_mono [OF body]])
      (auto simp: that split: sum.split)
  note loop = ensures_mono [OF this]
  show ?thesis
    by (simp add: pt_refresh_ready_media_def recovery_required_result pappl_defs) (auto simp: pappl_defs intro!: loop)
qed

lemma refresh_body_total:
  assumes "reads_end E" "link_matches uri (conn s)" and N: "\<And>h. N \<le> length h \<Longrightarrow> PT_MEDIA_REFRESH_MS \<le> ms_between start (clock E h)"
  shows "returns (refresh_body E uri start v s) (\<lambda>x s'. case x of Inl r \<Rightarrow> True
     | Inr _ \<Rightarrow> conn s' = conn s \<and> N - length (trace s') < N - length (trace s))"
proof -
  obtain live s1 where r: "pt_read_live_tape E uri s = Some (live, s1)" "silent s s1"
    using live_tape_total [OF assms(1,2)] by (auto simp: returns_iff)
  obtain ok s2 where p: "pt_publish_tape E live s1 = Some (ok, s2)" "observes s1 s2"
    using publish_observes [of E live s1] by (auto simp: returns_iff)
  have "conn s2 = conn s" "length (trace s) \<le> length (trace s2)"
    using r(2) p(2) by (auto simp: silent_def observes_def dest: extends_length) (simp add: extends_def)
  moreover have "ms_now E start s' < PT_MEDIA_REFRESH_MS \<Longrightarrow> length (trace s') < N" for s' :: sys
    using N [of "trace s'"] by (auto simp: ms_now_def not_le[symmetric])
  note this [of "note_event e1 (note_event e2 s2)" for e1 e2]
  ultimately show ?thesis
    using r(1) p(1) by (auto simp: refresh_body_def pappl_defs answer_def ms_since_eq) fastforce
qed

lemma refresh_total:
  assumes "reads_end E" "clock_advances E" "link_matches (device_uri E) (conn s)"
  shows "returns (pt_refresh_ready_media E s) (\<lambda>ok s'. True)"
proof -
  have "returns (iterate (refresh_body E (device_uri E) start) () s') (\<lambda>r s''. True)"
    if "conn s' = conn s" for start s'
  proof -
    obtain N where N: "\<And>h. N \<le> length h \<Longrightarrow> PT_MEDIA_REFRESH_MS \<le> ms_between start (clock E h)"
      using deadline_passes [OF assms(2)] by blast
    show ?thesis
      by (rule iterate_returns [where Inv = "\<lambda>_ s''. conn s'' = conn s" and m = "\<lambda>_ s''. N - length (trace s'')"],
          rule returns_mono [OF refresh_body_total [OF assms(1) _ N]])
        (use assms(3) that in \<open>auto split: sum.split\<close>)
  qed
  note loop = returns_mono [OF this]
  show ?thesis
    by (simp add: pt_refresh_ready_media_def recovery_required_result pappl_defs) (auto simp: pappl_defs intro!: loop)
qed

section \<open>The wait for receive-ready\<close>

definition clean_block :: "u8 list \<Rightarrow> bool" where
  \<comment> \<open>a whole status block that reports no error\<close>
  "clean_block b \<longleftrightarrow> length b = 32 \<and> (\<exists>st. pt_parse_status b = Some st \<and> st_error st = 0)"

definition awaiting :: "u8 list \<Rightarrow> u8 list \<Rightarrow> bool" where
  \<comment> \<open>the bytes are clean blocks other than receive-ready, and the rest\<close>
  "awaiting bytes rest \<longleftrightarrow> (\<exists>bs. bytes = concat bs @ rest \<and> (\<forall>b\<in>set bs. clean_block b \<and> \<not> receive_ready b))"

lemma awaiting_append: "awaiting bytes rest \<Longrightarrow> awaiting (bytes @ data) (rest @ data)"
  by (auto simp: awaiting_def)

lemma awaiting_next:
  assumes "awaiting bytes b" "clean_block b" "\<not> receive_ready b"
  shows "awaiting bytes []"
proof -
  obtain bs where "bytes = concat bs @ b" "\<forall>b\<in>set bs. clean_block b \<and> \<not> receive_ready b"
    using assms(1) by (auto simp: awaiting_def)
  then show ?thesis using assms(2,3) unfolding awaiting_def by (intro exI [of _ "bs @ [b]"]) auto
qed

definition ready_stream :: "u8 list \<Rightarrow> bool" where
  \<comment> \<open>clean blocks, the last and only the last of which announces the receiving phase\<close>
  "ready_stream bytes \<longleftrightarrow> (\<exists>pkt. awaiting bytes pkt \<and> clean_block pkt \<and> receive_ready pkt)"

lemma awaiting_length:
  assumes "awaiting bytes rest"
  shows "\<exists>k. length bytes = 32 * k + length rest"
proof -
  obtain bs where "bytes = concat bs @ rest" "\<forall>b\<in>set bs. clean_block b" using assms by (auto simp: awaiting_def)
  moreover from this(2) have "length (concat bs) = 32 * length bs" by (induction bs) (auto simp: clean_block_def)
  ultimately show ?thesis by auto
qed

lemma awaiting_tail: "awaiting bytes rest \<Longrightarrow> drop (length bytes - length rest) bytes = rest"
  by (auto simp: awaiting_def)

lemma not_ready_block:
  assumes "awaiting bytes rest" "length rest = 32" "\<not> (clean_block rest \<and> receive_ready rest)"
  shows "\<not> ready_stream bytes"
proof
  assume "ready_stream bytes"
  then obtain pkt where pkt: "awaiting bytes pkt" "clean_block pkt" "receive_ready pkt" by (auto simp: ready_stream_def)
  then have "length pkt = 32" by (simp add: clean_block_def)
  then have "pkt = rest" using awaiting_tail [OF pkt(1)] awaiting_tail [OF assms(1)] assms(2) by simp
  then show False using assms(3) pkt(2,3) by simp
qed

lemma not_ready_part:
  assumes "awaiting bytes rest" "length rest < 32"
  shows "\<not> ready_stream bytes"
proof
  assume r: "ready_stream bytes"
  then obtain pkt where pkt: "awaiting bytes pkt" "length pkt = 32" by (auto simp: ready_stream_def clean_block_def)
  obtain k' where "length bytes = 32 * k' + 32" using awaiting_length [OF pkt(1)] unfolding pkt(2) by blast
  then have b: "length bytes mod 32 = 0" "bytes \<noteq> []" by auto
  obtain k where "length bytes = 32 * k + length rest" using awaiting_length [OF assms(1)] by blast
  then have "length rest = 0" using b(1) assms(2) by simp
  then have len: "rest = []" "bytes \<noteq> []" using b(2) by simp_all
  then obtain bs where "bytes = concat bs" "\<forall>b\<in>set bs. clean_block b \<and> \<not> receive_ready b"
    using assms(1) unfolding awaiting_def by auto
  moreover from this(1) len(2) obtain cs c where "bs = cs @ [c]" by (cases bs rule: rev_cases) auto
  ultimately have "awaiting bytes c" "length c = 32" "\<not> receive_ready c" by (auto simp: awaiting_def clean_block_def)
  then show False using not_ready_block r by blast
qed

definition read_failed :: "env \<Rightarrow> string option \<Rightarrow> sys \<Rightarrow> bool" where
  \<comment> \<open>the last thing that happened is a status read that failed\<close>
  "read_failed E uri s \<longleftrightarrow> (\<exists>s1 k n data. pt_read_status E uri k s1 = Some ((n, data), s) \<and> n < 0)"

definition await_inv :: "sys \<Rightarrow> u8 list \<times> nat \<Rightarrow> sys \<Rightarrow> bool" where
  "await_inv s0 v s \<longleftrightarrow> (case v of (packet, used) \<Rightarrow> length packet = 32 \<and> used < 32 \<and> silent s0 s
     \<and> (\<exists>new. replies (trace s) = replies (trace s0) @ new \<and> awaiting new (take used packet)))"

definition await_done :: "env \<Rightarrow> string option \<Rightarrow> bool \<Rightarrow> nat \<Rightarrow> sys \<Rightarrow> bool \<times> string \<Rightarrow> sys \<Rightarrow> bool" where
  "await_done E uri job msize s0 r s \<longleftrightarrow> (case r of (ok, message) \<Rightarrow> silent s0 s
     \<and> (\<not> ok \<longrightarrow> read_failed E uri s \<or> (\<exists>new. replies (trace s) = replies (trace s0) @ new \<and> \<not> ready_stream new))
     \<and> (ok \<longrightarrow> message = [] \<and> (\<exists>new pkt. replies (trace s) = replies (trace s0) @ new \<and> awaiting new pkt
                 \<and> clean_block pkt \<and> receive_ready pkt))
     \<and> (\<not> ok \<and> message = [] \<and> 1 < msize \<longrightarrow> job \<and> hd (trace s) = Ev_Job_Canceled True))"

lemma snprintf_nonempty: "snprintf n s = [] \<longleftrightarrow> n \<le> 1 \<or> s = []"
  by (auto simp: snprintf_def)

lemma ensures_printer: "ensures (Option.bind (printer s) k) Q \<longleftrightarrow> (\<forall>st. printer s = Some st \<longrightarrow> ensures (k st) Q)"
  by (cases "printer s") simp_all

lemma await_packet:
  assumes inv: "await_inv s0 (packet, used) s" and sil: "silent s s1" and same: "replies (trace s1) = replies (trace s)"
    and rd: "pt_read_status E uri (32 - used) s1 = Some ((n, data), s2)"
    and b: "blit packet used data = Some packet'"
  shows "silent s0 s2" "length packet' = 32" "n < 0 \<or> n = int (length data)" "used + length data \<le> 32"
    "\<exists>new. replies (trace s2) = replies (trace s0) @ new \<and> awaiting new (take (used + length data) packet')"
proof -
  note r = live_reader.rd_all [OF rd]
  have len: "length packet = 32" "used < 32" and "silent s0 s" using inv by (simp_all add: await_inv_def)
  then show "silent s0 s2" using sil read_only_silent [OF r(2)] silent_trans by blast
  show "length packet' = 32" using blit_length [OF b] len by simp
  show "n < 0 \<or> n = int (length data)" by (rule r(1))
  show "used + length data \<le> 32" using b len by (simp add: blit_def split: if_splits)
  have "take (used + length data) packet' = take used packet @ data" using take_blit [OF b] len by simp
  then show "\<exists>new. replies (trace s2) = replies (trace s0) @ new \<and> awaiting new (take (used + length data) packet')"
    using inv r(3) same awaiting_append by (fastforce simp: await_inv_def)
qed

lemma await_body_inv:
  assumes "await_inv s0 v s"
  shows "ensures (await_body E uri job msize start v s)
    (\<lambda>x s'. case x of Inl r \<Rightarrow> await_done E uri job msize s0 r s' | Inr v' \<Rightarrow> await_inv s0 v' s')"
proof -
  obtain packet used where v: "v = (packet, used)" by (cases v)
  have sil: "silent s0 s" using assms v by (simp add: await_inv_def)
  have read: "ensures (do {
         ((n, data), s) \<leftarrow> pt_read_status E uri (32 - used) s1;
         packet \<leftarrow> blit packet used data;
         Some (if n < 0 then Inl (False, snprintf msize ''printer status read failed after printing'')
               else let used = used + nat n in
                 if used < 32 then Inr (packet, used) else await_verdict msize packet, s)
       }) (\<lambda>x s'. case x of Inl r \<Rightarrow> await_done E uri job msize s0 r s' | Inr v' \<Rightarrow> await_inv s0 v' s')"
    if "silent s s1" "replies (trace s1) = replies (trace s)" for s1
  proof (rule ensuresI)
    fix x s'
    assume "(do {
         ((n, data), s) \<leftarrow> pt_read_status E uri (32 - used) s1;
         packet \<leftarrow> blit packet used data;
         Some (if n < 0 then Inl (False, snprintf msize ''printer status read failed after printing'')
               else let used = used + nat n in
                 if used < 32 then Inr (packet, used) else await_verdict msize packet, s)
       }) = Some (x, s')"
    then obtain n data packet' where r: "pt_read_status E uri (32 - used) s1 = Some ((n, data), s')"
      and b: "blit packet used data = Some packet'"
      and x: "x = (if n < 0 then Inl (False, snprintf msize ''printer status read failed after printing'')
               else let used = used + nat n in if used < 32 then Inr (packet', used) else await_verdict msize packet')"
      by (auto split: Option.bind_splits)
    note p = await_packet [OF assms [unfolded v] that r b]
    obtain new where new: "replies (trace s') = replies (trace s0) @ new" "awaiting new (take (used + length data) packet')"
      using p(5) by blast
    have verdict: "case await_verdict msize packet' of Inl r \<Rightarrow> await_done E uri job msize s0 r s' | Inr v' \<Rightarrow> await_inv s0 v' s'"
      if "used + length data = 32"
    proof -
      have aw: "awaiting new packet'" using new(2) that p(2) by simp
      have "clean_block packet'" if "pt_parse_status packet' = Some st" "st_error st = 0" for st
        using that p(2) by (auto simp: clean_block_def)
      then show ?thesis
        using new(1) aw awaiting_next [OF aw] p(1,2)
not_ready_block [OF aw p(2)]
        by (auto simp: await_verdict_def await_done_def await_inv_def snprintf_nonempty clean_block_def split: option.split)
    qed
    show "case x of Inl r \<Rightarrow> await_done E uri job msize s0 r s' | Inr v' \<Rightarrow> await_inv s0 v' s'"
    proof (cases "n < 0 \<or> used + length data < 32")
      case True
      then show ?thesis
        using x p new r by (auto simp: await_done_def await_inv_def snprintf_nonempty read_failed_def Let_def)
    next
      case False
      then show ?thesis using x verdict p(3,4) by (auto simp: Let_def)
    qed
  qed
  have part: "\<exists>new. replies (trace s) = replies (trace s0) @ new \<and> \<not> ready_stream new"
    using assms not_ready_part [of _ "take used packet"] by (auto simp: await_inv_def v)
  show ?thesis
    unfolding v await_body_def by (simp add: ms_since_eq pappl_defs) (auto simp: await_done_def snprintf_nonempty sil part intro!: read [simplified])
qed

lemma await_body_total:
  assumes "reads_end E" "link_matches uri (conn s)" and N: "\<And>h. N \<le> length h \<Longrightarrow> PT_PRINT_READY_TIMEOUT_MS \<le> ms_between start (clock E h)"
    and inv: "await_inv s0 v s"
  shows "returns (await_body E uri job msize start v s) (\<lambda>x s'. case x of Inl r \<Rightarrow> True
     | Inr _ \<Rightarrow> conn s' = conn s \<and> N - length (trace s') < N - length (trace s))"
proof -
  obtain packet used where v: "v = (packet, used)" "length packet = 32" "used < 32"
    using inv by (auto simp: await_inv_def)
  have limit: "ms_now E start s < PT_PRINT_READY_TIMEOUT_MS \<Longrightarrow> length (trace s) < N"
    using N [of "trace s"] by (auto simp: ms_now_def not_le[symmetric])
  have "returns (await_body E uri job msize start v s) (\<lambda>x s'. case x of Inl r \<Rightarrow> True
     | Inr _ \<Rightarrow> conn s' = conn s \<and> length (trace s) < length (trace s') \<and> ms_now E start s < PT_PRINT_READY_TIMEOUT_MS)"
  proof -
    have read: "\<exists>n data packet' s2. pt_read_status E uri (32 - used) s1 = Some ((n, data), s2)
        \<and> blit packet used data = Some packet' \<and> conn s2 = conn s \<and> length (trace s1) \<le> length (trace s2)"
      if same: "conn s1 = conn s" for s1
    proof -
      obtain n data s2 where r: "pt_read_status E uri (32 - used) s1 = Some ((n, data), s2)" "length data \<le> 32 - used"
        using live_link.rd_returns [of E uri s1 "32 - used"] assms(1,2) same by (auto simp: returns_iff)
      then show ?thesis
        using live_reader.rd_all(2) [OF r(1)] v same by (auto simp: blit_def extends_def)
    qed
    show ?thesis
      using read [of "note_event (Ev_Clock (clock E (trace s))) s"]
        read [of "note_event (Ev_Job_Canceled False) (note_event (Ev_Clock (clock E (trace s))) s)"] v
      by (auto simp: await_body_def ms_since_eq pappl_defs answer_def split: sum.split)
  qed
  then show ?thesis
    by (rule returns_mono) (use limit in \<open>auto split: sum.splits\<close>)
qed

lemma await_ensures:
  "ensures (pt_await_ready E job msize s) (\<lambda>r s'. (pt_live_uri (device_uri E) \<longrightarrow> await_done E (device_uri E) job msize s r s')
     \<and> (\<not> pt_live_uri (device_uri E) \<longrightarrow> r = (True, []) \<and> s' = s))"
proof -
  have "ensures (iterate (await_body E uri job msize start) (replicate 32 0, 0) s') (await_done E uri job msize s)"
    if "silent s s'" "replies (trace s') = replies (trace s)" for uri start s'
    by (rule iterate_ensures [where Inv = "await_inv s", OF await_body_inv])
      (use that in \<open>auto simp: await_inv_def awaiting_def intro: exI [of _ "[]"]\<close>)
  note loop = ensures_mono [OF this]
  show ?thesis
    by (simp add: pt_await_ready_def pappl_defs) (auto intro!: loop)
qed

lemma await_total:
  assumes "reads_end E" "clock_advances E" "link_matches (device_uri E) (conn s)"
  shows "returns (pt_await_ready E job msize s) (\<lambda>ok s'. True)"
proof -
  have "returns (iterate (await_body E (device_uri E) job msize start) (replicate 32 0, 0) s') (\<lambda>r s''. True)"
    if "conn s' = conn s" for start s'
  proof -
    obtain N where N: "\<And>h. N \<le> length h \<Longrightarrow> PT_PRINT_READY_TIMEOUT_MS \<le> ms_between start (clock E h)"
      using deadline_passes [OF assms(2)] by blast
    have "returns (await_body E (device_uri E) job msize start v s'') (\<lambda>x s3. case x of Inl r \<Rightarrow> True
       | Inr v' \<Rightarrow> (await_inv s' v' s3 \<and> conn s3 = conn s) \<and> N - length (trace s3) < N - length (trace s''))"
      if "await_inv s' v s'' \<and> conn s'' = conn s" for v s''
      by (rule returns_mono [OF returns_conj_ensures [OF await_body_total [OF assms(1) _ N] await_body_inv]])
        (use that assms(3) in \<open>auto split: sum.splits\<close>)
    then show ?thesis
      by (rule iterate_returns [where m = "\<lambda>_ s''. N - length (trace s'')"])
        (auto simp: that await_inv_def awaiting_def intro: exI [of _ "[]"])
  qed
  note loop = returns_mono [OF this]
  show ?thesis
    by (simp add: pt_await_ready_def pappl_defs) (auto intro!: loop)
qed

section \<open>The bench printer becomes ready\<close>

lemma bench_packet_6:
  "take 32 (status_packet 6) = status_packet 6" "status_packet 6 \<noteq> []" "length (status_packet 6) = 32"
  "receive_ready (status_packet 6)"
  "pt_parse_status (status_packet 6) = Some \<lparr>tape_mm = 12, tape_px = 76, st_error = 0, raw = status_packet 6\<rparr>"
  by (simp_all add: status_packet_def pt_parse_status_def tape_px_cases receive_ready_def)

lemma bench_await:
  assumes "conn s = Some (Usb_Conn c)" "pending_reply (trace s) = status_packet 6"
  shows "\<exists>s'. pt_await_ready bench job 64 s = Some ((True, []), s') \<and> conn s' = conn s \<and> world.more s' = world.more s
    \<and> pending_reply (trace s') = [] \<and> bench_width (trace s') = bench_width (trace s)"
proof -
  have "\<exists>s'. iterate (await_body bench (Some ''ptouch://Brother/PT-P710BT'') job 64 (clock bench (trace s))) (replicate 32 0, 0)
      (note_event (Ev_Clock (clock bench (trace s))) s) = Some ((True, []), s') \<and> conn s' = conn s \<and> world.more s' = world.more s
      \<and> pending_reply (trace s') = [] \<and> bench_width (trace s') = bench_width (trace s)"
    using assms by (subst iterate.simps)
      (simp add: await_body_def ms_since_eq ms_now_def ms_between_def PT_PRINT_READY_TIMEOUT_MS_def bench_read Let_def
        blit_def await_verdict_def bench_packet_6 papplJobIsCanceled_def answer_def)
  then show ?thesis by (simp add: pt_await_ready_def clock_gettime_def answer_def Let_def)
qed

lemma bench_publish:
  "\<exists>s'. pt_publish_tape bench \<lparr>lr_n = 32, lr_parsed = True, lr_write_failed = False,
      lr_st = \<lparr>tape_mm = 12, tape_px = 76, st_error = 0, raw = r\<rparr>\<rparr> s = Some (True, s')
    \<and> conn s' = conn s \<and> batch s' = batch s \<and> pending_reply (trace s') = pending_reply (trace s)
    \<and> bench_width (trace s') = 1200 \<and> (bench_width (trace s) = 1200 \<longrightarrow> pt_run_get s' = pt_run_get s)"
  by (auto simp: pt_publish_tape_def media_col_for_def papplPrinterSetReadyMedia_def papplPrinterSetReasons_def
      answer_def Let_def)

lemma bench_live_publish:
  assumes "conn s = Some (Usb_Conn c)" "pending_reply (trace s) = []" "bench_width (trace s) = 1200"
  shows "\<exists>live s1 s2. pt_read_live_tape bench (device_uri bench) s = Some (live, s1)
    \<and> pt_publish_tape bench live s1 = Some (True, s2) \<and> conn s2 = conn s \<and> pending_reply (trace s2) = []
    \<and> bench_width (trace s2) = 1200 \<and> observes s s2 \<and> pt_run_get s2 = pt_run_get s"
proof -
  let ?live = "\<lparr>lr_n = 32, lr_parsed = True, lr_write_failed = False,
        lr_st = \<lparr>tape_mm = 12, tape_px = 76, st_error = 0, raw = status_packet 0\<rparr>\<rparr>"
  obtain s1 where s1: "pt_read_live_tape bench (device_uri bench) s = Some (?live, s1)" "conn s1 = conn s"
      "pending_reply (trace s1) = []" "bench_width (trace s1) = 1200"
    using bench_live_tape [OF assms(1,2)] assms(3) by auto
  have sil: "silent s s1" using live_tape_silent [of bench "device_uri bench" s] s1(1) by simp
  obtain s2 where s2: "pt_publish_tape bench ?live s1 = Some (True, s2)" "conn s2 = conn s1"
      "pending_reply (trace s2) = pending_reply (trace s1)" "bench_width (trace s2) = 1200"
      "bench_width (trace s1) = 1200 \<longrightarrow> pt_run_get s2 = pt_run_get s1"
    using bench_publish [of "status_packet 0" s1] by blast
  have "observes s1 s2" using publish_observes [of bench ?live s1] s2(1) by simp
  then have "observes s s2" using observes_trans silent_observes [OF sil] by blast
  then show ?thesis using s1 s2 silent_sys [OF sil] by auto
qed

section \<open>Properties\<close>

text \<open>C16. The wait for receive-ready believes only the printer (its callers give a message buffer of more than
  one byte). On a device URI without a status path (a
  socket) it reports ready at once and asks nothing. On any other it reports ready only when, in an unbroken
  stream from where the wait began, the printer sent whole 32-byte status blocks without error of which the
  last and only the last announces the change to the receiving phase; and conversely, when the bytes received
  are such a stream, it reports ready, unless the very read that brought the end of them failed. When it does
  not report ready it gives a reason, except that a canceled job ends it silently. It prints nothing.\<close>

theorem await_ready_exact:
  assumes "1 < msize"
  shows "ensures (pt_await_ready E job msize s) (\<lambda>(ok, message) s'.
    outputs (trace s') = outputs (trace s) \<and> pt_run_get s' = pt_run_get s
    \<and> (if \<not> pt_live_uri (device_uri E) then ok \<and> message = [] \<and> s' = s
       else (if ok then \<exists>new. replies (trace s') = replies (trace s) @ new \<and> ready_stream new
             else (\<not> (\<exists>new. replies (trace s') = replies (trace s) @ new \<and> ready_stream new)
                   \<or> read_failed E (device_uri E) s')
                  \<and> (message \<noteq> [] \<or> (job \<and> hd (trace s') = Ev_Job_Canceled True)))))"
  by (rule ensures_mono [OF await_ensures])
    (use assms in \<open>auto simp: await_done_def ready_stream_def silent_sys\<close>)

definition printed_sys :: sys where
  \<comment> \<open>the bench printer has just got a form feed\<close>
  "printed_sys = bench_sys\<lparr>trace := [Ev_Write pt_cmd_ff 1]\<rparr>"

theorem await_ready_exact_witness:
  "\<exists>s'. pt_await_ready bench True 64 printed_sys = Some ((True, []), s')
     \<and> ready_stream (replies (trace s'))"
proof -
  have "pt_cmd_ff \<noteq> pt_cmd_status_request" by (simp add: cmd_defs)
  then obtain s' where r: "pt_await_ready bench True 64 printed_sys = Some ((True, []), s')"
    using bench_await [of printed_sys bench_conn True] by (auto simp: printed_sys_def bench_sys_def)
  have "1 < (64 :: nat)" "replies (trace printed_sys) = []" by (simp_all add: printed_sys_def)
  from await_ready_exact [OF this(1), of bench True printed_sys] r this(2) show ?thesis by auto
qed

text \<open>Neither the job's tape confirmation nor the wait for receive-ready can hang: if reads
  end, the monotonic clock advances and the link is of the URI's scheme, both return.\<close>

theorem bounded_waits:
  assumes "reads_end E" "clock_advances E" "link_matches (device_uri E) (conn s)"
  shows "returns (pt_refresh_ready_media E s) (\<lambda>ok s'. True) \<and> returns (pt_await_ready E job msize s) (\<lambda>r s'. True)"
  using refresh_total [OF assms] await_total [OF assms] by blast

theorem bounded_waits_witness:
  "returns (pt_refresh_ready_media bench bench_sys) (\<lambda>ok s'. True)
   \<and> returns (pt_await_ready bench True 64 printed_sys) (\<lambda>r s'. True)"
  using bounded_waits [of bench bench_sys] bounded_waits [of bench printed_sys]
  by (simp add: bench_clock_advances printed_sys_def)

definition idle_frame :: "sys \<Rightarrow> sys \<Rightarrow> bool" where
  "idle_frame s s' \<longleftrightarrow> batch s' = batch s \<and> model_of s' = model_of s \<and> outputs (trace s') = outputs (trace s)
     \<and> run_observed (pt_run_get s) (pt_run_get s') \<and> (\<exists>new. trace s' = new @ trace s)"

lemma idle_frame_refl [simp]: "idle_frame s s"
  by (simp add: idle_frame_def run_observed_def)

lemma idle_frame_observes: "idle_frame s s' \<Longrightarrow> observes s' s'' \<Longrightarrow> idle_frame s s''"
  by (auto simp: idle_frame_def observes_def run_observed_def)

lemma idle_frame_simps [simp]:
  "idle_frame s (s'\<lparr>conn := c\<rparr>) = idle_frame s s'"
  "idle_frame s (pt_set_media_confirmed m s') = idle_frame s s'"
  by (simp_all add: idle_frame_def pt_run_get_def pt_set_media_confirmed_def model_of_def
      option.case_eq_if option.map_sel option.map_comp comp_def)

lemma idle_frame_note [simp]: "no_output e \<Longrightarrow> idle_frame s s' \<Longrightarrow> idle_frame s (note_event e s')"
  by (auto simp: idle_frame_def no_output_def)

lemma idle_frame_chain [simp]: "idle_frame s s' \<Longrightarrow> idle_frame s (pt_chain_set False s')"
  by (auto simp: idle_frame_def run_observed_def run_get_chain)

lemma usb_count_silent: "ensures (pt_usb_count E v p s) (\<lambda>n s'. silent s s')"
  by (auto simp: pt_usb_count_def libusb_defs split: option.split prod.split)

lemma idle_wp:
  assumes "idle_frame s0 s"
  shows "(\<And>r s'. idle_frame s0 s' \<Longrightarrow> Q r s') \<Longrightarrow> ensures (pt_read_live_tape E uri s) Q"
    and "(\<And>n s'. idle_frame s0 s' \<Longrightarrow> R n s') \<Longrightarrow> ensures (pt_usb_count E v p s) R"
    and "(\<And>ok s'. idle_frame s0 s' \<Longrightarrow> P ok s') \<Longrightarrow> ensures (pt_publish_tape E live s) P"
    and "(\<And>due s'. idle_frame s0 s' \<Longrightarrow> P due s') \<Longrightarrow> ensures (pt_idle_poll_due E s) P"
    and "(\<And>ok s'. idle_frame s0 s' \<Longrightarrow> P ok s') \<Longrightarrow> ensures (papplPrinterOpenDevice E s) P"
proof -
  note step = idle_frame_observes [OF assms]
  show "(\<And>r s'. idle_frame s0 s' \<Longrightarrow> Q r s') \<Longrightarrow> ensures (pt_read_live_tape E uri s) Q"
    by (rule ensures_mono [OF live_tape_silent]) (blast intro: step silent_observes)
  show "(\<And>n s'. idle_frame s0 s' \<Longrightarrow> R n s') \<Longrightarrow> ensures (pt_usb_count E v p s) R"
    by (rule ensures_mono [OF usb_count_silent]) (blast intro: step silent_observes)
  show "(\<And>ok s'. idle_frame s0 s' \<Longrightarrow> P ok s') \<Longrightarrow> ensures (pt_publish_tape E live s) P"
    by (rule ensures_mono [OF returns_ensures [OF publish_observes]]) (blast intro: step)
  have "ensures (pt_idle_poll_due E s) (\<lambda>due. idle_frame s0)"
    using assms by (cases "printer s") (auto simp: pt_idle_poll_due_def pappl_defs ms_since_eq idle_frame_def
        pt_run_get_def no_output_def model_of_def)
  then show "(\<And>due s'. idle_frame s0 s' \<Longrightarrow> P due s') \<Longrightarrow> ensures (pt_idle_poll_due E s) P"
    by (rule ensures_mono) blast
  show "(\<And>ok s'. idle_frame s0 s' \<Longrightarrow> P ok s') \<Longrightarrow> ensures (papplPrinterOpenDevice E s) P"
    using assms by (simp add: papplPrinterOpenDevice_def split: option.split)
qed

lemma status_cb_frame:
  "ensures (status_cb E s) (\<lambda>ok s'. ok \<and> idle_frame s s'
     \<and> (printer_state E (trace s) = IPP_PSTATE_PROCESSING \<longrightarrow> s' = note_event (Ev_Printer_State IPP_PSTATE_PROCESSING) s))"
proof (cases "printer_state E (trace s) = IPP_PSTATE_PROCESSING")
  case True
  then show ?thesis by (simp add: status_cb_def pappl_defs)
next
  case False
  then show ?thesis
    by (simp add: status_cb_def pappl_defs recovery_required_result)
      (auto simp: ensures_printer pappl_defs papplPrinterCloseDevice_def intro!: idle_wp [of s])
qed

text \<open>The idle status callback is harmless: while the printer is processing it does nothing
  but ask for the printer's state, and otherwise it prints nothing, leaves any job alone, never
  leaves the uncertain state and may only close a healthy run; it always reports success.\<close>

theorem status_cb_harmless:
  "ensures (status_cb E s) (\<lambda>ok s'. ok \<and> batch s' = batch s \<and> outputs (trace s') = outputs (trace s)
     \<and> (if printer_state E (trace s) = IPP_PSTATE_PROCESSING
        then s' = note_event (Ev_Printer_State IPP_PSTATE_PROCESSING) s
        else run_observed (pt_run_get s) (pt_run_get s')))"
  by (rule ensures_mono [OF status_cb_frame]) (simp add: idle_frame_def)

end
