(* ===== verification/Page_Geometry.thy ===== *)
theory Page_Geometry
  imports Bench
begin

unbundle bit_operations_syntax

text \<open>
  \<^verbatim>\<open>src/driver.c\<close>, the geometry of a page: which tape a raster header fits, and the margins of that
  tape. The filter for PNG files resolves its margins with the same function.
\<close>

record pt_options =
  \<comment> \<open>the members of \<^verbatim>\<open>pappl_pr_options_t\<close> the driver reads or writes\<close>
  cups_width :: u32
  cups_height :: u32
  hw_res_x :: u32
  hw_res_y :: u32
  bits_per_pixel :: u32
  image_box_left :: u32
  image_box_right :: u32
  image_box_top :: u32
  image_box_bottom :: u32
  page_size_y :: u32 \<comment> \<open>\<^verbatim>\<open>PageSize[1]\<close>\<close>
  cups_page_size_y :: "int \<times> int" \<comment> \<open>\<^verbatim>\<open>cupsPageSize[1]\<close>: the quotient whose nearest float is stored\<close>
  bounding_box_top :: u32 \<comment> \<open>\<^verbatim>\<open>ImagingBoundingBox[3]\<close>\<close>
  orientation_requested :: int
  print_scaling :: int
  o_media :: media_col

definition PT_ROLL_MIN_CENTIMM :: int where "PT_ROLL_MIN_CENTIMM = 500"
definition PT_ROLL_MAX_CENTIMM :: int where "PT_ROLL_MAX_CENTIMM = 30000"
definition PT_END_MARGIN_PX :: nat where "PT_END_MARGIN_PX = 14"

lemmas page_limits = PT_ROLL_MIN_CENTIMM_def PT_ROLL_MAX_CENTIMM_def PT_END_MARGIN_PX_def

definition pt_page_width_matches :: "pt_options \<Rightarrow> pt_geometry \<Rightarrow> int \<Rightarrow> bool" where
  "pt_page_width_matches o1 g mm \<longleftrightarrow>
     cups_width o1 = word_of_int (nominal_px g)
     \<or> (let width = size_width (o_media o1) in
          mm * 100 - 1 \<le> width \<and> width \<le> mm * 100 + 1
          \<and> cups_width o1 = word_of_int (cdiv (width * 180) 2540)
          \<and> word_of_int (right_px g) \<le> cups_width o1)"

definition pt_submitted_margin :: "env \<Rightarrow> string \<Rightarrow> bool" where
  "pt_submitted_margin E nm = (case job_attribute E ''media-col'' of
     None \<Rightarrow> False
   | Some col \<Rightarrow> ipp_value_tag E col = IPP_TAG_BEGIN_COLLECTION
       \<and> ipp_find E (ipp_collection E col 0) nm IPP_TAG_INTEGER \<noteq> None)"

definition resolve_for :: "env \<Rightarrow> pt_geometry \<Rightarrow> pt_options \<Rightarrow> pt_options" where
  \<comment> \<open>the margins and the image box, once the tape is found\<close>
  "resolve_for E g o1 =
    (let media = o_media o1;
         media = (if pt_submitted_margin E ''media-left-margin'' then media
                  else media\<lparr>left_margin := left_margin_centimm g\<rparr>);
         media = (if pt_submitted_margin E ''media-right-margin'' then media
                  else media\<lparr>right_margin := right_margin_centimm g\<rparr>)
     in o1\<lparr>o_media := media,
          image_box_left := word_of_int (left_margin media) * hw_res_x o1 div 2540,
          image_box_right := cups_width o1 - word_of_int (right_margin media) * hw_res_x o1 div 2540 - 1\<rparr>)"

fun resolve_widths :: "env \<Rightarrow> int list \<Rightarrow> pt_options \<Rightarrow> int \<times> pt_options" where
  "resolve_widths E [] o1 = (0, o1)"
| "resolve_widths E (mm # mms) o1 = (case pt_tape_geometry mm of
     None \<Rightarrow> resolve_widths E mms o1
   | Some g \<Rightarrow> if pt_page_width_matches o1 g mm then (mm, resolve_for E g o1) else resolve_widths E mms o1)"

definition pt_resolve_page_margins :: "env \<Rightarrow> pt_options \<Rightarrow> int \<times> pt_options" where
  \<comment> \<open>the tape width (0 when none matches) and the options, which the code changes in place\<close>
  "pt_resolve_page_margins E = resolve_widths E pt_tape_mm"

lemma resolve_for_simps [simp]:
  "cups_width (resolve_for E g o1) = cups_width o1" "cups_height (resolve_for E g o1) = cups_height o1"
  "hw_res_x (resolve_for E g o1) = hw_res_x o1" "hw_res_y (resolve_for E g o1) = hw_res_y o1"
  "bits_per_pixel (resolve_for E g o1) = bits_per_pixel o1"
  "size_width (o_media (resolve_for E g o1)) = size_width (o_media o1)"
  by (simp_all add: resolve_for_def Let_def)

lemma resolve_margins:
  "left_margin (o_media (resolve_for E g o1)) =
     (if pt_submitted_margin E ''media-left-margin'' then left_margin (o_media o1) else left_margin_centimm g)"
  "right_margin (o_media (resolve_for E g o1)) =
     (if pt_submitted_margin E ''media-right-margin'' then right_margin (o_media o1) else right_margin_centimm g)"
  by (simp_all add: resolve_for_def Let_def)

text \<open>The width match in dots: a page fits a tape when its width is the nominal width of the tape, or
  one less where rounding of the size allows it.\<close>

definition fits :: "u32 \<Rightarrow> int \<Rightarrow> int \<Rightarrow> bool" where
  \<comment> \<open>the width match over plain numbers\<close>
  "fits w width mm \<longleftrightarrow> (\<exists>g. pt_tape_geometry mm = Some g \<and> (uint w = nominal_px g
     \<or> (mm * 100 - 1 \<le> width \<and> width \<le> mm * 100 + 1 \<and> uint w = width * 180 div 2540 \<and> right_px g \<le> uint w)))"

lemma u32_of_int: "0 \<le> k \<Longrightarrow> k < 4294967296 \<Longrightarrow> w = (word_of_int k :: u32) \<longleftrightarrow> uint w = k"
  by (auto simp: uint_word_of_int word_of_int_uint)

lemma u32_le: "0 \<le> k \<Longrightarrow> k < 4294967296 \<Longrightarrow> (word_of_int k :: u32) \<le> w \<longleftrightarrow> k \<le> uint w"
  by (simp add: word_le_def uint_word_of_int)

lemma width_matches_fits:
  assumes "pt_tape_geometry mm = Some g"
  shows "pt_page_width_matches o1 g mm \<longleftrightarrow> fits (cups_width o1) (size_width (o_media o1)) mm"
proof -
  have n: "0 \<le> nominal_px g" "nominal_px g < 2000" "0 \<le> right_px g" "right_px g < 2000" "0 < mm" "mm < 256"
    using tw.nominal_pos [OF assms] tw.nominal_bound [OF assms] tw.geo_window [OF assms] tw.geo_head [OF assms]
      tw.geo_nominal [OF assms] by auto
  have "cdiv (width * 180) 2540 = width * 180 div 2540 \<and> 0 \<le> width * 180 div 2540 \<and> width * 180 div 2540 < 4294967296"
    if "mm * 100 - 1 \<le> width" "width \<le> mm * 100 + 1" for width
    using that n by (auto intro!: cdiv_nonneg)
  then show ?thesis
    using n assms by (auto simp: pt_page_width_matches_def fits_def Let_def u32_of_int u32_le)
qed

lemma fits_iff:
  "fits w width mm \<longleftrightarrow> mm = 6 \<and> uint w = 42 \<or> mm = 9 \<and> uint w = 63
     \<or> mm = 12 \<and> (uint w = 85 \<or> width = 1199 \<and> uint w = 84)
     \<or> mm = 18 \<and> uint w = 127 \<or> mm = 24 \<and> uint w = 170" (is "_ \<longleftrightarrow> ?r")
proof
  assume f: "fits w width mm"
  then have mm: "mm \<in> {6, 9, 12, 18, 24}" using geometry_mm by (auto simp: fits_def)
  have d: "599 \<le> width \<Longrightarrow> width \<le> 601 \<Longrightarrow> width * 180 div 2540 = 42"
    "899 \<le> width \<Longrightarrow> width \<le> 901 \<Longrightarrow> width * 180 div 2540 = 63"
    "1799 \<le> width \<Longrightarrow> width \<le> 1801 \<Longrightarrow> width * 180 div 2540 = 127"
    "2399 \<le> width \<Longrightarrow> width \<le> 2401 \<Longrightarrow> width * 180 div 2540 = 170"
    "1200 \<le> width \<Longrightarrow> width \<le> 1201 \<Longrightarrow> width * 180 div 2540 = 85"
    by linarith+
  have "1199 \<le> width \<Longrightarrow> width = 1199 \<or> 1200 \<le> width" by linarith
  with mm d show ?r
    by (elim insertE emptyE) (use f in \<open>auto simp: fits_def\<close>)
qed (auto simp: fits_def)

lemma fits_unique: "fits w width mm \<Longrightarrow> fits w width mm' \<Longrightarrow> mm' = mm"
  by (auto simp: fits_iff)

lemma fits_covers:
  \<comment> \<open>a page that fits reaches to the last printable dot\<close>
  "fits w width mm \<Longrightarrow> pt_tape_geometry mm = Some g \<Longrightarrow> right_px g \<le> uint w"
  by (auto simp: fits_iff)

lemma resolve_widths_result:
  "resolve_widths E mms o1 = (mm, o2) \<Longrightarrow> 0 \<notin> set mms \<Longrightarrow>
    (if mm = 0 then o2 = o1 \<and> (\<forall>m\<in>set mms. \<not> fits (cups_width o1) (size_width (o_media o1)) m)
     else mm \<in> set mms \<and> fits (cups_width o1) (size_width (o_media o1)) mm
       \<and> (\<exists>g. pt_tape_geometry mm = Some g \<and> o2 = resolve_for E g o1))"
  by (induction mms) (auto simp: width_matches_fits split: option.splits if_splits, auto simp: fits_def)

lemma resolve_result:
  assumes "pt_resolve_page_margins E o1 = (mm, o2)"
  shows "if mm = 0 then o2 = o1 \<and> (\<forall>m. \<not> fits (cups_width o1) (size_width (o_media o1)) m)
     else fits (cups_width o1) (size_width (o_media o1)) mm
       \<and> (\<exists>g. pt_tape_geometry mm = Some g \<and> o2 = resolve_for E g o1)"
  using resolve_widths_result [OF assms [unfolded pt_resolve_page_margins_def]]
  by (auto simp: pt_tape_mm_def fits_iff split: if_splits)

section \<open>The selected window\<close>

definition page_left :: "pt_options \<Rightarrow> int" where
  "page_left o1 = cdiv (left_margin (o_media o1) * 180) 2540"

definition page_span :: "pt_options \<Rightarrow> int" where
  "page_span o1 = sint (cups_width o1) - cdiv ((left_margin (o_media o1) + right_margin (o_media o1)) * 180) 2540"

definition margins_defined :: "pt_options \<Rightarrow> bool" where
  \<comment> \<open>the margin arithmetic of \<^verbatim>\<open>r_startpage\<close> stays in the range of \<^verbatim>\<open>int\<close>\<close>
  "margins_defined o1 \<longleftrightarrow> int32_ok (left_margin (o_media o1) * 180)
     \<and> int32_ok (left_margin (o_media o1) + right_margin (o_media o1))
     \<and> int32_ok ((left_margin (o_media o1) + right_margin (o_media o1)) * 180)
     \<and> int32_ok (page_span o1) \<and> int32_ok (page_left o1 + page_span o1)"

definition window_ok :: "pt_options \<Rightarrow> pt_geometry \<Rightarrow> bool" where
  "window_ok o1 g \<longleftrightarrow> \<not> (page_left o1 < left_px g \<or> page_span o1 \<le> 0 \<or> right_px g < page_left o1 + page_span o1)"

lemma sint_small: "uint (w :: u32) < 2147483648 \<Longrightarrow> sint w = uint w"
proof -
  assume "uint w < 2147483648"
  moreover have "- 2147483648 \<le> uint w" using uint_ge_0 [of w] by linarith
  ultimately show ?thesis using signed_take_bit_int_eq_self [of 31 "uint w"] by (simp add: sint_uint)
qed

text \<open>C21. Resolving a page's tape is deterministic and complete: the result is 0, with untouched
  options, exactly when the header fits no supported tape; otherwise it is the only tape the header
  fits, and only the margins the job did not submit are replaced by that tape's published ones.\<close>

theorem resolve_page_margins_exact:
  assumes "pt_resolve_page_margins E o1 = (mm, o2)"
  shows "if mm = 0 then o2 = o1 \<and> (\<forall>m. \<not> fits (cups_width o1) (size_width (o_media o1)) m)
     else (\<forall>m. fits (cups_width o1) (size_width (o_media o1)) m \<longleftrightarrow> m = mm)
       \<and> left_margin (o_media o2) = (if pt_submitted_margin E ''media-left-margin'' then left_margin (o_media o1)
            else left_margin_centimm (the (pt_tape_geometry mm)))
       \<and> right_margin (o_media o2) = (if pt_submitted_margin E ''media-right-margin'' then right_margin (o_media o1)
            else right_margin_centimm (the (pt_tape_geometry mm)))"
proof (cases "mm = 0")
  case False
  then obtain g where "fits (cups_width o1) (size_width (o_media o1)) mm" "pt_tape_geometry mm = Some g" "o2 = resolve_for E g o1"
    using resolve_result [OF assms] by auto
  then show ?thesis using False fits_unique by (auto simp: resolve_margins)
qed (use resolve_result [OF assms] in simp)

text \<open>C22. Inherited margins always print: a page that fits a tape and submits no margin of its own
  passes the physical window check of \<^verbatim>\<open>r_startpage\<close> on that tape, without overflow, and starts
  exactly at the first printable dot.\<close>

theorem inherited_margins_accepted:
  assumes "pt_resolve_page_margins E o1 = (mm, o2)" "pt_tape_geometry mm = Some g"
    and "\<not> pt_submitted_margin E ''media-left-margin''" "\<not> pt_submitted_margin E ''media-right-margin''"
  shows "margins_defined o2 \<and> window_ok o2 g \<and> page_left o2 = left_px g"
proof -
  have "mm \<noteq> 0" using assms(2) geometry_mm by fastforce
  then have f: "fits (cups_width o1) (size_width (o_media o1)) mm" and o2: "o2 = resolve_for E g o1"
    using resolve_result [OF assms(1)] assms(2) by auto
  have m: "left_margin (o_media o2) = left_margin_centimm g" "right_margin (o_media o2) = right_margin_centimm g"
    "cups_width o2 = cups_width o1"
    using assms(3,4) by (simp_all add: o2 resolve_margins)
  have "uint (cups_width o1) < 2147483648" using f by (auto simp: fits_iff)
  then show ?thesis
    using f assms(2) unfolding margins_defined_def window_ok_def page_left_def page_span_def m
    by (auto simp: fits_iff sint_small int32_ok_def)
qed

definition bench_page :: pt_options where
  \<comment> \<open>a page for 12 mm tape, 35 rows\<close>
  "bench_page = \<lparr>cups_width = 85, cups_height = 35, hw_res_x = 180, hw_res_y = 180, bits_per_pixel = 1,
     image_box_left = 0, image_box_right = 0, image_box_top = 0, image_box_bottom = 0, page_size_y = 0,
     cups_page_size_y = (0, 1), bounding_box_top = 0, orientation_requested = 7, print_scaling = 16,
     o_media = \<lparr>size_width = 1200, size_length = 500, left_margin = 0, right_margin = 0, top_margin = 0,
       bottom_margin = 0, size_name = [], media_source = [], media_type = [], tracking_continuous = True\<rparr>\<rparr>"

lemma bench_page_resolves:
  "\<exists>o2. pt_resolve_page_margins bench bench_page = (12, o2) \<and> o2 = resolve_for bench (the (pt_tape_geometry 12)) bench_page"
  by (simp add: pt_resolve_page_margins_def pt_tape_mm_def bench_page_def width_matches_fits fits_iff geometry_other)

theorem resolve_page_margins_exact_witness:
  "\<exists>o2. pt_resolve_page_margins bench bench_page = (12, o2) \<and> left_margin (o_media o2) = 63"
proof -
  obtain o2 where r: "pt_resolve_page_margins bench bench_page = (12, o2)" using bench_page_resolves by blast
  show ?thesis using resolve_page_margins_exact [OF r] r by (simp add: pt_submitted_margin_def)
qed

theorem inherited_margins_accepted_witness:
  "\<exists>o2. pt_resolve_page_margins bench bench_page = (12, o2) \<and> page_left o2 = 4"
proof -
  obtain o2 where r: "pt_resolve_page_margins bench bench_page = (12, o2)" using bench_page_resolves by blast
  show ?thesis using inherited_margins_accepted [OF r geometry_12] r by (simp add: pt_submitted_margin_def)
qed

end
