(* ===== verification/Finishings.thy ===== *)
theory Finishings
  imports Bench Cutter
begin

text \<open>
  \<^verbatim>\<open>src/driver.c\<close>, the finishing selection of a job: the table of enums and templates and the policy
  a job's attributes resolve to. IPP attributes are pointers read through the accessors of the
  environment.
\<close>

record pt_finishing =
  fin_value :: int
  fin_name :: "string option"
  fin_mode :: pt_cut_mode

definition pt_finishings :: "pt_finishing list" where
  "pt_finishings =
    [\<lparr>fin_value = 3, fin_name = None, fin_mode = PT_CUT_NONE\<rparr>,
     \<lparr>fin_value = 11, fin_name = Some ''trim'', fin_mode = PT_CUT_EACH\<rparr>,
     \<lparr>fin_value = 60, fin_name = Some ''trim-after-pages'', fin_mode = PT_CUT_EACH\<rparr>,
     \<lparr>fin_value = 63, fin_name = Some ''trim-after-job'', fin_mode = PT_CUT_END\<rparr>,
     \<lparr>fin_value = 0, fin_name = Some ''ptouch-chain'', fin_mode = PT_CUT_CHAIN\<rparr>]"

definition pt_finishing_value :: "int \<Rightarrow> pt_cut_mode option" where
  "pt_finishing_value v =
    map_option fin_mode (List.find (\<lambda>f. fin_value f \<noteq> 0 \<and> fin_value f = v) pt_finishings)"

definition template_mode :: "string \<Rightarrow> pt_cut_mode option" where
  \<comment> \<open>the template loop of \<^verbatim>\<open>pt_job_policy\<close>\<close>
  "template_mode n = map_option fin_mode (List.find (\<lambda>f. fin_name f = Some n) pt_finishings)"

fun fold_modes :: "env \<Rightarrow> ref \<Rightarrow> nat list \<Rightarrow> pt_cut_mode \<Rightarrow> pt_cut_mode option" where
  \<comment> \<open>the loop over the enum values\<close>
  "fold_modes E values [] mode = Some mode"
| "fold_modes E values (i # is) mode =
    (case pt_finishing_value (ipp_integer E values i) of
       None \<Rightarrow> None
     | Some selected \<Rightarrow> fold_modes E values is
         (if selected = PT_CUT_EACH \<or> mode = PT_CUT_NONE then selected else mode))"

definition pt_job_policy :: "env \<Rightarrow> hist \<Rightarrow> pt_cut_policy option" where
  \<comment> \<open>\<open>None\<close> is the return value false\<close>
  "pt_job_policy E h =
    (let values = job_attribute E ''finishings''; collection = job_attribute E ''finishings-col'' in
     if values \<noteq> None \<and> collection \<noteq> None then None
     else case collection of
       Some c \<Rightarrow>
         if ipp_value_tag E c = IPP_TAG_NOVALUE then Some (pt_cut_policy_for PT_CUT_NONE)
         else if ipp_value_tag E c \<noteq> IPP_TAG_BEGIN_COLLECTION \<or> ipp_count E c \<noteq> 1 then None
         else (case ipp_find E (ipp_collection E c 0) ''finishing-template'' IPP_TAG_KEYWORD of
             None \<Rightarrow> None
           | Some template \<Rightarrow>
               (case ipp_string E template 0 of None \<Rightarrow> None
                | Some n \<Rightarrow> if ipp_count E template \<noteq> 1 then None
                            else map_option pt_cut_policy_for (template_mode n)))
     | None \<Rightarrow>
         (case values of
            Some v \<Rightarrow>
              if ipp_value_tag E v \<noteq> IPP_TAG_ENUM \<or> ipp_count E v < 1 then None
              else map_option pt_cut_policy_for (fold_modes E v [0..<nat (ipp_count E v)] PT_CUT_NONE)
          | None \<Rightarrow>
              (case driver_attributes E h of None \<Rightarrow> None
               | Some attrs \<Rightarrow>
                   (case ipp_find E attrs ''finishings-default'' IPP_TAG_ENUM of None \<Rightarrow> None
                    | Some d \<Rightarrow> if ipp_count E d \<noteq> 1 then None
                                else map_option pt_cut_policy_for (pt_finishing_value (ipp_integer E d 0))))))"

lemma finishing_value_cases:
  "pt_finishing_value v =
    (if v = 3 then Some PT_CUT_NONE else if v = 11 \<or> v = 60 then Some PT_CUT_EACH
     else if v = 63 then Some PT_CUT_END else None)"
  by (auto simp: pt_finishing_value_def pt_finishings_def)

lemma template_mode_cases:
  "template_mode n =
    (if n = ''trim'' \<or> n = ''trim-after-pages'' then Some PT_CUT_EACH
     else if n = ''trim-after-job'' then Some PT_CUT_END
     else if n = ''ptouch-chain'' then Some PT_CUT_CHAIN else None)"
  by (auto simp: template_mode_def pt_finishings_def)

definition combined_mode :: "int set \<Rightarrow> pt_cut_mode" where
  \<comment> \<open>what a set of supported enum values asks for\<close>
  "combined_mode vs = (if 11 \<in> vs \<or> 60 \<in> vs then PT_CUT_EACH else if 63 \<in> vs then PT_CUT_END else PT_CUT_NONE)"

definition join_mode :: "pt_cut_mode \<Rightarrow> pt_cut_mode \<Rightarrow> pt_cut_mode" where
  "join_mode m n = (if n = PT_CUT_EACH \<or> m = PT_CUT_NONE then n else m)"

lemma fold_modes_join:
  "m \<noteq> PT_CUT_CHAIN \<Longrightarrow>
   fold_modes E v is m =
    (if ipp_integer E v ` set is \<subseteq> {3, 11, 60, 63}
     then Some (join_mode m (combined_mode (ipp_integer E v ` set is))) else None)"
proof (induction "is" arbitrary: m)
  case Nil
  then show ?case by (cases m) (simp_all add: join_mode_def combined_mode_def)
next
  case (Cons i "is")
  then show ?case
    by (cases m) (auto simp: finishing_value_cases join_mode_def combined_mode_def)
qed

text \<open>Enum finishings resolve by what is requested, not by order or repetition: a request
  of supported values (3, 11, 60, 63) selects cuts between labels plus the final cut if 11 or 60 is
  among them, otherwise only the final cut if 63 is, otherwise none; 60 with 63 does not cut twice,
  3 beside others is ignored, and any unsupported value rejects the job.\<close>

theorem enum_finishings_resolve:
  assumes "job_attribute E ''finishings'' = Some v" "job_attribute E ''finishings-col'' = None"
    and "ipp_value_tag E v = IPP_TAG_ENUM" "1 \<le> ipp_count E v"
  shows "pt_job_policy E h =
    (let vs = ipp_integer E v ` {0..<nat (ipp_count E v)} in
     if vs \<subseteq> {3, 11, 60, 63} then Some (pt_cut_policy_for (combined_mode vs)) else None)"
  using assms by (simp add: pt_job_policy_def fold_modes_join join_mode_def Let_def)

theorem enum_finishings_resolve_witness:
  "pt_job_policy bench [] = Some (pt_cut_policy_for PT_CUT_EACH)"
  using enum_finishings_resolve [of bench 1 "[]"] by (simp add: combined_mode_def)

text \<open>The policy that cuts between labels and leaves the end open is reachable only through
  the collection template \<open>ptouch-chain\<close>: neither an enum nor the printer's default can select
  it, and a job that submits both representations is rejected.\<close>

theorem chain_only_by_template:
  "(pt_job_policy E h = Some (pt_cut_policy_for PT_CUT_CHAIN) \<longrightarrow>
     (\<exists>c t. job_attribute E ''finishings'' = None \<and> job_attribute E ''finishings-col'' = Some c
        \<and> ipp_find E (ipp_collection E c 0) ''finishing-template'' IPP_TAG_KEYWORD = Some t
        \<and> ipp_string E t 0 = Some ''ptouch-chain''))
   \<and> (job_attribute E ''finishings'' \<noteq> None \<and> job_attribute E ''finishings-col'' \<noteq> None
        \<longrightarrow> pt_job_policy E h = None)"
  by (auto simp: pt_job_policy_def fold_modes_join join_mode_def combined_mode_def policy_for_inj
      template_mode_cases finishing_value_cases Let_def split: option.splits if_splits)

definition chain_bench :: env where
  \<comment> \<open>a job that submits the collection template \<^verbatim>\<open>ptouch-chain\<close>\<close>
  "chain_bench = bench\<lparr>
     job_attribute := (\<lambda>n. if n = ''finishings-col'' then Some 2 else None),
     ipp_value_tag := (\<lambda>a. IPP_TAG_BEGIN_COLLECTION), ipp_collection := (\<lambda>a i. 5),
     ipp_find := (\<lambda>c n t. Some 3), ipp_string := (\<lambda>a i. Some ''ptouch-chain'')\<rparr>"

theorem chain_only_by_template_witness:
  "pt_job_policy chain_bench [] = Some (pt_cut_policy_for PT_CUT_CHAIN)
   \<and> (\<exists>c t. job_attribute chain_bench ''finishings-col'' = Some c
        \<and> ipp_find chain_bench (ipp_collection chain_bench c 0) ''finishing-template'' IPP_TAG_KEYWORD = Some t
        \<and> ipp_string chain_bench t 0 = Some ''ptouch-chain'')"
proof -
  have "pt_job_policy chain_bench [] = Some (pt_cut_policy_for PT_CUT_CHAIN)"
    by (simp add: pt_job_policy_def chain_bench_def template_mode_cases)
  with chain_only_by_template [of chain_bench "[]"] show ?thesis by blast
qed

end
