(* ===== verification/Raster.thy ===== *)
theory Raster
  imports Prelude
begin

unbundle bit_operations_syntax

text \<open>
  \<^verbatim>\<open>src/raster.c\<close>, \<^verbatim>\<open>src/raster.h\<close>: packing a window of a scanline into the 128-dot raster line.
  \<open>None\<close> is a failed assertion or a read past the scanline.
\<close>

definition pack_bit :: "u8 list \<Rightarrow> nat \<Rightarrow> nat \<Rightarrow> nat \<Rightarrow> u8 list \<Rightarrow> u8 list option" where
  \<comment> \<open>one turn of the loop\<close>
  "pack_bit inp start offset i out =
    (let s = start + i in
     if s div 8 < length inp then
       (if drop_bit (7 - s mod 8) (inp ! (s div 8)) AND 1 \<noteq> 0
        then (let p = offset + i in
              Some (out[15 - p div 8 := (out ! (15 - p div 8)) OR push_bit (p mod 8) 1]))
        else Some out)
     else None)"

fun pack_loop :: "u8 list \<Rightarrow> nat \<Rightarrow> nat \<Rightarrow> nat \<Rightarrow> nat \<Rightarrow> u8 list \<Rightarrow> u8 list option" where
  "pack_loop inp start offset i 0 out = Some out"
| "pack_loop inp start offset i (Suc k) out = do {
     out \<leftarrow> pack_bit inp start offset i out;
     pack_loop inp start offset (Suc i) k out
   }"

definition pt_pack_window :: "u8 list \<Rightarrow> int \<Rightarrow> int \<Rightarrow> u8 list option" where
  "pt_pack_window inp start width =
    (if \<not> (0 \<le> start \<and> 0 \<le> width \<and> width \<le> 128) then None
     else pack_loop inp (nat start) (nat (cdiv (128 - width) 2)) 0 (nat width) (replicate 16 0))"

definition pt_pack_line :: "u8 list \<Rightarrow> int \<Rightarrow> u8 list option" where
  "pt_pack_line inp width = pt_pack_window inp 0 width"

section \<open>What a packed line means\<close>

definition scan_dot :: "u8 list \<Rightarrow> nat \<Rightarrow> bool" where
  \<comment> \<open>dot \<open>s\<close> of a scanline, most significant bit first\<close>
  "scan_dot inp s \<longleftrightarrow> bit (inp ! (s div 8)) (7 - s mod 8)"

definition head_dot :: "u8 list \<Rightarrow> nat \<Rightarrow> bool" where
  \<comment> \<open>dot \<open>p\<close> of the print head in a packed line\<close>
  "head_dot out p \<longleftrightarrow> bit (out ! (15 - p div 8)) (p mod 8)"

lemma head_dot_zero [simp]: "p < 128 \<Longrightarrow> \<not> head_dot (replicate 16 0) p"
  by (simp add: head_dot_def)

lemma head_dot_set:
  assumes "length out = 16" "p < 128" "q < 128"
  shows "head_dot (out[15 - p div 8 := (out ! (15 - p div 8)) OR push_bit (p mod 8) 1]) q
    \<longleftrightarrow> head_dot out q \<or> q = p"
proof -
  have p: "15 - p div 8 < 16" "p div 8 \<le> 15" "q div 8 \<le> 15" using assms by auto
  have bit: "bit (push_bit (p mod 8) 1 :: u8) m \<longleftrightarrow> m = p mod 8" if "m < 8" for m
    using that by (auto simp: bit_simps)
  have "15 - p div 8 = 15 - q div 8 \<longleftrightarrow> p div 8 = q div 8" using p by arith
  moreover have "q = p \<longleftrightarrow> p div 8 = q div 8 \<and> q mod 8 = p mod 8"
    by (metis div_mult_mod_eq)
  ultimately show ?thesis
    using assms p bit [of "q mod 8"] by (auto simp: head_dot_def nth_list_update bit_or_iff)
qed

lemma scan_test: "drop_bit n (w :: u8) AND 1 \<noteq> 0 \<longleftrightarrow> bit w n"
  by (simp add: bit_iff_odd_drop_bit and_one_eq odd_iff_mod_2_eq_one)

lemma pack_bit_Some_iff: "(\<exists>out'. pack_bit inp start offset i out = Some out') \<longleftrightarrow> (start + i) div 8 < length inp"
  by (simp add: pack_bit_def Let_def)

lemma pack_bit_dots:
  assumes "pack_bit inp start offset i out = Some out'" "length out = 16" "offset + i < 128" "q < 128"
  shows "length out' = 16 \<and> (head_dot out' q \<longleftrightarrow> head_dot out q \<or> (q = offset + i \<and> scan_dot inp (start + i)))"
  using assms head_dot_set [of out "offset + i" q]
  by (auto simp: pack_bit_def Let_def scan_test scan_dot_def split: if_splits)

lemma pack_loop_dots:
  assumes "pack_loop inp start offset i k out = Some out'" "length out = 16" "offset + i + k \<le> 128" "q < 128"
  shows "length out' = 16 \<and> (head_dot out' q \<longleftrightarrow>
    head_dot out q \<or> (offset + i \<le> q \<and> q < offset + i + k \<and> scan_dot inp (start + (q - offset))))"
  using assms
proof (induction k arbitrary: i out)
  case (Suc k)
  then obtain o1 where o1: "pack_bit inp start offset i out = Some o1"
    and rest: "pack_loop inp start offset (Suc i) k o1 = Some out'"
    by (auto simp: bind_eq_Some_conv)
  from pack_bit_dots [OF o1] Suc.prems
  have step: "length o1 = 16" "head_dot o1 q \<longleftrightarrow> head_dot out q \<or> (q = offset + i \<and> scan_dot inp (start + i))"
    by auto
  have later: "length out' = 16 \<and> (head_dot out' q \<longleftrightarrow> head_dot o1 q \<or>
      (offset + Suc i \<le> q \<and> q < offset + Suc i + k \<and> scan_dot inp (start + (q - offset))))"
    using Suc.IH [OF rest step(1)] Suc.prems by simp
  show ?case
  proof (cases "q = offset + i")
    case True
    then show ?thesis using later step(2) by simp
  next
    case False
    then have "offset + Suc i \<le> q \<longleftrightarrow> offset + i \<le> q" by auto
    with False show ?thesis using later step(2) by simp
  qed
qed auto

lemma pack_loop_Some_iff:
  "(\<exists>out'. pack_loop inp start offset i k out = Some out') \<longleftrightarrow> (\<forall>j<k. (start + i + j) div 8 < length inp)"
proof (induction k arbitrary: i out)
  case (Suc k)
  have "(\<forall>j<Suc k. (start + i + j) div 8 < length inp) \<longleftrightarrow>
      (start + i) div 8 < length inp \<and> (\<forall>j<k. (start + Suc i + j) div 8 < length inp)"
    by (simp add: All_less_Suc2)
  moreover have "(\<exists>out'. pack_loop inp start offset i (Suc k) out = Some out') \<longleftrightarrow>
      (start + i) div 8 < length inp \<and> (\<forall>j<k. (start + Suc i + j) div 8 < length inp)"
    using Suc.IH [of "Suc i"] pack_bit_Some_iff [of inp start offset i out]
    by (cases "pack_bit inp start offset i out") auto
  ultimately show ?case by simp
qed simp

lemma pack_window_exact:
  assumes "pt_pack_window inp start width = Some out"
  shows "length out = 16 \<and> (\<forall>p<128. head_dot out p \<longleftrightarrow>
    (128 - width) div 2 \<le> int p \<and> int p < (128 - width) div 2 + width
    \<and> scan_dot inp (nat (start + (int p - (128 - width) div 2))))"
proof -
  have range: "0 \<le> start" "0 \<le> width" "width \<le> 128"
    using assms by (auto simp: pt_pack_window_def split: if_splits)
  define offset where "offset = nat ((128 - width) div 2)"
  have off: "int offset = (128 - width) div 2" "offset + nat width \<le> 128"
    using range by (auto simp: offset_def)
  have loop: "pack_loop inp (nat start) offset 0 (nat width) (replicate 16 0) = Some out"
    using assms range by (simp add: pt_pack_window_def offset_def)
  have "length out = 16 \<and> (head_dot out p \<longleftrightarrow>
      offset \<le> p \<and> p < offset + nat width \<and> scan_dot inp (nat start + (p - offset)))" if "p < 128" for p
    using pack_loop_dots [OF loop _ _ that] off that by simp
  moreover have "nat start + (p - offset) = nat (start + (int p - int offset))" if "offset \<le> p" for p
    using range that by linarith
  moreover have "p < offset + nat width \<longleftrightarrow> int p < int offset + width" for p
    using range by linarith
  ultimately show ?thesis
    unfolding off(1) [symmetric] by (metis of_nat_le_iff zero_less_numeral)
qed

lemma pack_window_defined:
  "pt_pack_window inp start width \<noteq> None \<longleftrightarrow>
     0 \<le> start \<and> 0 \<le> width \<and> width \<le> 128 \<and> (width = 0 \<or> start + width \<le> 8 * int (length inp))"
proof (cases "0 \<le> start \<and> 0 \<le> width \<and> width \<le> 128")
  case True
  have "(\<forall>j<nat width. (nat start + j) div 8 < length inp) \<longleftrightarrow>
      width = 0 \<or> start + width \<le> 8 * int (length inp)" (is "?all \<longleftrightarrow> ?fit")
  proof
    assume ?all
    then have "width \<noteq> 0 \<Longrightarrow> (nat start + nat (width - 1)) div 8 < length inp"
      using True by auto
    then show ?fit using True by linarith
  next
    assume ?fit
    show ?all
    proof (intro allI impI)
      fix j
      assume j: "j < nat width"
      with \<open>?fit\<close> True have "nat start + j < 8 * length inp" by linarith
      then show "(nat start + j) div 8 < length inp" by linarith
    qed
  qed
  then show ?thesis
    using True pack_loop_Some_iff [of inp "nat start" "nat ((128 - width) div 2)" 0 "nat width"]
    by (simp add: pt_pack_window_def)
qed (auto simp: pt_pack_window_def)

section \<open>Properties\<close>

text \<open>C34. Packing is exact: in the packed line a head dot is black precisely when it lies in the
  centred window and the scanline dot it came from is black; every dot outside the window is
  white.\<close>

theorem pack_window_dots:
  assumes "pt_pack_window inp start width = Some out"
  shows "length out = 16 \<and> (\<forall>p<128. head_dot out p \<longleftrightarrow>
    (128 - width) div 2 \<le> int p \<and> int p < (128 - width) div 2 + width
    \<and> scan_dot inp (nat (start + (int p - (128 - width) div 2))))"
  by (rule pack_window_exact [OF assms])

theorem pack_window_dots_witness:
  "\<exists>out. pt_pack_window [0x80] 0 1 = Some out \<and> length out = 16"
proof -
  have "\<exists>out. pt_pack_window [0x80] 0 1 = Some out"
    by (simp add: pt_pack_window_def pack_bit_def)
  then show ?thesis using pack_window_dots [of "[0x80]" 0 1] by blast
qed

text \<open>Packing fails (a failed assertion, or a read past the scanline) exactly outside its
  contract: a negative start, a width outside 0 to 128, or a window that ends past the last dot of
  the scanline.\<close>

theorem pack_window_defined_iff:
  "pt_pack_window inp start width \<noteq> None \<longleftrightarrow>
     0 \<le> start \<and> 0 \<le> width \<and> width \<le> 128 \<and> (width = 0 \<or> start + width \<le> 8 * int (length inp))"
  by (rule pack_window_defined)

end
