(* ===== verification/Batch.thy ===== *)
theory Batch
  imports Tape_Status Page_Geometry Finishings Raster
begin

unbundle bit_operations_syntax

text \<open>
  \<^verbatim>\<open>src/driver.c\<close>, the raster callbacks of a job: \<^verbatim>\<open>r_startjob\<close>, \<^verbatim>\<open>r_startpage\<close>, \<^verbatim>\<open>r_writeline\<close>,
  \<^verbatim>\<open>r_endpage\<close>, \<^verbatim>\<open>r_endjob\<close>, and the two steps they share, printing the pending label and waiting for
  a tape. A chain \<open>a || b || c\<close> of writes is a list that stops at the first failing one.
\<close>

section \<open>Shared steps\<close>

fun job_writes :: "env \<Rightarrow> u8 list list \<Rightarrow> 'a world_scheme \<Rightarrow> (bool \<times> 'a world_scheme) option" where
  "job_writes E [] s = Some (True, s)"
| "job_writes E (buf # bufs) s = do {
     (ok, s) \<leftarrow> pt_job_write E buf s;
     if ok then job_writes E bufs s else Some (False, s)
   }"

definition fail :: "sys \<Rightarrow> (bool \<times> sys) option" where
  "fail s = Some (False, pt_fail_job s)"

definition pt_print_pending :: "env \<Rightarrow> bool \<Rightarrow> sys \<Rightarrow> (bool \<times> sys) option" where
  "pt_print_pending E final s = do {
     b \<leftarrow> batch s;
     let cut = final \<and> cut_at_end (b_policy b);
     (canceled, s) \<leftarrow> papplJobIsCanceled E s;
     if canceled then Some (False, s)
     else do {
       (ok, s) \<leftarrow> (if cut then pt_job_write E (pt_cmd_setadvanced 8) s else Some (True, s));
       if \<not> ok then Some (False, s)
       else do {
         (canceled, s) \<leftarrow> papplJobIsCanceled E s;
         if canceled then Some (False, s)
         else do {
           (ok, s) \<leftarrow> pt_job_write E (if cut then pt_cmd_eject else pt_cmd_ff) s;
           if \<not> ok then Some (False, s)
           else do {
             (ok, s) \<leftarrow> pt_wait_ready E s;
             if \<not> ok then Some (False, s)
             else do {
               let s = upd_batch (\<lambda>b. b\<lparr>b_pending := False\<rparr>) s;
               Some (True, pt_run_set (if cut then PT_RUN_CLOSED else PT_RUN_OPEN) s)
             }
           }
         }
       }
     }
   }"

definition PT_TAPE_WAIT_S :: int where "PT_TAPE_WAIT_S = 2"

definition wait_message :: "int \<Rightarrow> int \<Rightarrow> string" where
  "wait_message wanted loaded =
    (if loaded \<noteq> 0 then ''Waiting for '' @ fmt_d wanted @ '' mm tape; '' @ fmt_d loaded @ '' mm loaded''
     else ''Waiting for '' @ fmt_d wanted @ '' mm tape; no tape loaded'')"

definition wait_tape_body ::
  "env \<Rightarrow> string option \<Rightarrow> int \<Rightarrow> int \<Rightarrow> sys \<Rightarrow> ((bool + int) \<times> sys) option" where
  \<comment> \<open>the loop of \<^verbatim>\<open>pt_wait_for_tape\<close> over the width last seen\<close>
  "wait_tape_body E uri wanted = (\<lambda>loaded s. do {
     (canceled, s) \<leftarrow> papplJobIsCanceled E s;
     if canceled then Some (Inl False, s)
     else do {
       (live, s) \<leftarrow> pt_read_live_tape E uri s;
       (canceled, s) \<leftarrow> papplJobIsCanceled E s;
       if canceled then Some (Inl False, s)
       else if lr_n live < 0 then do {
         (_, s) \<leftarrow> papplJobSetMessage (''Cannot read loaded tape while waiting for '' @ fmt_d wanted @ '' mm tape'') s;
         Some (Inl False, s)
       }
       else do {
         (ok, s) \<leftarrow> pt_publish_tape E live s;
         if ok \<and> tape_mm (lr_st live) = wanted then do {
           let s = upd_batch (\<lambda>b. b\<lparr>b_tape_mm := word_of_int wanted\<rparr>) s;
           (_, s) \<leftarrow> papplJobSetMessage (''Loaded tape matches '' @ fmt_d wanted @ '' mm'') s;
           Some (Inl True, s)
         }
         else do {
           let loaded = (if lr_parsed live then tape_mm (lr_st live) else loaded);
           (_, s) \<leftarrow> papplPrinterSetReasons {REASON_MEDIA_NEEDED} {} s;
           (_, s) \<leftarrow> papplJobSetMessage (wait_message wanted loaded) s;
           (_, s) \<leftarrow> nanosleep \<lparr>tv_sec = PT_TAPE_WAIT_S, tv_nsec = 0\<rparr> s;
           Some (Inr loaded, s)
         }
       }
     }
   })"

definition pt_wait_for_tape :: "env \<Rightarrow> int \<Rightarrow> sys \<Rightarrow> (bool \<times> sys) option" where
  "pt_wait_for_tape E wanted s = do {
     b \<leftarrow> batch s;
     (matched, s) \<leftarrow> iterate (wait_tape_body E (device_uri E) wanted) (uint (b_tape_mm b)) s;
     if matched then Some (True, s)
     else do { (_, s) \<leftarrow> papplPrinterSetReasons {} {REASON_MEDIA_NEEDED} s; Some (False, s) }
   }"

section \<open>The callbacks\<close>

definition r_startjob :: "env \<Rightarrow> sys \<Rightarrow> (bool \<times> sys) option" where
  "r_startjob E s = do {
     (canceled, s) \<leftarrow> papplJobIsCanceled E s;
     if canceled then Some (False, s)
     else case pt_job_policy E (trace s) of
       None \<Rightarrow> do { (_, s) \<leftarrow> papplJobSetMessage ''Unsupported or conflicting finishing selection'' s; Some (False, s) }
     | Some policy \<Rightarrow>
         if (job_format E = Some ''image/pwg-raster'' \<or> job_format E = Some ''image/urf'') \<and> job_copies E \<noteq> 1
         then do {
           (_, s) \<leftarrow> papplJobSetMessage ''Raster batches require copies=1; include each label in the document'' s;
           Some (False, s)
         }
         else do {
           (recovery, s) \<leftarrow> pt_recovery_required s;
           if recovery then do {
             (_, s) \<leftarrow> papplJobSetMessage ''Output uncertain: power-cycle printer, then restart server'' s;
             Some (False, s)
           }
           else do {
             (ok, s) \<leftarrow> pt_refresh_ready_media E s;
             if \<not> ok then Some (False, s)
             else do {
               let width = ready_width E (trace s);
               (ok, s) \<leftarrow> alloc E s;
               if \<not> ok then Some (False, s)
               else Some (True, s\<lparr>batch := Some \<lparr>b_policy = policy, b_tape_mm = word_of_int (cdiv width 100),
                 b_first_label = True, b_page_active = False, b_pending = False, b_failed = False, b_page = None\<rparr>\<rparr>)
             }
           }
         }
   }"

definition tape_of_page :: "env \<Rightarrow> pt_options \<Rightarrow> int \<times> pt_options" where
  \<comment> \<open>the first check of \<^verbatim>\<open>r_startpage\<close>: 180 dpi, one bit, a supported length, then the tape of the width\<close>
  "tape_of_page E o1 =
    (if hw_res_x o1 = 180 \<and> hw_res_y o1 = 180 \<and> bits_per_pixel o1 = 1
        \<and> word_of_int (cdiv (PT_ROLL_MIN_CENTIMM * 180) 2540) \<le> cups_height o1
        \<and> cups_height o1 \<le> word_of_int (cdiv (PT_ROLL_MAX_CENTIMM * 180) 2540)
     then pt_resolve_page_margins E o1 else (0, o1))"

definition setup_2730 :: "pt_dev \<Rightarrow> pt_batch \<Rightarrow> bool \<Rightarrow> u8 list list" where
  \<comment> \<open>the writes of \<^verbatim>\<open>r_startpage\<close>, in order\<close>
  "setup_2730 model b continuation =
    (if b_first_label b
     then (if \<not> continuation then [pt_cmd_init] else []) @ [pt_cmd_rasterstart (dev_flags model)] else [])
    @ [pt_cmd_printinfo (b_tape_mm b),
       pt_cmd_setmode (if pt_cut_autocut (b_policy b) (b_first_label b) then 0x40 else 0),
       pt_cmd_setadvanced 0]"

definition PAGE_ROWS :: nat where
  \<comment> \<open>rows of the staged page: \<^verbatim>\<open>PT_PAGE_BUF_BYTES / 16\<close>\<close>
  "PAGE_ROWS = nat (cdiv (PT_ROLL_MAX_CENTIMM * 180) 2540)"

definition release_previous :: "env \<Rightarrow> pt_batch \<Rightarrow> sys \<Rightarrow> (bool \<times> sys) option" where
  \<comment> \<open>the preceding label is proved intermediate by the next valid one\<close>
  "release_previous E b s = (if b_pending b then pt_print_pending E False s else Some (True, s))"

definition stage_page :: "env \<Rightarrow> sys \<Rightarrow> (bool \<times> sys) option" where
  \<comment> \<open>the end of \<^verbatim>\<open>r_startpage\<close> on a P710BT\<close>
  "stage_page E s = do {
     b \<leftarrow> batch s;
     let fresh = malloc_row E (trace s);
     (ok, s) \<leftarrow> (if b_page b = None then alloc E s else Some (True, s));
     if \<not> ok then fail s
     else Some (True, upd_batch (\<lambda>b. b\<lparr>b_page := Some (case b_page b of None \<Rightarrow> fresh | Some p \<Rightarrow> p),
                                      b_page_active := True\<rparr>) s)
   }"

definition start_output :: "env \<Rightarrow> pt_dev \<Rightarrow> sys \<Rightarrow> (bool \<times> sys) option" where
  \<comment> \<open>the end of \<^verbatim>\<open>r_startpage\<close> on any other model\<close>
  "start_output E model s = do {
     b \<leftarrow> batch s;
     (ok, s) \<leftarrow> release_previous E b s;
     if \<not> ok then fail s
     else do {
       b \<leftarrow> batch s;
       let continuation = pt_chain_get s;
       let s = pt_run_set PT_RUN_UNCERTAIN s;
       (ok, s) \<leftarrow> job_writes E (setup_2730 model b continuation) s;
       if \<not> ok then fail s
       else Some (True, upd_batch (\<lambda>b. b\<lparr>b_first_label := False, b_page_active := True\<rparr>) s)
     }
   }"

definition begin_page :: "env \<Rightarrow> sys \<Rightarrow> (bool \<times> sys) option" where
  "begin_page E s = do {
     st \<leftarrow> printer s;
     if dev_pid (ps_model st) = PT_P710BT_PID then stage_page E s else start_output E (ps_model st) s
   }"

definition r_startpage :: "env \<Rightarrow> pt_options \<Rightarrow> sys \<Rightarrow> ((bool \<times> pt_options) \<times> sys) option" where
  \<comment> \<open>the options are changed in place by the margin resolution\<close>
  "r_startpage E o1 s = (case batch s of
     None \<Rightarrow> Some ((False, o1), pt_fail_job s)
   | Some b \<Rightarrow>
     if b_failed b \<or> b_page_active b then Some ((False, o1), pt_fail_job s)
     else do {
       (canceled, s) \<leftarrow> papplJobIsCanceled E s;
       if canceled then Some ((False, o1), pt_fail_job s)
       else (case tape_of_page E o1 of (mm, o2) \<Rightarrow>
         if mm = 0 \<or> (mm \<noteq> uint (b_tape_mm b) \<and> \<not> b_first_label b) \<or> pt_tape_geometry mm = None then do {
           (_, s) \<leftarrow> papplJobSetReasons {JREASON_DOCUMENT_UNPRINTABLE_ERROR} {} s;
           (_, s) \<leftarrow> papplJobSetMessage (''Page geometry does not match loaded '' @ fmt_d (uint (b_tape_mm b))
             @ '' mm tape at 180 dpi'') s;
           Some ((False, o2), pt_fail_job s)
         }
         else if \<not> margins_defined o2 then None
         else if \<not> window_ok o2 (the (pt_tape_geometry mm)) then do {
           (_, s) \<leftarrow> papplJobSetMessage ''Selected margins extend beyond the physical printable window'' s;
           Some ((False, o2), pt_fail_job s)
         }
         else do {
           st \<leftarrow> printer s;
           if pt_run_get s = PT_RUN_UNCERTAIN \<and> b_first_label b then Some ((False, o2), pt_fail_job s)
           else do {
             (ok, s) \<leftarrow> (if mm \<noteq> uint (b_tape_mm b) then pt_wait_for_tape E mm s else Some (True, s));
             if \<not> ok then Some ((False, o2), pt_fail_job s)
             else do { (ok, s) \<leftarrow> begin_page E s; Some ((ok, o2), s) }
           }
         })
     })"

definition PAGE_MARGIN :: u32 where "PAGE_MARGIN = word_of_nat PT_END_MARGIN_PX"

definition raster_line :: "pt_dev \<Rightarrow> u8 list \<Rightarrow> u8 list" where
  "raster_line model packed =
    (if dev_flags model AND FLAG_RASTER_PACKBITS \<noteq> 0 then pt_cmd_sendraster_packbits packed
     else pt_cmd_sendraster packed)"

definition r_writeline :: "env \<Rightarrow> pt_options \<Rightarrow> u32 \<Rightarrow> u8 list \<Rightarrow> sys \<Rightarrow> (bool \<times> sys) option" where
  "r_writeline E o1 y l s = (case batch s of
     None \<Rightarrow> fail s
   | Some b \<Rightarrow>
     if b_failed b \<or> \<not> b_page_active b then fail s
     else do {
       (canceled, s) \<leftarrow> papplJobIsCanceled E s;
       if canceled then fail s
       else (case pt_tape_geometry (uint (b_tape_mm b)) of
         None \<Rightarrow> fail s
       | Some g \<Rightarrow>
         if \<not> pt_page_width_matches o1 g (uint (b_tape_mm b)) then fail s
         else do {
           packed \<leftarrow> pt_pack_window l (left_px g) (imageable_px g);
           st \<leftarrow> printer s;
           if dev_pid (ps_model st) = PT_P710BT_PID then
             if y < PAGE_MARGIN \<or> cups_height o1 \<le> y + PAGE_MARGIN then
               if list_ex (\<lambda>w. w \<noteq> 0) packed then do {
                 (_, s) \<leftarrow> papplJobSetMessage ''Raster ink in a physical end margin that hardware feed replaces'' s;
                 fail s
               }
               else Some (True, s)
             else do {
               p \<leftarrow> b_page b;
               let row = unat (y - PAGE_MARGIN);
               if PAGE_ROWS \<le> row then None
               else Some (True, upd_batch (\<lambda>b. b\<lparr>b_page := Some (p(row := packed))\<rparr>) s)
             }
           else do {
             (ok, s) \<leftarrow> pt_job_write E (raster_line (ps_model st) packed) s;
             if ok then Some (True, s) else fail s
           }
         })
     })"

fun send_rows :: "env \<Rightarrow> pt_dev \<Rightarrow> (nat \<Rightarrow> u8 list) option \<Rightarrow> nat list \<Rightarrow> 'a world_scheme \<Rightarrow> (bool \<times> 'a world_scheme) option" where
  \<comment> \<open>the row loop of \<^verbatim>\<open>r_endpage\<close>; reading past the staged page is undefined\<close>
  "send_rows E model page [] s = Some (True, s)"
| "send_rows E model page (y # ys) s = do {
     p \<leftarrow> page;
     if PAGE_ROWS \<le> y then None
     else do {
       (ok, s) \<leftarrow> pt_job_write E (raster_line model (p y)) s;
       if ok then send_rows E model page ys s else Some (False, s)
     }
   }"

definition setup_710 :: "pt_dev \<Rightarrow> pt_batch \<Rightarrow> bool \<Rightarrow> u32 \<Rightarrow> u8 list list" where
  \<comment> \<open>the writes of \<^verbatim>\<open>r_endpage\<close> before the rows, in order\<close>
  "setup_710 model b continuation rows =
    (if b_first_label b
     then (if \<not> continuation then [pt_cmd_invalidate, pt_cmd_init] else [])
          @ [pt_cmd_rasterstart (dev_flags model), pt_cmd_auto_status True]
     else [])
    @ [pt_cmd_printinfo_extended (b_tape_mm b) rows (if b_first_label b \<and> \<not> continuation then 0 else 1),
       pt_cmd_setmode (if pt_cut_autocut (b_policy b) (b_first_label b) then 0x40 else 0),
       pt_cmd_setadvanced 0,
       pt_cmd_margin (word_of_nat PT_END_MARGIN_PX),
       pt_cmd_compression 2]"

definition send_page :: "env \<Rightarrow> pt_options \<Rightarrow> pt_dev \<Rightarrow> sys \<Rightarrow> (bool \<times> sys) option" where
  \<comment> \<open>the P710BT part of \<^verbatim>\<open>r_endpage\<close>\<close>
  "send_page E o1 model s = do {
     b \<leftarrow> batch s;
     (ok, s) \<leftarrow> release_previous E b s;
     if \<not> ok then fail s
     else do {
       b \<leftarrow> batch s;
       let continuation = pt_chain_get s;
       let s = pt_run_set PT_RUN_UNCERTAIN s;
       let rows = cups_height o1 - 2 * PAGE_MARGIN;
       (ok, s) \<leftarrow> job_writes E (setup_710 model b continuation rows) s;
       if \<not> ok then fail s
       else do {
         (ok, s) \<leftarrow> send_rows E model (b_page b) [0..<unat rows] s;
         if \<not> ok then fail s
         else Some (True, upd_batch (\<lambda>b. b\<lparr>b_first_label := False, b_page_active := False, b_pending := True\<rparr>) s)
       }
     }
   }"

definition r_endpage :: "env \<Rightarrow> pt_options \<Rightarrow> sys \<Rightarrow> (bool \<times> sys) option" where
  "r_endpage E o1 s = (case batch s of
     None \<Rightarrow> fail s
   | Some b \<Rightarrow>
     if b_failed b \<or> \<not> b_page_active b then fail s
     else do {
       (canceled, s) \<leftarrow> papplJobIsCanceled E s;
       if canceled then fail s
       else do {
         st \<leftarrow> printer s;
         if dev_pid (ps_model st) \<noteq> PT_P710BT_PID
         then Some (True, upd_batch (\<lambda>b. b\<lparr>b_page_active := False, b_pending := True\<rparr>) s)
         else send_page E o1 (ps_model st) s
       }
     })"

definition IPP_JSTATE_CANCELED :: int where "IPP_JSTATE_CANCELED = 7"

definition r_endjob :: "env \<Rightarrow> sys \<Rightarrow> (bool \<times> sys) option" where
  "r_endjob E s = (case batch s of
     None \<Rightarrow> Some (True, s)
   | Some b \<Rightarrow> do {
       (normal, s) \<leftarrow>
         (if b_failed b then Some (False, s)
          else do {
            (canceled, s) \<leftarrow> papplJobIsCanceled E s;
            if canceled then Some (False, s)
            else do { (state, s) \<leftarrow> papplJobGetState E s; Some (state < IPP_JSTATE_CANCELED, s) }
          });
       (result, s) \<leftarrow>
         (if normal \<and> b_page_active b then Some (False, s)
          else if normal \<and> b_pending b then pt_print_pending E True s
          else Some (True, s));
       Some (result, s\<lparr>batch := None\<rparr>)
     })"

end
