(* ===== verification/Batch_Facts.thy ===== *)
theory Batch_Facts
  imports Batch
begin

text \<open>
  What the steps of the raster callbacks send and leave alone, and the properties of the single
  callbacks.
\<close>

section \<open>Sending\<close>

definition sends :: "u8 list list \<Rightarrow> 'a world_scheme \<Rightarrow> 'a world_scheme \<Rightarrow> bool" where
  \<comment> \<open>exactly these buffers were output, no lost cassette was reported, and no state of the program changed\<close>
  "sends bufs s s' \<longleftrightarrow> conn s' = conn s \<and> world.more s' = world.more s
     \<and> outputs (trace s') = outputs (trace s) @ bufs \<and> (\<forall>E. closings E (trace s') = closings E (trace s))"

lemma sends_refl [simp]: "sends [] s s"
  by (simp add: sends_def)

lemma sends_trans: "sends a s s' \<Longrightarrow> sends b s' s'' \<Longrightarrow> sends (a @ b) s s''"
  by (simp add: sends_def)

lemma silent_sends: "silent s s' \<Longrightarrow> sends [] s s'"
  using silent_outputs [of s s'] silent_closings [of s s'] by (simp add: sends_def) (simp add: silent_def extends_def)

lemma sends_note [simp]: "no_output e \<Longrightarrow> calm e \<Longrightarrow> sends bufs s (note_event e s') = sends bufs s s'"
  by (simp add: sends_def no_output_def calm_closing)

lemma sends_sys:
  fixes s s' :: sys
  assumes "sends bufs s s'"
  shows "printer s' = printer s" "batch s' = batch s" "conn s' = conn s"
    "pt_run_get s' = pt_run_get s" "model_of s' = model_of s" "has_state s' = has_state s"
    "outputs (trace s') = outputs (trace s) @ bufs" "closings E (trace s') = closings E (trace s)"
  using assms more_sys [of s' s] by (simp_all add: sends_def pt_run_get_def model_of_def has_state_def)

lemma not_status_request [simp]:
  "pt_cmd_invalidate \<noteq> pt_cmd_status_request" "pt_cmd_init \<noteq> pt_cmd_status_request"
  "pt_cmd_rasterstart f \<noteq> pt_cmd_status_request" "pt_cmd_ff \<noteq> pt_cmd_status_request"
  "pt_cmd_eject \<noteq> pt_cmd_status_request" "pt_cmd_printinfo mm \<noteq> pt_cmd_status_request"
  "pt_cmd_printinfo_extended mm r pg \<noteq> pt_cmd_status_request" "pt_cmd_compression m \<noteq> pt_cmd_status_request"
  "pt_cmd_auto_status e \<noteq> pt_cmd_status_request" "pt_cmd_setmode f' \<noteq> pt_cmd_status_request"
  "pt_cmd_setadvanced f' \<noteq> pt_cmd_status_request" "pt_cmd_margin d \<noteq> pt_cmd_status_request"
  "raster_line model data \<noteq> pt_cmd_status_request"
  "pt_cmd_blank_continuation mm \<noteq> pt_cmd_status_request"
  by (simp_all add: cmd_defs raster_line_def pt_cmd_blank_continuation_def)
    (auto dest: arg_cong [where f = length])

lemma job_write_sends:
  "buf \<noteq> pt_cmd_status_request \<Longrightarrow> returns (pt_job_write E buf s) (\<lambda>ok s'. sends [buf] s s')"
  using dev_write_result [of E buf s] by (auto simp: pt_job_write_def papplJobSetMessage_def sends_def)

lemma job_writes_sends:
  "pt_cmd_status_request \<notin> set bufs \<Longrightarrow>
   returns (job_writes E bufs s) (\<lambda>ok s'. \<exists>k. sends (take k bufs) s s' \<and> (ok \<longrightarrow> k = length bufs))"
proof (induction bufs arbitrary: s)
  case (Cons buf bufs)
  obtain ok s1 where w: "pt_job_write E buf s = Some (ok, s1)" "sends [buf] s s1"
    using job_write_sends [of buf E s] Cons.prems by (auto simp: returns_iff)
  show ?case
  proof (cases ok)
    case True
    obtain ok' s2 k where r: "job_writes E bufs s1 = Some (ok', s2)" "sends (take k bufs) s1 s2" "ok' \<longrightarrow> k = length bufs"
      using Cons.IH [of s1] Cons.prems by (auto simp: returns_iff)
    from sends_trans [OF w(2) r(2)] have "sends (take (Suc k) (buf # bufs)) s s2" by simp
    then show ?thesis using True w(1) r(1,3) by (auto intro!: exI [of _ "Suc k"])
  next
    case False
    then show ?thesis using w by (auto intro!: exI [of _ 1])
  qed
qed simp

lemma send_rows_sends:
  "ensures (send_rows E model page ys s) (\<lambda>ok s'. \<exists>k. sends (take k (map (\<lambda>y. raster_line model (the page y)) ys)) s s'
     \<and> (ok \<longrightarrow> k = length ys))"
proof (induction ys arbitrary: s)
  case (Cons y ys)
  obtain p where "page = Some p \<or> page = None" by auto
  obtain ok s1 where w: "pt_job_write E (raster_line model (the page y)) s = Some (ok, s1)"
      "sends [raster_line model (the page y)] s s1"
    using job_write_sends [of "raster_line model (the page y)" E s] by (auto simp: returns_iff)
  show ?case
  proof (cases "page = None \<or> PAGE_ROWS \<le> y \<or> \<not> ok")
    case True
    then show ?thesis using w by (cases page) (auto intro!: exI [of _ 1])
  next
    case False
    have "ensures (send_rows E model page ys s1) (\<lambda>ok s'. \<exists>k. sends (take k (map (\<lambda>y. raster_line model (the page y)) (y # ys))) s s'
     \<and> (ok \<longrightarrow> k = length (y # ys)))"
    proof (rule ensures_mono [OF Cons.IH], elim exE conjE)
      fix ok' s' k
      assume "sends (take k (map (\<lambda>y. raster_line model (the page y)) ys)) s1 s'" "ok' \<longrightarrow> k = length ys"
      with sends_trans [OF w(2)] show "\<exists>k. sends (take k (map (\<lambda>y. raster_line model (the page y)) (y # ys))) s s'
          \<and> (ok' \<longrightarrow> k = length (y # ys))"
        by (fastforce intro!: exI [of _ "Suc k"])
    qed
    then show ?thesis using False w(1) by (cases page) simp_all
  qed
qed simp

lemma wait_ready_silent: "ensures (pt_wait_ready E s) (\<lambda>ok s'. silent s s')"
proof -
  have "ensures (pt_await_ready E True 64 s) (\<lambda>r s'. silent s s')"
    by (rule ensures_mono [OF await_ensures]) (auto simp: await_done_def)
  note mono = ensures_mono [OF this]
  show ?thesis by (simp add: pt_wait_ready_def) (auto simp: papplJobSetMessage_def intro!: mono)
qed

lemma sends_wp:
  assumes "sends sofar s0 s"
  shows "buf \<noteq> pt_cmd_status_request \<Longrightarrow> (\<And>ok s'. sends (sofar @ [buf]) s0 s' \<Longrightarrow> Q ok s') \<Longrightarrow> ensures (pt_job_write E buf s) Q"
    and "(\<And>ok s'. sends sofar s0 s' \<Longrightarrow> Q ok s') \<Longrightarrow> ensures (pt_wait_ready E s) Q"
proof -
  show "buf \<noteq> pt_cmd_status_request \<Longrightarrow> (\<And>ok s'. sends (sofar @ [buf]) s0 s' \<Longrightarrow> Q ok s') \<Longrightarrow> ensures (pt_job_write E buf s) Q"
    by (rule ensures_mono [OF returns_ensures [OF job_write_sends]]) (use sends_trans [OF assms] in auto)
  show "(\<And>ok s'. sends sofar s0 s' \<Longrightarrow> Q ok s') \<Longrightarrow> ensures (pt_wait_ready E s) Q"
    by (rule ensures_mono [OF wait_ready_silent]) (use sends_trans [OF assms silent_sends] in auto)
qed

section \<open>Printing the pending label\<close>

definition release_cmds :: "bool \<Rightarrow> u8 list list" where
  \<comment> \<open>what ends a label: a feed, or the final cut with chain printing off\<close>
  "release_cmds ct = (if ct then [pt_cmd_setadvanced 8, pt_cmd_eject] else [pt_cmd_ff])"

definition released :: "bool \<Rightarrow> bool \<Rightarrow> sys \<Rightarrow> sys \<Rightarrow> bool" where
  "released ct ok s s' \<longleftrightarrow>
     (if ok then \<exists>s1. sends (release_cmds ct) s s1
        \<and> s' = pt_run_set (if ct then PT_RUN_CLOSED else PT_RUN_OPEN) (upd_batch (\<lambda>b. b\<lparr>b_pending := False\<rparr>) s1)
      else \<exists>k. sends (take k (release_cmds ct)) s s')"

lemma releasedI:
  "sends [] s s' \<Longrightarrow> released ct False s s'"
  "sends [pt_cmd_setadvanced 8] s s' \<Longrightarrow> released True False s s'"
  "sends [pt_cmd_setadvanced 8, pt_cmd_eject] s s' \<Longrightarrow> released True False s s'"
  "sends [pt_cmd_ff] s s' \<Longrightarrow> released False False s s'"
  "sends [pt_cmd_setadvanced 8, pt_cmd_eject] s s1 \<Longrightarrow>
     released True True s (pt_run_set PT_RUN_CLOSED (upd_batch (\<lambda>b. b\<lparr>b_pending := False\<rparr>) s1))"
  "sends [pt_cmd_ff] s s1 \<Longrightarrow>
     released False True s (pt_run_set PT_RUN_OPEN (upd_batch (\<lambda>b. b\<lparr>b_pending := False\<rparr>) s1))"
  by (auto simp: released_def release_cmds_def intro: exI [of _ 0] exI [of _ 1] exI [of _ 2])

lemma print_pending_released:
  assumes "batch s = Some b"
  shows "ensures (pt_print_pending E final s) (\<lambda>ok s'. released (final \<and> cut_at_end (b_policy b)) ok s s')"
proof (cases "final \<and> cut_at_end (b_policy b)")
  case True
  let ?adv = "[pt_cmd_setadvanced 8]" and ?cut = "[pt_cmd_setadvanced 8, pt_cmd_eject]"
  have wait: "ensures (pt_wait_ready E s1) (\<lambda>ok s'. if ok then released True True s
        (pt_run_set PT_RUN_CLOSED (upd_batch (\<lambda>b. b\<lparr>b_pending := False\<rparr>) s')) else released True False s s')"
    if "sends ?cut s s1" for s1
    by (rule sends_wp(2) [OF that]) (simp add: releasedI)
  have eject: "ensures (pt_job_write E pt_cmd_eject s1) (\<lambda>ok s'. if ok then sends ?cut s s' else released True False s s')"
    if "sends ?adv s s1" for s1
    by (rule sends_wp(1) [OF that]) (simp_all add: releasedI)
  show ?thesis
    using assms True
    apply (simp add: pt_print_pending_def pappl_defs releasedI)
    apply (intro impI)
    apply (rule sends_wp(1) [where sofar = "[]" and ?s0.0 = s], simp, simp)
    apply (clarsimp simp: releasedI pappl_defs)
    apply (rule ensures_mono [OF eject], simp)
    apply (auto split: if_splits intro!: ensures_mono [OF wait])
    done
next
  case False
  have wait: "ensures (pt_wait_ready E s1) (\<lambda>ok s'. if ok then released False True s
        (pt_run_set PT_RUN_OPEN (upd_batch (\<lambda>b. b\<lparr>b_pending := False\<rparr>) s')) else released False False s s')"
    if "sends [pt_cmd_ff] s s1" for s1
    by (rule sends_wp(2) [OF that]) (simp add: releasedI)
  show ?thesis
    using assms False
    by (cases final; simp add: pt_print_pending_def pappl_defs releasedI)
      (auto simp: releasedI split: if_splits intro!: sends_wp(1) [where sofar = "[]" and ?s0.0 = s] ensures_mono [OF wait])
qed

section \<open>Waiting for a tape\<close>

lemma observes_upd [simp]: "observes s s' \<Longrightarrow> observes (upd_batch f s) (upd_batch f s')"
  by (simp add: observes_def)

definition matched :: "env \<Rightarrow> int \<Rightarrow> sys \<Rightarrow> bool" where
  \<comment> \<open>a clean live reading of this width was made\<close>
  "matched E mm s \<longleftrightarrow> (\<exists>live s1. pt_read_live_tape E (device_uri E) s1 = Some (live, s)
     \<and> lr_parsed live \<and> st_error (lr_st live) = 0 \<and> tape_mm (lr_st live) = mm)"

definition waited :: "env \<Rightarrow> int \<Rightarrow> sys \<Rightarrow> bool \<Rightarrow> sys \<Rightarrow> bool" where
  \<comment> \<open>what a wait for the tape leaves behind\<close>
  "waited E mm s ok s' \<longleftrightarrow>
     observes (if ok then upd_batch (\<lambda>b. b\<lparr>b_tape_mm := word_of_int mm\<rparr>) s else s) s'
     \<and> (ok \<longrightarrow> mm \<in> {6, 9, 12, 18, 24} \<and> (\<exists>s1. observes s s1 \<and> matched E mm s1))"

lemma wait_tape_body_waited:
  assumes "observes s s1"
  shows "ensures (wait_tape_body E (device_uri E) mm loaded s1)
    (\<lambda>x s'. case x of Inl ok \<Rightarrow> waited E mm s ok s' | Inr loaded' \<Rightarrow> observes s s')"
proof -
  have pub: "ensures (pt_publish_tape E live s2) (\<lambda>ok s'. observes s s' \<and> (ok \<and> tape_mm (lr_st live) = mm \<longrightarrow>
      waited E mm s True (upd_batch (\<lambda>b. b\<lparr>b_tape_mm := word_of_int mm\<rparr>) s')))"
    if "observes s s2" "pt_read_live_tape E (device_uri E) s1' = Some (live, s3)" "observes s s3" for live s1' s2 s3
    by (rule publish_wp [OF that(1)])
      (use that ready_tape in \<open>fastforce simp: waited_def matched_def\<close>)
  show ?thesis
    using assms
    by (simp add: wait_tape_body_def pappl_defs)
      (auto simp: pappl_defs waited_def intro!: live_wp [of s] ensures_mono [OF pub])
qed

lemma wait_for_tape_waited: "ensures (pt_wait_for_tape E mm s) (waited E mm s)"
proof -
  have "ensures (iterate (wait_tape_body E (device_uri E) mm) loaded s) (waited E mm s)" for loaded
    by (rule iterate_ensures [where Inv = "\<lambda>_. observes s", OF wait_tape_body_waited]) simp_all
  note loop = ensures_mono [OF this]
  show ?thesis
    by (cases "batch s") (auto simp: pt_wait_for_tape_def pappl_defs waited_def intro!: loop)
qed

lemma wait_for_tape_tracks: "ensures (pt_wait_for_tape E mm s) (\<lambda>ok s'. tracks E s s')"
proof -
  have body: "ensures (wait_tape_body E uri mm loaded s') (\<lambda>x s''. tracks E s s'')" if "tracks E s s'" for uri loaded s'
    using that by (auto simp: wait_tape_body_def pappl_defs intro!: tracks_wp)
  have "ensures (iterate (wait_tape_body E (device_uri E) mm) loaded s) (\<lambda>ok s'. tracks E s s')" for loaded
    by (rule iterate_ensures [where Inv = "\<lambda>_. tracks E s", OF ensures_mono [OF body]]) (auto split: sum.split)
  note loop = ensures_mono [OF this]
  show ?thesis
    by (cases "batch s") (auto simp: pt_wait_for_tape_def pappl_defs intro!: loop)
qed

section \<open>The invariant of a batch\<close>

definition is_710 :: "sys \<Rightarrow> bool" where
  "is_710 s \<longleftrightarrow> map_option dev_pid (model_of s) = Some PT_P710BT_PID"

definition batch_ok :: "bool \<Rightarrow> pt_run \<Rightarrow> pt_batch \<Rightarrow> bool" where
  "batch_ok p710 run b \<longleftrightarrow>
     (\<not> b_first_label b \<longrightarrow> run = PT_RUN_UNCERTAIN)
     \<and> (b_pending b \<longrightarrow> \<not> b_first_label b)
     \<and> (b_page_active b \<longrightarrow> (if p710 then b_page b \<noteq> None else \<not> b_first_label b))"

definition job_ok :: "sys \<Rightarrow> bool" where
  "job_ok s \<longleftrightarrow> has_state s \<and> (\<forall>b. batch s = Some b \<longrightarrow> batch_ok (is_710 s) (pt_run_get s) b)"

lemma is_710_simps [simp]:
  "is_710 (pt_run_set r s) = is_710 s" "is_710 (upd_batch f s) = is_710 s" "is_710 (pt_fail_job s) = is_710 s"
  "is_710 (note_event e s) = is_710 s"
  by (simp_all add: is_710_def)

lemma is_710_printer: "printer s = Some st \<Longrightarrow> is_710 s \<longleftrightarrow> dev_pid (ps_model st) = PT_P710BT_PID"
  by (simp add: is_710_def model_of_def)

lemma job_ok_note [simp]: "job_ok (note_event e s) = job_ok s"
  by (simp add: job_ok_def)

lemma job_ok_sends: "sends bufs s s' \<Longrightarrow> job_ok s' = job_ok s"
  by (simp add: job_ok_def sends_sys is_710_def)

lemma job_ok_observes: "observes s s' \<Longrightarrow> job_ok s \<Longrightarrow> job_ok s'"
  using observes_uncertain [of s s'] by (auto simp: job_ok_def observes_def is_710_def has_state_model batch_ok_def)

lemma job_ok_fail [simp]: "job_ok (pt_fail_job s) = job_ok s"
  by (cases "batch s") (simp_all add: job_ok_def batch_ok_def)

lemma job_ok_tape [simp]: "job_ok (upd_batch (\<lambda>b. b\<lparr>b_tape_mm := w\<rparr>) s) = job_ok s"
  by (cases "batch s") (simp_all add: job_ok_def batch_ok_def)

lemma job_ok_upd:
  "job_ok (upd_batch f s) \<longleftrightarrow> has_state s \<and> (\<forall>b. batch s = Some b \<longrightarrow> batch_ok (is_710 s) (pt_run_get s) (f b))"
  by (cases "batch s") (simp_all add: job_ok_def)

lemma job_ok_uncertain: "job_ok s \<Longrightarrow> job_ok (pt_run_set PT_RUN_UNCERTAIN s)"
  by (auto simp: job_ok_def batch_ok_def)

lemma job_ok_released: "job_ok s \<Longrightarrow> released ct ok s s' \<Longrightarrow> job_ok (if ok then pt_run_set PT_RUN_UNCERTAIN s' else s')"
proof (cases ok)
  case True
  assume "job_ok s" "released ct ok s s'"
  then obtain s1 where s1: "sends (release_cmds ct) s s1" and
    s': "s' = pt_run_set (if ct then PT_RUN_CLOSED else PT_RUN_OPEN) (upd_batch (\<lambda>b. b\<lparr>b_pending := False\<rparr>) s1)"
    using True by (auto simp: released_def)
  have "job_ok s1" using job_ok_sends [OF s1] \<open>job_ok s\<close> by simp
  then show ?thesis using True by (cases "batch s1") (auto simp: s' job_ok_def batch_ok_def)
next
  case False
  assume "job_ok s" "released ct ok s s'"
  then show ?thesis using False job_ok_sends by (auto simp: released_def)
qed

lemma job_writes_wp:
  "pt_cmd_status_request \<notin> set bufs \<Longrightarrow> (\<And>ok s' k. sends (take k bufs) s s' \<Longrightarrow> (ok \<longrightarrow> k = length bufs) \<Longrightarrow> Q ok s')
   \<Longrightarrow> ensures (job_writes E bufs s) Q"
  by (rule ensures_mono [OF returns_ensures [OF job_writes_sends]]) auto

lemma send_rows_wp:
  "(\<And>ok s' k. sends (take k (map (\<lambda>y. raster_line model (the page y)) ys)) s s' \<Longrightarrow> (ok \<longrightarrow> k = length ys) \<Longrightarrow> Q ok s')
   \<Longrightarrow> ensures (send_rows E model page ys s) Q"
  using send_rows_sends [of E model page ys s] by (auto intro: ensures_mono)

lemma setup_no_status [simp]:
  "pt_cmd_status_request \<notin> set (setup_2730 m b c)" "pt_cmd_status_request \<notin> set (setup_710 m b c r)"
  using not_status_request by (auto simp: setup_2730_def setup_710_def dest: sym)

lemma ensures_state:
  "ensures (Option.bind (printer s) k) Q \<longleftrightarrow> (\<forall>st. printer s = Some st \<longrightarrow> ensures (k st) Q)"
  "ensures (Option.bind (batch s) k') Q \<longleftrightarrow> (\<forall>b. batch s = Some b \<longrightarrow> ensures (k' b) Q)"
  "ensures (Option.bind (pt_pack_window l i j) k1) Q \<longleftrightarrow> (\<forall>p. pt_pack_window l i j = Some p \<longrightarrow> ensures (k1 p) Q)"
  "ensures (Option.bind (b_page b) k2) Q \<longleftrightarrow> (\<forall>p. b_page b = Some p \<longrightarrow> ensures (k2 p) Q)"
     apply (cases "printer s"; simp)
    apply (cases "batch s"; simp)
   apply (cases "pt_pack_window l i j"; simp)
  apply (cases "b_page b"; simp)
  done

definition released_if :: "bool \<Rightarrow> bool \<Rightarrow> sys \<Rightarrow> sys \<Rightarrow> bool" where
  "released_if pend ok s s' \<longleftrightarrow> (if pend then released False ok s s' else ok \<and> s' = s)"

lemma release_previous_wp:
  assumes "batch s = Some b" "\<And>ok s'. released_if (b_pending b) ok s s' \<Longrightarrow> Q ok s'"
  shows "ensures (release_previous E b s) Q"
proof (cases "b_pending b")
  case True
  then show ?thesis
    using assms(2) by (simp add: release_previous_def) (rule ensures_mono [OF print_pending_released [OF assms(1)]], simp add: released_if_def)
next
  case False
  then show ?thesis using assms(2) [of True s] by (simp add: release_previous_def released_if_def)
qed

lemma job_ok_released_if: "job_ok s \<Longrightarrow> released_if pend ok s s' \<Longrightarrow> job_ok (if ok then pt_run_set PT_RUN_UNCERTAIN s' else s')"
  using job_ok_released [of s False ok s'] job_ok_uncertain [of s] by (auto simp: released_if_def split: if_splits)

section \<open>Every callback preserves it\<close>

lemma uncertain_sent:
  assumes "job_ok (pt_run_set PT_RUN_UNCERTAIN s1)" "sends bufs (pt_run_set PT_RUN_UNCERTAIN s1) s2"
  shows "job_ok s2" "pt_run_get s2 = PT_RUN_UNCERTAIN" "has_state s2" "is_710 s2 = is_710 s1"
  using assms job_ok_sends [OF assms(2)] by (simp_all add: sends_sys job_ok_def is_710_def)

lemma stage_page_job_ok: "job_ok s \<Longrightarrow> is_710 s \<Longrightarrow> ensures (stage_page E s) (\<lambda>ok s'. job_ok s')"
  by (auto simp: stage_page_def ensures_state pappl_defs fail_def job_ok_upd) (auto simp: job_ok_def batch_ok_def)

lemma start_output_job_ok:
  assumes "job_ok s" "\<not> is_710 s"
  shows "ensures (start_output E model s) (\<lambda>ok s'. job_ok s')"
proof -
  have "ensures (release_previous E b s) (\<lambda>ok s'. job_ok (if ok then pt_run_set PT_RUN_UNCERTAIN s' else s') \<and> is_710 s' = is_710 s)"
    if "batch s = Some b" for b
    by (rule release_previous_wp [OF that])
      (use job_ok_released_if [OF assms(1)] in \<open>auto simp: released_if_def released_def sends_sys is_710_def split: if_splits\<close>)
  note rel = ensures_mono [OF this]
  have upd: "job_ok (upd_batch (\<lambda>b. b\<lparr>b_first_label := False, b_page_active := True\<rparr>) s2)"
    if "job_ok (pt_run_set PT_RUN_UNCERTAIN s1)" "sends bufs (pt_run_set PT_RUN_UNCERTAIN s1) s2" "\<not> is_710 s1" for s1 s2 bufs
    using uncertain_sent [OF that(1,2)] that(3) by (auto simp: job_ok_upd batch_ok_def)
  show ?thesis
    by (auto simp: start_output_def ensures_state fail_def uncertain_sent(1)
        intro!: rel job_writes_wp upd simp: assms(2))
qed

lemma send_page_job_ok:
  assumes "job_ok s"
  shows "ensures (send_page E o1 model s) (\<lambda>ok s'. job_ok s')"
proof -
  have "ensures (release_previous E b s) (\<lambda>ok s'. job_ok (if ok then pt_run_set PT_RUN_UNCERTAIN s' else s'))"
    if "batch s = Some b" for b
    by (rule release_previous_wp [OF that]) (rule job_ok_released_if [OF assms])
  note rel = ensures_mono [OF this]
  have upd: "job_ok (upd_batch (\<lambda>b. b\<lparr>b_first_label := False, b_page_active := False, b_pending := True\<rparr>) s3)"
    if "job_ok (pt_run_set PT_RUN_UNCERTAIN s1)" "sends bufs (pt_run_set PT_RUN_UNCERTAIN s1) s2" "sends bufs' s2 s3" for s1 s2 s3 bufs bufs'
    using uncertain_sent [OF that(1,2)] that(3) by (auto simp: job_ok_upd batch_ok_def sends_sys)
  show ?thesis
    by (auto simp: send_page_def ensures_state fail_def job_ok_sends uncertain_sent(1) Let_def
        intro!: rel job_writes_wp send_rows_wp upd)
qed

lemma startpage_job_ok:
  assumes "job_ok s"
  shows "ensures (r_startpage E o1 s) (\<lambda>r s'. job_ok s')"
proof -
  have beg: "ensures (begin_page E s') (\<lambda>ok s'. job_ok s')" if "job_ok s'" for s'
    using stage_page_job_ok [OF that] start_output_job_ok [OF that]
    by (simp add: begin_page_def ensures_state is_710_printer [symmetric])
  have wait: "ensures (pt_wait_for_tape E mm s') (\<lambda>ok s'. job_ok s')" if "job_ok s'" for s' mm
    by (rule ensures_mono [OF wait_for_tape_waited]) (use that in \<open>auto simp: waited_def dest: job_ok_observes split: if_splits\<close>)
  show ?thesis
    using assms
    by (auto simp: r_startpage_def ensures_state pappl_defs split: option.split prod.split
        intro!: ensures_mono [OF wait] ensures_mono [OF beg])
qed

lemma job_write_wp:
  "buf \<noteq> pt_cmd_status_request \<Longrightarrow> (\<And>ok s'. sends [buf] s s' \<Longrightarrow> Q ok s') \<Longrightarrow> ensures (pt_job_write E buf s) Q"
  by (rule ensures_mono [OF returns_ensures [OF job_write_sends]])

lemma writeline_job_ok:
  assumes "job_ok s"
  shows "ensures (r_writeline E o1 y l s) (\<lambda>r s'. job_ok s')"
  using assms
  by (auto simp: r_writeline_def ensures_state pappl_defs fail_def Let_def job_ok_sends job_ok_upd split: option.split
      intro!: job_write_wp) (auto simp: job_ok_def batch_ok_def)

lemma endpage_job_ok:
  assumes "job_ok s"
  shows "ensures (r_endpage E o1 s) (\<lambda>r s'. job_ok s')"
proof -
  have "batch_ok (is_710 s) (pt_run_get s) (b\<lparr>b_page_active := False, b_pending := True\<rparr>)"
    if "batch s = Some b" "b_page_active b" "\<not> is_710 s" for b
    using assms that by (auto simp: job_ok_def batch_ok_def)
  then show ?thesis
    using assms
    by (auto simp: r_endpage_def ensures_state pappl_defs fail_def job_ok_upd is_710_printer split: option.split
      intro!: send_page_job_ok) (auto simp: job_ok_def)
qed

lemma startjob_job_ok:
  assumes "job_ok s"
  shows "ensures (r_startjob E s) (\<lambda>r s'. job_ok s')"
proof -
  have ref: "ensures (pt_refresh_ready_media E s') (\<lambda>ok s'. job_ok s')" if "job_ok s'" for s'
    by (rule ensures_mono [OF refresh_observes]) (use that job_ok_observes in blast)
  have new: "job_ok (s'\<lparr>batch := Some \<lparr>b_policy = p, b_tape_mm = w, b_first_label = True, b_page_active = False,
      b_pending = False, b_failed = False, b_page = None\<rparr>\<rparr>)" if "job_ok s'" for s' p w
    using that by (simp add: job_ok_def has_state_def batch_ok_def)
  show ?thesis
    using assms
    by (auto simp: r_startjob_def recovery_required_result pappl_defs new split: option.split
        intro!: ensures_mono [OF ref])
qed

lemma endjob_job_ok:
  assumes "job_ok s"
  shows "ensures (r_endjob E s) (\<lambda>r s'. job_ok s' \<and> batch s' = None)"
proof -
  have pr: "ensures (pt_print_pending E True s') (\<lambda>ok s'. has_state s')" if "has_state s'" "batch s' = Some b" for s' b
    by (rule ensures_mono [OF print_pending_released [OF that(2)]])
      (use that(1) in \<open>auto simp: released_def sends_sys split: if_splits\<close>)
  have "has_state s" using assms by (simp add: job_ok_def)
  then show ?thesis
    by (auto simp: r_endjob_def pappl_defs job_ok_def has_state_def [of "_\<lparr>batch := _\<rparr>"] split: option.split
        intro!: ensures_mono [OF pr]) (auto simp: has_state_def)
qed

lemma status_job_ok:
  assumes "job_ok s"
  shows "ensures (status_cb E s) (\<lambda>r s'. job_ok s')"
  by (rule ensures_mono [OF status_cb_frame])
    (use assms in \<open>auto simp: idle_frame_def job_ok_def has_state_model is_710_def run_observed_def batch_ok_def\<close>)

end
