(* ===== verification/Cut_Operation.thy ===== *)
theory Cut_Operation
  imports Batch_Facts
begin

text \<open>
  \<^verbatim>\<open>src/driver.c\<close>, the Ptouch-Cut operation: releasing a held P710BT label without a job. \<^verbatim>\<open>pt_cut\<close> runs
  while it owns the device; \<^verbatim>\<open>pt_cut_op_cb\<close> checks the request first.
\<close>

section \<open>The operation\<close>

definition IPP_STATUS_OK :: int where "IPP_STATUS_OK = 0"
definition IPP_STATUS_ERROR_BAD_REQUEST :: int where "IPP_STATUS_ERROR_BAD_REQUEST = 0x0400"
definition IPP_STATUS_ERROR_DEVICE :: int where "IPP_STATUS_ERROR_DEVICE = 0x0504"
definition IPP_STATUS_ERROR_BUSY :: int where "IPP_STATUS_ERROR_BUSY = 0x0507"

lemmas ipp_status_defs = IPP_STATUS_OK_def IPP_STATUS_ERROR_BAD_REQUEST_def IPP_STATUS_ERROR_DEVICE_def
  IPP_STATUS_ERROR_BUSY_def

definition confirm_open_run :: "env \<Rightarrow> sys \<Rightarrow> (bool \<times> sys) option" where
  \<comment> \<open>the first condition of \<^verbatim>\<open>pt_cut\<close>, evaluated left to right: true when the live tape is not usable\<close>
  "confirm_open_run E s =
    (if pt_run_get s = PT_RUN_OPEN \<and> pt_live_uri (device_uri E) then do {
       (live, s) \<leftarrow> pt_read_live_tape E (device_uri E) s;
       (ok, s) \<leftarrow> pt_publish_tape E live s;
       Some (\<not> ok, s)
     } else Some (False, s))"

definition pt_cut :: "env \<Rightarrow> nat \<Rightarrow> sys \<Rightarrow> ((int \<times> string) \<times> sys) option" where
  \<comment> \<open>the status and the message, empty unless one is written\<close>
  "pt_cut E msize s = do {
     (bad, s) \<leftarrow> confirm_open_run E s;
     if bad then
       Some ((IPP_STATUS_ERROR_DEVICE, snprintf msize ''Live tape status is not clean, readable, and supported''), s)
     else do {
       let run = pt_run_get s;
       (recovery, s) \<leftarrow> pt_recovery_required s;
       if recovery then
         Some ((IPP_STATUS_ERROR_DEVICE, snprintf msize ''Output uncertain: power-cycle printer, then restart server''), s)
       else if run \<noteq> PT_RUN_OPEN then Some ((IPP_STATUS_OK, []), s)
       else do {
         let blank = pt_cmd_blank_continuation (word_of_int (cdiv (ready_width E (trace s)) 100));
         (ok, s) \<leftarrow> pt_dev_write E blank (pt_run_set PT_RUN_UNCERTAIN s);
         if \<not> ok then
           Some ((IPP_STATUS_ERROR_DEVICE, snprintf msize
             ''Write to printer failed; output uncertain: power-cycle printer, then restart server''), s)
         else do {
           ((ready, reason), s) \<leftarrow> pt_await_ready E False 64 s;
           if \<not> ready then
             Some ((IPP_STATUS_ERROR_DEVICE, snprintf msize
               (reason @ ''; output uncertain: power-cycle printer, then restart server'')), s)
           else Some ((IPP_STATUS_OK, []), pt_run_set PT_RUN_OPEN_BLANK s)
         }
       }
     }
   }"

section \<open>The request\<close>

record pt_attr =
  attr_name :: "string option"
  attr_group :: ipp_tag

record pt_client =
  \<comment> \<open>what the callback asks of a client: its operation, the request's attributes, whether the response
     status is still successful, whether document data follows, and whether access is authorized\<close>
  cl_has_printer :: bool
  cl_operation :: int
  cl_attrs :: "pt_attr list"
  cl_status_ok :: "hist \<Rightarrow> bool"
  cl_document_data :: "hist \<Rightarrow> bool"
  cl_authorized :: "hist \<Rightarrow> bool"
  cl_open_queued :: "hist \<Rightarrow> pt_conn option option"

definition PT_OP_CUT :: int where "PT_OP_CUT = 0x5f01"

definition cut_attr_names :: "string list" where
  "cut_attr_names = [''attributes-charset'', ''attributes-natural-language'', ''printer-uri'',
     ''requesting-user-name'', ''requesting-user-uri'']"

definition pt_cut_attribute_allowed :: "pt_attr \<Rightarrow> bool" where
  "pt_cut_attribute_allowed a = (case attr_name a of
     None \<Rightarrow> False
   | Some n \<Rightarrow> if attr_group a \<noteq> IPP_TAG_OPERATION then False else list_ex (\<lambda>m. n = m) cut_attr_names)"

fun reject_attrs :: "pt_attr list \<Rightarrow> 'a world_scheme \<Rightarrow> 'a world_scheme" where
  "reject_attrs [] s = s"
| "reject_attrs (a # as) s =
    reject_attrs as (if pt_cut_attribute_allowed a then s else note_event (Ev_Unsupported (attr_name a)) s)"

definition respond :: "int \<Rightarrow> string \<Rightarrow> 'a world_scheme \<Rightarrow> (unit \<times> 'a world_scheme) option" where
  "respond st m s = answer (Ev_Respond st m) () s"

definition pt_cut_op_cb :: "env \<Rightarrow> pt_client \<Rightarrow> sys \<Rightarrow> (bool \<times> sys) option" where
  "pt_cut_op_cb E c s = (case (if cl_has_printer c then printer s else None) of
     None \<Rightarrow> Some (False, s)
   | Some st \<Rightarrow>
     if cl_operation c \<noteq> PT_OP_CUT \<or> dev_pid (ps_model st) \<noteq> PT_P710BT_PID then Some (False, s)
     else do {
       let s = reject_attrs (cl_attrs c) s;
       if \<not> cl_status_ok c (trace s) then Some (True, s)
       else if cl_document_data c (trace s) then do {
         (_, s) \<leftarrow> respond IPP_STATUS_ERROR_BAD_REQUEST ''Ptouch-Cut does not accept document data.'' s;
         Some (True, s)
       }
       else if \<not> cl_authorized c (trace s) then Some (True, note_event (Ev_Authorized False) s)
       else do {
         let s = note_event (Ev_Authorized True) s;
         case cl_open_queued c (trace s) of
           None \<Rightarrow> do {
             (_, s) \<leftarrow> answer (Ev_Open_Device False) () s;
             (_, s) \<leftarrow> respond IPP_STATUS_ERROR_BUSY ''Printer is busy or unavailable; try again later.'' s;
             Some (True, s)
           }
         | Some d \<Rightarrow> do {
             (_, s) \<leftarrow> answer (Ev_Open_Device True) () (s\<lparr>conn := d\<rparr>);
             ((status, message), s) \<leftarrow> pt_cut E 160 s;
             (_, s) \<leftarrow> papplPrinterCloseDevice s;
             (_, s) \<leftarrow> respond status (if status = IPP_STATUS_OK then [] else message) s;
             Some (True, s)
           }
       }
     })"

section \<open>What it does\<close>

definition cut_blank :: "env \<Rightarrow> hist \<Rightarrow> u8 list" where
  "cut_blank E h = pt_cmd_blank_continuation (word_of_int (cdiv (ready_width E h) 100))"

lemma confirm_observes: "ensures (confirm_open_run E s) (\<lambda>bad s'. observes s s')"
  by (auto simp: confirm_open_run_def intro!: live_wp [of s] publish_wp [of s])

definition cut_result :: "env \<Rightarrow> sys \<Rightarrow> int \<Rightarrow> string \<Rightarrow> sys \<Rightarrow> bool" where
  "cut_result E s status message s' \<longleftrightarrow> batch s' = batch s \<and> model_of s' = model_of s \<and>
     (observes s s' \<and> (status = IPP_STATUS_OK \<longrightarrow> pt_run_get s' \<notin> {PT_RUN_UNCERTAIN, PT_RUN_OPEN})
      \<or> pt_run_get s = PT_RUN_OPEN \<and> (\<exists>h. outputs (trace s') = outputs (trace s) @ [cut_blank E h])
        \<and> pt_run_get s' = (if status = IPP_STATUS_OK then PT_RUN_OPEN_BLANK else PT_RUN_UNCERTAIN))"

lemma dev_write_wp:
  "buf \<noteq> pt_cmd_status_request \<Longrightarrow> (\<And>ok s'. sends [buf] s s' \<Longrightarrow> Q ok s') \<Longrightarrow> ensures (pt_dev_write E buf s) Q"
  using dev_write_result [of E buf s] by (auto simp: sends_def)

lemma await_silent: "(\<And>r s'. silent s s' \<Longrightarrow> Q r s') \<Longrightarrow> ensures (pt_await_ready E job msize s) Q"
  by (rule ensures_mono [OF await_ensures]) (cases "pt_live_uri (device_uri E)"; auto simp: await_done_def)

definition cut_sent :: "env \<Rightarrow> sys \<Rightarrow> pt_run \<Rightarrow> sys \<Rightarrow> bool" where
  \<comment> \<open>the blank continuation was output, and the run ends in the given state\<close>
  "cut_sent E s run s' \<longleftrightarrow> batch s' = batch s \<and> model_of s' = model_of s
     \<and> (\<exists>h. outputs (trace s') = outputs (trace s) @ [cut_blank E h]) \<and> pt_run_get s' = run"

lemma cut_sent_uncertain:
  assumes "observes s s1" "sends [cut_blank E h] (pt_run_set PT_RUN_UNCERTAIN s1) s2" "silent s2 s3"
  shows "cut_sent E s PT_RUN_UNCERTAIN s3"
  using assms by (auto simp: cut_sent_def observes_def sends_sys silent_sys)

lemma cut_sent_blank: "cut_sent E s r s3 \<Longrightarrow> has_state s3 \<Longrightarrow> cut_sent E s PT_RUN_OPEN_BLANK (pt_run_set PT_RUN_OPEN_BLANK s3)"
  by (auto simp: cut_sent_def run_get_set)

lemma open_has_state: "pt_run_get s = PT_RUN_OPEN \<Longrightarrow> has_state s"
  using run_get_none by fastforce

lemma cut_ensures: "ensures (pt_cut E msize s) (\<lambda>(status, message) s'. cut_result E s status message s')"
proof -
  have conf: "ensures (confirm_open_run E s) (\<lambda>bad s'. observes s s' \<and> (pt_run_get s' = PT_RUN_OPEN \<longrightarrow> pt_run_get s = PT_RUN_OPEN))"
    by (rule ensures_mono [OF confirm_observes]) (auto simp: observes_def run_observed_def)
  have quiet: "cut_result E s st m s'" if "observes s s'" "st = IPP_STATUS_OK \<longrightarrow> pt_run_get s' \<notin> {PT_RUN_UNCERTAIN, PT_RUN_OPEN}" for st m s'
    using that by (simp add: cut_result_def observes_def)
  have loud: "cut_result E s st m s'"
    if "cut_sent E s (if st = IPP_STATUS_OK then PT_RUN_OPEN_BLANK else PT_RUN_UNCERTAIN) s'" "pt_run_get s = PT_RUN_OPEN" for st m s'
    using that by (simp add: cut_result_def cut_sent_def)
  have ok: "IPP_STATUS_ERROR_DEVICE \<noteq> IPP_STATUS_OK" by (simp add: ipp_status_defs)
  have wait: "ensures (pt_await_ready E False 64 s2) (\<lambda>_ s3. cut_sent E s PT_RUN_UNCERTAIN s3
      \<and> cut_sent E s PT_RUN_OPEN_BLANK (pt_run_set PT_RUN_OPEN_BLANK s3))"
    if "observes s s1" "pt_run_get s1 = PT_RUN_OPEN" "sends [cut_blank E h] (pt_run_set PT_RUN_UNCERTAIN s1) s2" for s1 s2 h
  proof (rule await_silent)
    fix r s3
    assume sil: "silent s2 s3"
    have "has_state s3" using silent_sys [OF sil] sends_sys [OF that(3)] open_has_state [OF that(2)] by simp
    then show "cut_sent E s PT_RUN_UNCERTAIN s3
      \<and> cut_sent E s PT_RUN_OPEN_BLANK (pt_run_set PT_RUN_OPEN_BLANK s3)"
      using cut_sent_uncertain [OF that(1,3) sil] cut_sent_blank by auto
  qed
  have written: "ensures (pt_dev_write E (cut_blank E h) (pt_run_set PT_RUN_UNCERTAIN s1)) (\<lambda>okay s2.
      cut_sent E s PT_RUN_UNCERTAIN s2 \<and> ensures (pt_await_ready E False 64 s2) (\<lambda>_ s3. cut_sent E s PT_RUN_UNCERTAIN s3
      \<and> cut_sent E s PT_RUN_OPEN_BLANK (pt_run_set PT_RUN_OPEN_BLANK s3)))"
    if o: "observes s s1" "pt_run_get s1 = PT_RUN_OPEN" for s1 h
  proof -
    have "cut_blank E h \<noteq> pt_cmd_status_request" by (simp add: cut_blank_def)
    then show ?thesis
      by (rule dev_write_wp) (auto intro: wait [OF o] cut_sent_uncertain [OF o(1)])
  qed
  show ?thesis
    unfolding pt_cut_def cut_blank_def [symmetric]
    apply (simp add: recovery_required_result Let_def)
    apply (rule ensures_mono [OF conf])
    apply (auto simp: ok quiet intro!: ensures_mono [OF written] loud)
    apply (erule ensures_mono)
    apply (auto simp: ok intro!: loud)
    done
qed

lemma reject_allowed: "list_all pt_cut_attribute_allowed as \<Longrightarrow> reject_attrs as s = s"
  by (induction as arbitrary: s) auto

lemma reject_silent: "silent s (reject_attrs as s)"
proof (induction as arbitrary: s)
  case (Cons a as)
  then show ?case
    using silent_trans [of s "note_event (Ev_Unsupported (attr_name a)) s"] by simp
qed simp

lemma reject_flagged:
  "\<not> list_all pt_cut_attribute_allowed as \<Longrightarrow> \<exists>n h. trace (reject_attrs as s) = Ev_Unsupported n # h"
proof (induction as arbitrary: s)
  case (Cons a as)
  then show ?case by (cases "list_all pt_cut_attribute_allowed as") (auto simp: reject_allowed)
qed simp

section \<open>The bench run of the operation\<close>

definition held_sys :: sys where
  \<comment> \<open>the bench printer holds a label\<close>
  "held_sys = bench_sys\<lparr>printer := Some (idle_state PT_RUN_OPEN)\<rparr>"

lemma blank_length: "length (pt_cmd_blank_continuation mm) = 57"
  by (simp add: pt_cmd_blank_continuation_def cmd_defs)

lemma blank_not_short:
  "pt_cmd_blank_continuation mm \<noteq> pt_cmd_ff" "pt_cmd_blank_continuation mm \<noteq> pt_cmd_eject"
  by (auto simp: pt_cmd_ff_def pt_cmd_eject_def dest: arg_cong [where f = length] simp: blank_length)

lemma bench_cut:
  "\<exists>s'. pt_cut bench 160 held_sys = Some ((IPP_STATUS_OK, []), s')
     \<and> outputs (trace s') = [pt_cmd_blank_continuation 12] \<and> pt_run_get s' = PT_RUN_OPEN_BLANK"
proof -
  let ?uri = "Some ''ptouch://Brother/PT-P710BT''"
  have h: "pt_run_get held_sys = PT_RUN_OPEN" "conn held_sys = Some (Usb_Conn bench_conn)" "trace held_sys = []"
    by (simp_all add: held_sys_def bench_sys_def pt_run_get_def idle_state_def)
  obtain live s1 s2 where r: "pt_read_live_tape bench ?uri held_sys = Some (live, s1)"
    and p: "pt_publish_tape bench live s1 = Some (True, s2)"
    and s2: "conn s2 = conn held_sys" "pending_reply (trace s2) = []" "bench_width (trace s2) = 1200" "pt_run_get s2 = PT_RUN_OPEN"
      "outputs (trace s2) = []"
    using bench_live_publish [of held_sys bench_conn] h by (auto simp: observes_def)
  let ?w = "pt_run_set PT_RUN_UNCERTAIN s2"
  obtain s3 where w: "pt_dev_write bench (pt_cmd_blank_continuation 12) ?w = Some (True, s3)"
    "conn s3 = conn ?w" "pending_reply (trace s3) = status_packet 6" "outputs (trace s3) = [pt_cmd_blank_continuation 12]" "has_state s3"
    using s2 open_has_state [of s2] not_status_request(14) [of 12] by (simp add: bench_dev_write blank_length blank_not_short)
  obtain s4 where a: "pt_await_ready bench False 64 s3 = Some ((True, []), s4)"
    using bench_await [of s3 bench_conn False] w(2,3) s2(1) h by auto
  have sil: "silent s3 s4" using await_ensures [of bench False 64 s3] a by (simp add: await_done_def)
  show ?thesis
    using h r p s2 w(1,4,5) a silent_sys [OF sil]
    by (simp add: pt_cut_def confirm_open_run_def recovery_required_result Let_def run_get_set)
qed

section \<open>Properties\<close>

text \<open>C17. Ptouch-Cut sends at most one thing, and only for a held label: if it prints at all, the run
  was open with user content, the output is exactly one blank continuation for the published tape, and
  the run ends in the blank state when the operation reports success and stays uncertain when it
  reports an error. If it prints nothing, the run is only observed, and success then means that no user
  content is held and the run is not uncertain. The job's batch is never touched.\<close>

theorem cut_exact:
  "ensures (pt_cut E msize s) (\<lambda>(status, message) s'. batch s' = batch s \<and>
     (if outputs (trace s') = outputs (trace s)
      then run_observed (pt_run_get s) (pt_run_get s')
        \<and> (status \<noteq> IPP_STATUS_OK \<or> pt_run_get s' = PT_RUN_CLOSED \<or> pt_run_get s' = PT_RUN_OPEN_BLANK)
      else pt_run_get s = PT_RUN_OPEN
        \<and> (\<exists>h. outputs (trace s') = outputs (trace s) @ [cut_blank E h])
        \<and> pt_run_get s' = (if status = IPP_STATUS_OK then PT_RUN_OPEN_BLANK else PT_RUN_UNCERTAIN)))"
proof (rule ensures_mono [OF cut_ensures], clarify)
  fix status message s'
  assume "cut_result E s status message s'"
  then show "batch s' = batch s \<and>
     (if outputs (trace s') = outputs (trace s)
      then run_observed (pt_run_get s) (pt_run_get s')
        \<and> (status \<noteq> IPP_STATUS_OK \<or> pt_run_get s' = PT_RUN_CLOSED \<or> pt_run_get s' = PT_RUN_OPEN_BLANK)
      else pt_run_get s = PT_RUN_OPEN
        \<and> (\<exists>h. outputs (trace s') = outputs (trace s) @ [cut_blank E h])
        \<and> pt_run_get s' = (if status = IPP_STATUS_OK then PT_RUN_OPEN_BLANK else PT_RUN_UNCERTAIN))"
    by (cases "pt_run_get s'") (auto simp: cut_result_def observes_def split: if_splits)
qed

theorem cut_exact_witness:
  "\<exists>s' h. pt_cut bench 160 held_sys = Some ((IPP_STATUS_OK, []), s')
     \<and> outputs (trace s') = [cut_blank bench h] \<and> pt_run_get s' = PT_RUN_OPEN_BLANK"
proof -
  obtain s' where r: "pt_cut bench 160 held_sys = Some ((IPP_STATUS_OK, []), s')" "outputs (trace s') \<noteq> []"
    using bench_cut by auto
  have "outputs (trace held_sys) = []" by (simp add: held_sys_def bench_sys_def)
  then show ?thesis using cut_exact [of bench 160 held_sys] r by (auto split: if_splits)
qed

text \<open>Without user content held, Ptouch-Cut is a pure answer: on a closed run and on a run that
  already holds only the blank continuation it reports success and changes nothing, so repeating it
  feeds no tape; on an uncertain run it reports a device error and only publishes that fact.\<close>

theorem cut_without_content:
  assumes "pt_run_get s \<noteq> PT_RUN_OPEN"
  shows "pt_cut E msize s = Some (
     if pt_run_get s = PT_RUN_UNCERTAIN
     then ((IPP_STATUS_ERROR_DEVICE, snprintf msize ''Output uncertain: power-cycle printer, then restart server''),
           note_event (Ev_Printer_Reasons {REASON_OTHER} {}) s)
     else ((IPP_STATUS_OK, []), s))"
  using assms by (simp add: pt_cut_def confirm_open_run_def recovery_required_result Let_def)

theorem cut_without_content_witness:
  "pt_cut bench 160 bench_sys = Some ((IPP_STATUS_OK, []), bench_sys)"
  using cut_without_content [of bench_sys bench 160]
  by (simp add: bench_sys_def pt_run_get_def idle_state_def)

text \<open>C18. A Ptouch-Cut request reaches the printer only when everything about it is in order: if the
  callback prints, the request was for this operation on a PT-P710BT with open user content, every
  attribute was an allowed operation attribute, there was no document data and the client was
  authorized; every other request leaves the printer's output unchanged.\<close>

theorem cut_request_guarded:
  assumes "\<And>h n. \<not> cl_status_ok c (Ev_Unsupported n # h)"
  shows "ensures (pt_cut_op_cb E c s) (\<lambda>handled s'. outputs (trace s') = outputs (trace s)
     \<or> handled \<and> cl_operation c = PT_OP_CUT \<and> is_710 s \<and> pt_run_get s = PT_RUN_OPEN
        \<and> list_all pt_cut_attribute_allowed (cl_attrs c) \<and> \<not> cl_document_data c (trace s) \<and> cl_authorized c (trace s))"
proof (cases "list_all pt_cut_attribute_allowed (cl_attrs c)")
  case True
  have cutting: "ensures (pt_cut E 160 s1) (\<lambda>r s'. outputs (trace s') = outputs (trace s) \<or> pt_run_get s = PT_RUN_OPEN)"
    if "outputs (trace s1) = outputs (trace s)" "pt_run_get s1 = pt_run_get s" for s1
    by (rule ensures_mono [OF cut_ensures]) (use that in \<open>auto simp: cut_result_def observes_def\<close>)
  have [simp]: "pt_run_get (s1\<lparr>conn := d\<rparr>) = pt_run_get s1" for s1 d by (simp add: pt_run_get_def)
  show ?thesis
    using True
    by (auto simp: pt_cut_op_cb_def Let_def reject_allowed respond_def papplPrinterCloseDevice_def is_710_printer
        split: option.split intro!: ensures_mono [OF cutting])
next
  case False
  obtain n h where "trace (reject_attrs (cl_attrs c) s) = Ev_Unsupported n # h" using reject_flagged [OF False] by blast
  then have "\<not> cl_status_ok c (trace (reject_attrs (cl_attrs c) s))" using assms by simp
  then show ?thesis
    using silent_outputs [OF reject_silent [of s "cl_attrs c"]] by (auto simp: pt_cut_op_cb_def Let_def split: option.split)
qed

definition bench_client :: pt_client where
  "bench_client = \<lparr>cl_has_printer = True, cl_operation = PT_OP_CUT,
     cl_attrs = [\<lparr>attr_name = Some ''printer-uri'', attr_group = IPP_TAG_OPERATION\<rparr>],
     cl_status_ok = (\<lambda>h. case h of Ev_Unsupported n # h' \<Rightarrow> False | _ \<Rightarrow> True),
     cl_document_data = (\<lambda>h. False), cl_authorized = (\<lambda>h. True), cl_open_queued = (\<lambda>h. Some (Some (Usb_Conn bench_conn)))\<rparr>"

theorem cut_request_guarded_witness:
  "ensures (pt_cut_op_cb bench bench_client held_sys) (\<lambda>handled s'. outputs (trace s') = [] \<or> handled \<and> is_710 held_sys)"
proof -
  have "ensures (pt_cut_op_cb bench bench_client held_sys) (\<lambda>handled s'. outputs (trace s') = outputs (trace held_sys)
     \<or> handled \<and> cl_operation bench_client = PT_OP_CUT \<and> is_710 held_sys \<and> pt_run_get held_sys = PT_RUN_OPEN
        \<and> list_all pt_cut_attribute_allowed (cl_attrs bench_client) \<and> \<not> cl_document_data bench_client (trace held_sys)
        \<and> cl_authorized bench_client (trace held_sys))"
    by (rule cut_request_guarded) (simp add: bench_client_def)
  then show ?thesis by (rule ensures_mono) (auto simp: held_sys_def bench_sys_def)
qed

end
