(* ===== verification/Job_Life.thy ===== *)
theory Job_Life
  imports Cut_Operation
begin

text \<open>
  The driver as a state machine: the callbacks PAPPL may make, in any order and with any arguments,
  interleaved with the idle status callback and, while no job owns the device, with Ptouch-Cut
  requests. A callback is one step; the environment may answer differently at every call.
\<close>

inductive job_step :: "env \<Rightarrow> sys \<Rightarrow> sys \<Rightarrow> bool" for E :: env where
  start_job: "batch s = None \<Longrightarrow> r_startjob E s = Some (ok, s') \<Longrightarrow> job_step E s s'"
| start_page: "r_startpage E o1 s = Some (r, s') \<Longrightarrow> job_step E s s'"
| write_line: "r_writeline E o1 y l s = Some (ok, s') \<Longrightarrow> job_step E s s'"
| end_page: "r_endpage E o1 s = Some (ok, s') \<Longrightarrow> job_step E s s'"
| end_job: "r_endjob E s = Some (ok, s') \<Longrightarrow> job_step E s s'"
| idle_status: "status_cb E s = Some (ok, s') \<Longrightarrow> job_step E s s'"
| cut_request: "batch s = None \<Longrightarrow> pt_cut_op_cb E c s = Some (handled, s') \<Longrightarrow> job_step E s s'"

inductive_cases job_step_cases: "job_step E s s'"

section \<open>The cut request as a step\<close>

lemma run_get_conn [simp]: "pt_run_get (s\<lparr>conn := d\<rparr>) = pt_run_get s" "model_of (s\<lparr>conn := d\<rparr>) = model_of s"
  by (simp_all add: pt_run_get_def model_of_def)

definition cut_frame :: "sys \<Rightarrow> sys \<Rightarrow> bool" where
  "cut_frame s s' \<longleftrightarrow> batch s' = batch s \<and> model_of s' = model_of s
     \<and> (pt_run_get s = PT_RUN_UNCERTAIN \<longrightarrow> pt_run_get s' = PT_RUN_UNCERTAIN \<and> outputs (trace s') = outputs (trace s))"

lemma cut_op_frame: "ensures (pt_cut_op_cb E c s) (\<lambda>handled s'. cut_frame s s')"
proof -
  let ?r = "reject_attrs (cl_attrs c) s"
  have r: "cut_frame s ?r" "outputs (trace ?r) = outputs (trace s)" "batch ?r = batch s" "model_of ?r = model_of s"
      "pt_run_get ?r = pt_run_get s"
    using silent_sys [OF reject_silent [of s "cl_attrs c"]] by (simp_all add: cut_frame_def)
  have cutting: "ensures (pt_cut E 160 s1) (\<lambda>r s'. cut_frame s s')"
    if "batch s1 = batch s" "model_of s1 = model_of s" "pt_run_get s1 = pt_run_get s" "outputs (trace s1) = outputs (trace s)" for s1
    by (rule ensures_mono [OF cut_ensures])
      (use that in \<open>auto simp: cut_result_def cut_frame_def observes_def run_observed_def\<close>)
  have keep: "cut_frame s (note_event e s1) = cut_frame s s1" if "no_output e" for e s1
    using that by (simp add: cut_frame_def no_output_def)
  have same: "cut_frame s s" "cut_frame s (s1\<lparr>conn := d\<rparr>) = cut_frame s s1" for s1 d
    by (simp_all add: cut_frame_def)
  show ?thesis
    using r
    by (auto simp: pt_cut_op_cb_def Let_def respond_def papplPrinterCloseDevice_def keep same
        split: option.split intro!: ensures_mono [OF cutting])
qed

section \<open>The invariant\<close>

lemma step_job_ok:
  assumes "job_step E s s'" "job_ok s"
  shows "job_ok s'"
  using assms(1)
proof cases
  case (start_job ok)
  then show ?thesis using ensuresD [OF startjob_job_ok [OF assms(2)]] by blast
next
  case (start_page o1 r)
  then show ?thesis using ensuresD [OF startpage_job_ok [OF assms(2)]] by blast
next
  case (write_line o1 y l ok)
  then show ?thesis using ensuresD [OF writeline_job_ok [OF assms(2)]] by blast
next
  case (end_page o1 ok)
  then show ?thesis using ensuresD [OF endpage_job_ok [OF assms(2)]] by blast
next
  case (end_job ok)
  then show ?thesis using ensuresD [OF endjob_job_ok [OF assms(2)]] by blast
next
  case (idle_status ok)
  then show ?thesis using ensuresD [OF status_job_ok [OF assms(2)]] by blast
next
  case (cut_request c handled)
  then have "cut_frame s s'" using ensuresD [OF cut_op_frame] by blast
  then show ?thesis using assms(2) cut_request(1) by (simp add: cut_frame_def job_ok_def has_state_model)
qed

lemma reachable_job_ok: "rtranclp (job_step E) s s' \<Longrightarrow> job_ok s \<Longrightarrow> job_ok s'"
  by (induction rule: rtranclp_induct) (auto intro: step_job_ok)

section \<open>A failed batch\<close>

definition inert :: "sys \<Rightarrow> bool" where
  \<comment> \<open>no batch may print: none, or a failed one\<close>
  "inert s \<longleftrightarrow> (\<forall>b. batch s = Some b \<longrightarrow> b_failed b)"

lemma fail_inert: "ensures (fail s) (\<lambda>ok s'. \<not> ok \<and> outputs (trace s') = outputs (trace s))"
  by (simp add: fail_def)

lemma inert_callbacks:
  assumes "inert s"
  shows "ensures (r_startpage E o1 s) (\<lambda>r s'. \<not> fst r \<and> s' = pt_fail_job s)"
    and "ensures (r_writeline E o1 y l s) (\<lambda>ok s'. \<not> ok \<and> s' = pt_fail_job s)"
    and "ensures (r_endpage E o1 s) (\<lambda>ok s'. \<not> ok \<and> s' = pt_fail_job s)"
    and "ensures (r_endjob E s) (\<lambda>ok s'. s' = s\<lparr>batch := None\<rparr>)"
proof -
  show "ensures (r_startpage E o1 s) (\<lambda>r s'. \<not> fst r \<and> s' = pt_fail_job s)"
    using assms by (auto simp: r_startpage_def inert_def split: option.split)
  show "ensures (r_writeline E o1 y l s) (\<lambda>ok s'. \<not> ok \<and> s' = pt_fail_job s)"
    using assms by (auto simp: r_writeline_def fail_def inert_def split: option.split)
  show "ensures (r_endpage E o1 s) (\<lambda>ok s'. \<not> ok \<and> s' = pt_fail_job s)"
    using assms by (auto simp: r_endpage_def fail_def inert_def split: option.split)
  show "ensures (r_endjob E s) (\<lambda>ok s'. s' = s\<lparr>batch := None\<rparr>)"
    using assms by (auto simp: r_endjob_def inert_def split: option.split)
qed

lemma startjob_frame:
  "ensures (r_startjob E s) (\<lambda>ok s'. outputs (trace s') = outputs (trace s) \<and> (pt_run_get s = PT_RUN_UNCERTAIN \<longrightarrow>
     \<not> ok \<and> pt_run_get s' = PT_RUN_UNCERTAIN \<and> batch s' = batch s))"
proof -
  have ref: "ensures (pt_refresh_ready_media E s1) (\<lambda>ok s'. outputs (trace s') = outputs (trace s))"
    if "outputs (trace s1) = outputs (trace s)" for s1
    by (rule ensures_mono [OF refresh_observes]) (use that in \<open>auto simp: observes_def\<close>)
  show ?thesis
    by (auto simp: r_startjob_def recovery_required_result pappl_defs split: option.split
        intro!: ensures_mono [OF ref])
qed

lemma inert_step:
  assumes "job_step E s s'" "inert s"
  obtains (start) ok where "batch s = None" "r_startjob E s = Some (ok, s')"
  | (cut_op) c h where "batch s = None" "pt_cut_op_cb E c s = Some (h, s')"
  | (failed) "s' = pt_fail_job s" | (ended) "s' = s\<lparr>batch := None\<rparr>" | (status) "idle_frame s s'"
  using assms(1)
proof cases
  case (start_page o1 r)
  then show thesis using ensuresD [OF inert_callbacks(1) [OF assms(2)]] failed by blast
next
  case (write_line o1 y l ok)
  then show thesis using ensuresD [OF inert_callbacks(2) [OF assms(2)]] failed by blast
next
  case (end_page o1 ok)
  then show thesis using ensuresD [OF inert_callbacks(3) [OF assms(2)]] failed by blast
next
  case (end_job ok)
  then show thesis using ensuresD [OF inert_callbacks(4) [OF assms(2)]] ended by blast
next
  case (idle_status ok)
  then show thesis using ensuresD [OF status_cb_frame] status by blast
qed (use start cut_op in blast)+

lemma quarantine_step:
  assumes "job_step E s s'" "batch s = None" "pt_run_get s = PT_RUN_UNCERTAIN"
  shows "batch s' = None \<and> pt_run_get s' = PT_RUN_UNCERTAIN \<and> outputs (trace s') = outputs (trace s)"
proof -
  have "inert s" using assms(2) by (simp add: inert_def)
  with assms(1) show ?thesis
  proof (cases rule: inert_step)
    case (start ok)
    then show ?thesis using ensuresD [OF startjob_frame start(2)] assms by simp
  next
    case (cut_op c h)
    then show ?thesis using ensuresD [OF cut_op_frame cut_op(2)] assms by (simp add: cut_frame_def)
  next
    case failed
    then show ?thesis using assms by simp
  next
    case ended
    then show ?thesis using assms by (simp add: pt_run_get_def)
  next
    case status
    then show ?thesis using assms by (simp add: idle_frame_def run_observed_def)
  qed
qed

lemma quarantine_steps:
  "rtranclp (job_step E) s s' \<Longrightarrow> batch s = None \<and> pt_run_get s = PT_RUN_UNCERTAIN \<Longrightarrow>
     batch s' = None \<and> pt_run_get s' = PT_RUN_UNCERTAIN \<and> outputs (trace s') = outputs (trace s)"
  by (induction rule: rtranclp_induct) (auto dest: quarantine_step)

section \<open>The bench job starts\<close>

lemma bench_policy: "pt_job_policy bench h = Some (pt_cut_policy_for PT_CUT_EACH)"
  by (simp add: pt_job_policy_def finishing_value_cases)

lemma bench_refresh:
  assumes "conn s = Some (Usb_Conn c)" "pending_reply (trace s) = []" "bench_width (trace s) = 1200"
    and "pt_run_get s \<noteq> PT_RUN_UNCERTAIN"
  shows "\<exists>s'. pt_refresh_ready_media bench s = Some (True, s') \<and> observes s s' \<and> bench_width (trace s') = 1200
    \<and> pending_reply (trace s') = [] \<and> pt_run_get s' = pt_run_get s"
proof -
  let ?s0 = "note_event (Ev_Clock (clock bench (trace s))) s"
  obtain live s1 s2 where r: "pt_read_live_tape bench (device_uri bench) ?s0 = Some (live, s1)"
    "pt_publish_tape bench live s1 = Some (True, s2)" "observes ?s0 s2" "bench_width (trace s2) = 1200"
    "pending_reply (trace s2) = []" "pt_run_get s2 = pt_run_get s"
    using bench_live_publish [of ?s0 c] assms by auto
  then have "iterate (refresh_body bench (device_uri bench) (clock bench (trace s))) () ?s0 = Some ((True, live), s2)"
    by (subst iterate.simps) (simp add: refresh_body_def)
  moreover have "observes s s2" using observes_trans [of s ?s0 s2] r(3) by simp
  ultimately show ?thesis
    using r(4-6) assms(4) by (simp add: pt_refresh_ready_media_def recovery_required_result clock_gettime_def answer_def Let_def)
qed

definition bench_batch :: pt_batch where
  "bench_batch = \<lparr>b_policy = pt_cut_policy_for PT_CUT_EACH, b_tape_mm = 12, b_first_label = True, b_page_active = False,
     b_pending = False, b_failed = False, b_page = None\<rparr>"

lemma bench_sys_facts:
  "conn bench_sys = Some (Usb_Conn bench_conn)" "trace bench_sys = []" "pt_run_get bench_sys = PT_RUN_CLOSED"
  "model_of bench_sys = Some pt_p710bt"
  by (simp_all add: bench_sys_def pt_run_get_def idle_state_def model_of_def)

definition bench_quiet :: "sys \<Rightarrow> bool" where
  \<comment> \<open>the bench printer is open, quiet and in order\<close>
  "bench_quiet s \<longleftrightarrow> conn s = Some (Usb_Conn bench_conn) \<and> pending_reply (trace s) = [] \<and> bench_width (trace s) = 1200
     \<and> pt_run_get s \<noteq> PT_RUN_UNCERTAIN"

definition bench_idle :: "pt_dev \<Rightarrow> sys \<Rightarrow> bool" where
  \<comment> \<open>and it is of this model\<close>
  "bench_idle model s \<longleftrightarrow> bench_quiet s \<and> model_of s = Some model"

lemma bench_sys_idle: "bench_idle pt_p710bt bench_sys"
  by (simp add: bench_idle_def bench_quiet_def bench_sys_facts)

lemma bench_startjob_at:
  assumes "bench_idle model s"
  shows "\<exists>s'. r_startjob bench s = Some (True, s') \<and> batch s' = Some bench_batch \<and> pt_run_get s' = pt_run_get s"
proof -
  obtain s1 where "pt_refresh_ready_media bench (note_event (Ev_Job_Canceled False) s) = Some (True, s1)"
    "bench_width (trace s1) = 1200" "pt_run_get s1 = pt_run_get s"
    using bench_refresh [of "note_event (Ev_Job_Canceled False) s" bench_conn] assms by (auto simp: bench_idle_def bench_quiet_def)
  then show ?thesis
    using assms by (simp add: r_startjob_def papplJobIsCanceled_def answer_def bench_policy recovery_required_result
        bench_idle_def bench_quiet_def alloc_def bench_batch_def pt_run_get_def [of "_\<lparr>batch := _\<rparr>"] Let_def)
      (simp add: pt_run_get_def)
qed

lemma bench_startjob:
  "\<exists>s'. r_startjob bench bench_sys = Some (True, s') \<and> batch s' = Some bench_batch"
  using bench_startjob_at [OF bench_sys_idle] by blast

section \<open>Properties\<close>

text \<open>C10. Uncertain output is quarantined: from a state without a job whose run is uncertain, no
  sequence of jobs, pages, lines, status polls and cut requests, whatever the printer and the clients
  do, prints anything or leaves the uncertain state. Only deleting the printer object (a restart) does.\<close>

theorem uncertain_quarantine:
  assumes "rtranclp (job_step E) s s'" "batch s = None" "pt_run_get s = PT_RUN_UNCERTAIN"
  shows "outputs (trace s') = outputs (trace s) \<and> pt_run_get s' = PT_RUN_UNCERTAIN \<and> batch s' = None"
  using quarantine_steps [OF assms(1)] assms(2,3) by blast

definition uncertain_sys :: sys where
  "uncertain_sys = bench_sys\<lparr>printer := Some (idle_state PT_RUN_UNCERTAIN)\<rparr>"

theorem uncertain_quarantine_witness:
  "\<exists>s'. job_step bench uncertain_sys s' \<and> s' \<noteq> uncertain_sys \<and> outputs (trace s') = []"
proof -
  have u: "batch uncertain_sys = None" "pt_run_get uncertain_sys = PT_RUN_UNCERTAIN" "trace uncertain_sys = []"
    by (simp_all add: uncertain_sys_def bench_sys_def pt_run_get_def idle_state_def)
  have "\<exists>s'. r_startjob bench uncertain_sys = Some (False, s') \<and> trace s' \<noteq> trace uncertain_sys"
    using u by (simp add: r_startjob_def papplJobIsCanceled_def papplJobSetMessage_def answer_def bench_policy
        recovery_required_result Let_def)
  then obtain s' where s': "r_startjob bench uncertain_sys = Some (False, s')" "trace s' \<noteq> trace uncertain_sys" by blast
  have st: "job_step bench uncertain_sys s'" by (rule start_job [OF u(1) s'(1)])
  then have "rtranclp (job_step bench) uncertain_sys s'" by blast
  from uncertain_quarantine [OF this u(1,2)] st s'(2) u(3) show ?thesis by auto
qed

text \<open>C13. A failed batch never prints again: whatever callback comes next, no output is sent, and the
  batch stays failed until the job ends.\<close>

theorem failed_batch_inert:
  assumes "job_step E s s'" "batch s = Some b" "b_failed b"
  shows "outputs (trace s') = outputs (trace s)
    \<and> (case batch s' of None \<Rightarrow> True | Some b' \<Rightarrow> b_failed b')"
proof -
  have "inert s" using assms(2,3) by (simp add: inert_def)
  with assms(1) show ?thesis
  proof (cases rule: inert_step)
    case status
    then show ?thesis using assms by (simp add: idle_frame_def)
  qed (use assms in simp_all)
qed

definition failed_sys :: sys where
  "failed_sys = bench_sys\<lparr>batch := Some (bench_batch\<lparr>b_failed := True, b_pending := True\<rparr>)\<rparr>"

theorem failed_batch_inert_witness:
  "\<exists>s'. job_step bench failed_sys s' \<and> batch s' = None \<and> outputs (trace s') = []"
proof -
  have e: "r_endjob bench failed_sys = Some (True, failed_sys\<lparr>batch := None\<rparr>)"
    by (simp add: r_endjob_def failed_sys_def bench_batch_def)
  then have st: "job_step bench failed_sys (failed_sys\<lparr>batch := None\<rparr>)" by (rule end_job)
  have "batch failed_sys = Some (bench_batch\<lparr>b_failed := True, b_pending := True\<rparr>)" "trace failed_sys = []"
    by (simp_all add: failed_sys_def bench_sys_def)
  with failed_batch_inert [OF st this(1)] st show ?thesis by auto
qed

end
