(* ===== verification/Job_Order.thy ===== *)
theory Job_Order
  imports Job_Life
begin

unbundle bit_operations_syntax

text \<open>
  A whole job. PAPPL drives the callbacks of a raster job in a fixed order; when all of them succeed,
  the bytes given to the device are the encoding of an abstract program: one label after the other,
  each released by what follows it, with the cut the policy asks for. What a model does with one
  page is the interface \<open>page_program\<close>, over which the theorem about whole jobs is proved once.
  \<^verbatim>\<open>Job_Program\<close> gives it for the P710BT, which stages a page before it sends it, and
  \<^verbatim>\<open>Plain_Program\<close> for the other models, which send every line as it comes.
\<close>

section \<open>PAPPL's order of callbacks\<close>

fun feed_lines :: "env \<Rightarrow> pt_options \<Rightarrow> nat \<Rightarrow> u8 list list \<Rightarrow> sys \<Rightarrow> (bool \<times> sys) option" where
  "feed_lines E o1 y [] s = Some (True, s)"
| "feed_lines E o1 y (l # ls) s = do {
     (ok, s) \<leftarrow> r_writeline E o1 (word_of_nat y) l s;
     if ok then feed_lines E o1 (Suc y) ls s else Some (False, s)
   }"

type_synonym page = "pt_options \<times> u8 list list" \<comment> \<open>a page's options and its scanlines\<close>

definition run_page :: "env \<Rightarrow> page \<Rightarrow> sys \<Rightarrow> (bool \<times> sys) option" where
  "run_page E pg s = do {
     ((ok, o2), s) \<leftarrow> r_startpage E (fst pg) s;
     if \<not> ok then Some (False, s)
     else do {
       (ok, s) \<leftarrow> feed_lines E o2 0 (snd pg) s;
       if \<not> ok then Some (False, s) else r_endpage E o2 s
     }
   }"

fun run_pages :: "env \<Rightarrow> page list \<Rightarrow> sys \<Rightarrow> (bool \<times> sys) option" where
  "run_pages E [] s = Some (True, s)"
| "run_pages E (pg # pgs) s = do {
     (ok, s) \<leftarrow> run_page E pg s;
     if ok then run_pages E pgs s else Some (False, s)
   }"

definition run_job :: "env \<Rightarrow> page list \<Rightarrow> sys \<Rightarrow> (bool \<times> sys) option" where
  \<comment> \<open>a job whose every callback reports success; PAPPL ends any other job with \<^verbatim>\<open>r_endjob\<close> as well\<close>
  "run_job E pgs s = do {
     (ok, s) \<leftarrow> r_startjob E s;
     if \<not> ok then Some (False, s)
     else do {
       (ok, s) \<leftarrow> run_pages E pgs s;
       if \<not> ok then do { (_, s) \<leftarrow> r_endjob E s; Some (False, s) } else r_endjob E s
     }
   }"

section \<open>The abstract program\<close>

type_synonym label_code = "pt_cut_policy \<Rightarrow> u8 \<Rightarrow> bool \<Rightarrow> bool \<Rightarrow> u8 list list \<Rightarrow> pcmd list"
  \<comment> \<open>the commands of one label: policy, tape, first of the job, continuing a run, rows\<close>

fun labels_program :: "(bool \<Rightarrow> bool \<Rightarrow> u8 list list \<Rightarrow> pcmd list) \<Rightarrow> bool \<Rightarrow> bool \<Rightarrow> u8 list list list \<Rightarrow> pcmd list" where
  "labels_program lab first cont [] = []"
| "labels_program lab first cont (rows # rest) =
     (if first then [] else [Form_Feed]) @ lab first cont rows @ labels_program lab False True rest"

definition run_program :: "(bool \<Rightarrow> bool \<Rightarrow> u8 list list \<Rightarrow> pcmd list) \<Rightarrow> bool \<Rightarrow> pt_cut_policy \<Rightarrow> u8 list list list \<Rightarrow> pcmd list" where
  "run_program lab cont policy labels =
    (if labels = [] then []
     else labels_program lab True cont labels
       @ (if cut_at_end policy then [Set_Advanced 8, Eject] else [Form_Feed]))"

section \<open>Shared steps\<close>

lemma uint_of_mm: "mm \<in> {6, 9, 12, 18, 24} \<Longrightarrow> uint (word_of_int mm :: u8) = mm"
  by auto

lemma tape_of_page_result:
  assumes "tape_of_page E o1 = (mm, o2)" "mm \<noteq> 0"
  shows "fits (cups_width o1) (size_width (o_media o1)) mm" "cups_height o2 = cups_height o1"
    "35 \<le> unat (cups_height o1)" "unat (cups_height o1) \<le> 2125"
proof -
  have r: "pt_resolve_page_margins E o1 = (mm, o2)" "35 \<le> cups_height o1" "cups_height o1 \<le> 2125"
    using assms by (simp_all add: tape_of_page_def page_limits split: if_splits)
  show "fits (cups_width o1) (size_width (o_media o1)) mm" "cups_height o2 = cups_height o1"
    using resolve_result [OF r(1)] assms(2) by auto
  show "35 \<le> unat (cups_height o1)" "unat (cups_height o1) \<le> 2125"
    using r(2,3) by (simp_all add: word_le_nat_alt)
qed

lemma startpage_begins:
  assumes "r_startpage E o1 s = Some ((True, o2), s')" "batch s = Some b"
  obtains mm g s2 where "tape_of_page E o1 = (mm, o2)" "mm \<noteq> 0" "pt_tape_geometry mm = Some g"
    "\<not> b_failed b" "mm = uint (b_tape_mm b) \<or> b_first_label b" "b_first_label b \<longrightarrow> pt_run_get s \<noteq> PT_RUN_UNCERTAIN"
    "begin_page E s2 = Some (True, s')" "batch s2 = Some (b\<lparr>b_tape_mm := word_of_int mm\<rparr>)"
    "outputs (trace s2) = outputs (trace s)" "model_of s2 = model_of s" "conn s2 = conn s"
    "run_observed (pt_run_get s) (pt_run_get s2)" "tracks E s s2"
    "mm = uint (b_tape_mm b) \<longrightarrow> closings E (trace s2) = closings E (trace s)"
proof -
  let ?s1 = "note_event (Ev_Job_Canceled False) s"
  obtain mm where t: "tape_of_page E o1 = (mm, o2)" by (cases "tape_of_page E o1")
    (use assms in \<open>auto simp: r_startpage_def papplJobIsCanceled_def papplJobSetReasons_def papplJobSetMessage_def
       answer_def Let_def split: if_splits Option.bind_splits\<close>)
  obtain g where g: "pt_tape_geometry mm = Some g" "mm \<noteq> 0" "\<not> b_failed b" "mm = uint (b_tape_mm b) \<or> b_first_label b"
    "b_first_label b \<longrightarrow> pt_run_get s \<noteq> PT_RUN_UNCERTAIN"
    and eq: "(do {
        (ok, s) \<leftarrow> (if mm \<noteq> uint (b_tape_mm b) then pt_wait_for_tape E mm ?s1 else Some (True, ?s1));
        if \<not> ok then Some ((False, o2), pt_fail_job s)
        else do { (ok, s) \<leftarrow> begin_page E s; Some ((ok, o2), s) }
      }) = Some ((True, o2), s')"
    using assms t
    by (auto simp: r_startpage_def papplJobIsCanceled_def papplJobSetReasons_def papplJobSetMessage_def
       answer_def Let_def split: if_splits Option.bind_splits)
  note result = that [OF t g(2,1,3,4,5)]
  show thesis
  proof (cases "mm = uint (b_tape_mm b)")
    case True
    then have "begin_page E ?s1 = Some (True, s')" using eq by (auto split: Option.bind_splits)
    then show thesis using result [of ?s1] True assms(2) by (simp add: run_observed_def)
  next
    case False
    then obtain s2 where w: "pt_wait_for_tape E mm ?s1 = Some (True, s2)" "begin_page E s2 = Some (True, s')"
      using eq by (auto split: Option.bind_splits if_splits)
    have "observes (upd_batch (\<lambda>b. b\<lparr>b_tape_mm := word_of_int mm\<rparr>) ?s1) s2"
      using ensuresD [OF wait_for_tape_waited w(1)] by (simp add: waited_def)
    moreover have "tracks E s s2" using ensuresD [OF wait_for_tape_tracks w(1)] by simp
    ultimately show thesis using result [OF w(2)] assms(2) False by (simp add: observes_def)
  qed
qed

lemma release_previous_result:
  assumes "release_previous E b s = Some (True, s')" "batch s = Some b" "has_state s"
  shows "batch s' = Some (b\<lparr>b_pending := False\<rparr>)" "model_of s' = model_of s" "conn s' = conn s"
    "outputs (trace s') = outputs (trace s) @ (if b_pending b then [pt_cmd_ff] else [])"
    "pt_chain_get s' = (b_pending b \<or> pt_chain_get s)" "closings E' (trace s') = closings E' (trace s)"
proof -
  have r: "released_if (b_pending b) True s s'"
    by (rule ensuresD [OF release_previous_wp [OF assms(2), of "\<lambda>ok. released_if (b_pending b) ok s"] assms(1)])
  show "batch s' = Some (b\<lparr>b_pending := False\<rparr>)" "model_of s' = model_of s" "conn s' = conn s"
    "outputs (trace s') = outputs (trace s) @ (if b_pending b then [pt_cmd_ff] else [])"
    "closings E' (trace s') = closings E' (trace s)"
    using r assms(2) by (auto simp: released_if_def released_def release_cmds_def sends_sys split: if_splits)
  show "pt_chain_get s' = (b_pending b \<or> pt_chain_get s)"
    using r assms(3) by (auto simp: released_if_def released_def pt_chain_get_def run_get_set sends_sys Let_def split: if_splits)
qed

section \<open>Whole jobs, over a model's pages\<close>

definition page_done :: "env \<Rightarrow> bool \<Rightarrow> label_code \<Rightarrow> (pt_geometry \<Rightarrow> u8 list list \<Rightarrow> u8 list list) \<Rightarrow>
    page \<Rightarrow> pt_batch \<Rightarrow> sys \<Rightarrow> sys \<Rightarrow> int \<Rightarrow> pt_geometry \<Rightarrow> bool \<Rightarrow> bool" where
  \<comment> \<open>a page went through: its tape, its window, whether it continued a run, and what was sent\<close>
  "page_done E pb label rows pg b s s' mm g cont \<longleftrightarrow> pt_tape_geometry mm = Some g
     \<and> fits (cups_width (fst pg)) (size_width (o_media (fst pg))) mm \<and> (mm = uint (b_tape_mm b) \<or> b_first_label b)
     \<and> (\<exists>b'. batch s' = Some b' \<and> b_policy b' = b_policy b \<and> b_tape_mm b' = word_of_int mm \<and> \<not> b_first_label b'
          \<and> b_pending b' \<and> \<not> b_page_active b' \<and> \<not> b_failed b')
     \<and> model_of s' = model_of s \<and> conn s' = conn s
     \<and> cont = (b_pending b \<or> run_continues E s s') \<and> closings E (trace s) \<le> closings E (trace s')
     \<and> (mm = uint (b_tape_mm b) \<longrightarrow> closings E (trace s') = closings E (trace s))
     \<and> (b_first_label b \<longrightarrow> pt_run_get s \<noteq> PT_RUN_UNCERTAIN)
     \<and> list_all (\<lambda>r. length r = 16) (rows g (snd pg))
     \<and> outputs (trace s') = outputs (trace s) @ map (encode_cmd pb) ((if b_pending b then [Form_Feed] else [])
          @ label (b_policy b) (word_of_int mm) (b_first_label b) cont (rows g (snd pg)))"

definition pages_fit :: "page list \<Rightarrow> int \<Rightarrow> bool" where
  "pages_fit pgs mm \<longleftrightarrow> (\<forall>pg\<in>set pgs. fits (cups_width (fst pg)) (size_width (o_media (fst pg))) mm)"

definition held_after :: "pt_batch \<Rightarrow> u8 \<Rightarrow> sys \<Rightarrow> sys \<Rightarrow> bool" where
  \<comment> \<open>the batch holds a complete label\<close>
  "held_after b mm s s' \<longleftrightarrow> (\<exists>b'. batch s' = Some b' \<and> b_policy b' = b_policy b \<and> b_tape_mm b' = mm
     \<and> \<not> b_first_label b' \<and> b_pending b' \<and> \<not> b_page_active b' \<and> \<not> b_failed b')
     \<and> model_of s' = model_of s \<and> conn s' = conn s"

lemma startjob_result:
  assumes "r_startjob E s = Some (True, s')"
  shows "\<exists>policy w. pt_job_policy E (Ev_Job_Canceled False # trace s) = Some policy
    \<and> batch s' = Some \<lparr>b_policy = policy, b_tape_mm = w, b_first_label = True, b_page_active = False, b_pending = False,
        b_failed = False, b_page = None\<rparr>
    \<and> outputs (trace s') = outputs (trace s) \<and> model_of s' = model_of s \<and> conn s' = conn s
    \<and> run_observed (pt_run_get s) (pt_run_get s') \<and> pt_run_get s \<noteq> PT_RUN_UNCERTAIN \<and> tracks E s s'"
proof -
  let ?s1 = "note_event (Ev_Job_Canceled False) s"
  obtain policy s2 where p: "pt_job_policy E (Ev_Job_Canceled False # trace s) = Some policy"
    and run: "pt_run_get s \<noteq> PT_RUN_UNCERTAIN" and ref: "pt_refresh_ready_media E ?s1 = Some (True, s2)"
    and s': "s' = (note_event (Ev_Alloc True) s2)\<lparr>batch := Some \<lparr>b_policy = policy,
       b_tape_mm = word_of_int (cdiv (ready_width E (trace s2)) 100),
       b_first_label = True, b_page_active = False, b_pending = False, b_failed = False, b_page = None\<rparr>\<rparr>"
    using assms
    by (auto simp: r_startjob_def papplJobIsCanceled_def papplJobSetMessage_def recovery_required_result answer_def
        alloc_def Let_def split: if_splits option.splits Option.bind_splits)
  have "observes ?s1 s2" using ensuresD [OF refresh_observes ref] by simp
  moreover have "tracks E s s2" using ensuresD [OF refresh_tracks ref] by simp
  ultimately show ?thesis
    using p run s' by (auto simp: observes_def model_of_def pt_run_get_def tracks_def pt_chain_get_def)
qed

lemma endjob_result:
  assumes "r_endjob E s = Some (True, s')" "batch s = Some b" "b_pending b" "\<not> b_page_active b" "\<not> b_failed b"
    and "\<And>h. \<not> job_canceled E h" "\<And>h. job_state E h < IPP_JSTATE_CANCELED" "has_state s"
  shows "outputs (trace s') = outputs (trace s) @ release_cmds (cut_at_end (b_policy b)) \<and> batch s' = None
    \<and> pt_run_get s' = (if cut_at_end (b_policy b) then PT_RUN_CLOSED else PT_RUN_OPEN)
    \<and> closings E' (trace s') = closings E' (trace s)"
proof -
  let ?s1 = "note_event (Ev_Job_State (job_state E (Ev_Job_Canceled False # trace s))) (note_event (Ev_Job_Canceled False) s)"
  obtain s2 where p: "pt_print_pending E True ?s1 = Some (True, s2)" and s': "s' = s2\<lparr>batch := None\<rparr>"
    using assms(1-7)
    by (auto simp: r_endjob_def papplJobIsCanceled_def papplJobGetState_def answer_def Let_def split: Option.bind_splits)
  have "released (cut_at_end (b_policy b)) True ?s1 s2"
    using ensuresD [OF print_pending_released p] assms(2) by simp
  then show ?thesis
    using assms(8) by (auto simp: released_def sends_sys s' run_get_set pt_run_get_def [of "_\<lparr>batch := _\<rparr>"] simp flip: pt_run_get_def)
qed

locale page_program =
  fixes model :: pt_dev and pb :: bool and label :: label_code
    and rows :: "pt_geometry \<Rightarrow> u8 list list \<Rightarrow> u8 list list" and page_ok :: "page \<Rightarrow> bool"
  assumes page: "run_page E pg s = Some (True, s') \<Longrightarrow> batch s = Some b \<Longrightarrow> model_of s = Some model \<Longrightarrow> page_ok pg
      \<Longrightarrow> \<exists>mm g cont. page_done E pb label rows pg b s s' mm g cont"
    and label_valid: "list_all (\<lambda>r. length r = 16) rs \<Longrightarrow> list_all (cmd_ok pb) (label policy mm first cont rs)"
begin

lemma run_pages_rest:
  assumes "run_pages E pgs s = Some (True, s')" "held_after b mm s0 s" "model_of s0 = Some model" "list_all page_ok pgs"
    and "pt_tape_geometry (uint mm) = Some g"
  shows "held_after b mm s0 s' \<and> pages_fit pgs (uint mm) \<and> closings E (trace s') = closings E (trace s)
    \<and> list_all (list_all (\<lambda>r. length r = 16)) (map (rows g \<circ> snd) pgs) \<and> outputs (trace s') = outputs (trace s)
    @ map (encode_cmd pb) (labels_program (label (b_policy b) mm) False True (map (rows g \<circ> snd) pgs))"
  using assms(1,2,4)
proof (induction pgs arbitrary: s)
  case Nil
  then show ?case by (simp add: pages_fit_def)
next
  case (Cons pg pgs)
  obtain s1 where s1: "run_page E pg s = Some (True, s1)" "run_pages E pgs s1 = Some (True, s')"
    using Cons.prems(1) by (auto split: Option.bind_splits if_splits)
  obtain b1 where b1: "batch s = Some b1" "b_policy b1 = b_policy b" "b_tape_mm b1 = mm" "\<not> b_first_label b1" "b_pending b1"
    and m: "model_of s = Some model"
    using Cons.prems(2) assms(3) by (auto simp: held_after_def)
  obtain mm' g' cont where d: "page_done E pb label rows pg b1 s s1 mm' g' cont"
    using page [OF s1(1) b1(1) m] Cons.prems(3) by auto
  then have same: "mm' = uint mm" "g' = g" "cont" using b1 assms(5) by (auto simp: page_done_def)
  have "held_after b mm s0 s1"
    using d Cons.prems(2) b1 same by (auto simp: page_done_def held_after_def)
  from Cons.IH [OF s1(2) this] Cons.prems(3) d same b1 show ?case
    by (auto simp: page_done_def pages_fit_def)
qed

lemma run_valid:
  assumes "list_all (list_all (\<lambda>r. length r = 16)) labels"
  shows "list_all (cmd_ok pb) (run_program (label policy mm) cont policy labels)"
proof -
  have "list_all (cmd_ok pb) (labels_program (label policy mm) first c labels)" for first c
    using assms by (induction labels arbitrary: first c) (auto simp: label_valid)
  then show ?thesis by (simp add: run_program_def)
qed

lemma job_run:
  assumes "run_job E (pg # pgs) s = Some (True, s')" "model_of s = Some model" "list_all page_ok (pg # pgs)"
    and "\<And>h. \<not> job_canceled E h" "\<And>h. job_state E h < IPP_JSTATE_CANCELED"
  obtains policy mm g where "pt_job_policy E (Ev_Job_Canceled False # trace s) = Some policy"
    "pt_tape_geometry mm = Some g" "pages_fit (pg # pgs) mm" "pt_run_get s \<noteq> PT_RUN_UNCERTAIN"
    "outputs (trace s') = outputs (trace s)
       @ map (encode_cmd pb) (run_program (label policy (word_of_int mm)) (run_continues E s s') policy (map (rows g \<circ> snd) (pg # pgs)))"
    "batch s' = None" "pt_run_get s' = (if cut_at_end policy then PT_RUN_CLOSED else PT_RUN_OPEN)"
    "list_all (list_all (\<lambda>r. length r = 16)) (map (rows g \<circ> snd) (pg # pgs))"
    "closings E (trace s) \<le> closings E (trace s')"
    "\<And>s1 b. r_startjob E s = Some (True, s1) \<Longrightarrow> batch s1 = Some b \<Longrightarrow> mm = uint (b_tape_mm b)
       \<Longrightarrow> closings E (trace s') = closings E (trace s1)"
proof -
  obtain s1 s2 s3 where st: "r_startjob E s = Some (True, s1)" and p1: "run_page E pg s1 = Some (True, s2)"
    and ps: "run_pages E pgs s2 = Some (True, s3)" and en: "r_endjob E s3 = Some (True, s')"
    using assms(1) by (auto simp: run_job_def split: Option.bind_splits if_splits)
  obtain policy w where j: "pt_job_policy E (Ev_Job_Canceled False # trace s) = Some policy"
    "batch s1 = Some \<lparr>b_policy = policy, b_tape_mm = w, b_first_label = True, b_page_active = False, b_pending = False,
        b_failed = False, b_page = None\<rparr>"
    "outputs (trace s1) = outputs (trace s)" "model_of s1 = model_of s"
    "tracks E s s1" "pt_run_get s \<noteq> PT_RUN_UNCERTAIN"
    using startjob_result [OF st] by blast
  obtain mm g cont where d: "page_done E pb label rows pg \<lparr>b_policy = policy, b_tape_mm = w, b_first_label = True, b_page_active = False,
      b_pending = False, b_failed = False, b_page = None\<rparr> s1 s2 mm g cont"
    using page [OF p1 j(2)] j(4) assms(2,3) by auto
  then have g: "pt_tape_geometry mm = Some g" by (simp add: page_done_def)
  have mm: "uint (word_of_int mm :: u8) = mm" by (rule uint_of_mm [OF geometry_mm [OF g]])
  let ?b = "\<lparr>b_policy = policy, b_tape_mm = w, b_first_label = True, b_page_active = False,
      b_pending = False, b_failed = False, b_page = None\<rparr>"
  have "held_after ?b (word_of_int mm) s1 s2" using d by (auto simp: page_done_def held_after_def)
  from run_pages_rest [OF ps this] have r: "held_after ?b (word_of_int mm) s1 s3" "pages_fit pgs mm"
    "list_all (list_all (\<lambda>r. length r = 16)) (map (rows g \<circ> snd) pgs)"
    "outputs (trace s3) = outputs (trace s2)
      @ map (encode_cmd pb) (labels_program (label policy (word_of_int mm)) False True (map (rows g \<circ> snd) pgs))"
    "closings E (trace s3) = closings E (trace s2)"
    using j(4) assms(2,3) g mm by auto
  obtain b' where b': "batch s3 = Some b'" "b_policy b' = policy" "b_pending b'" "\<not> b_page_active b'" "\<not> b_failed b'" "has_state s3"
    using r(1) j(4) assms(2) by (auto simp: held_after_def has_state_model)
  note en' = endjob_result [OF en b'(1,3,4,5) assms(4,5) b'(6), of E]
  have "closings E (trace s2) = closings E (trace s')" using r(5) en' by simp
  then have cont: "cont = run_continues E s s'" using d j(5) by (auto simp: page_done_def run_continues_def tracks_def)
  show thesis
  proof (rule that [OF j(1) g])
    show "pages_fit (pg # pgs) mm" using d r(2) by (auto simp: page_done_def pages_fit_def)
    show "pt_run_get s \<noteq> PT_RUN_UNCERTAIN" by (rule j(6))
    show "outputs (trace s') = outputs (trace s)
       @ map (encode_cmd pb) (run_program (label policy (word_of_int mm)) (run_continues E s s') policy (map (rows g \<circ> snd) (pg # pgs)))"
      using d r(4) j(3) en' b'(2) by (auto simp: cont [symmetric] page_done_def run_program_def release_cmds_def)
    show "batch s' = None" "pt_run_get s' = (if cut_at_end policy then PT_RUN_CLOSED else PT_RUN_OPEN)"
      using en' b'(2) by auto
    show "list_all (list_all (\<lambda>r. length r = 16)) (map (rows g \<circ> snd) (pg # pgs))"
      using d r(3) by (simp add: page_done_def)
    show "closings E (trace s) \<le> closings E (trace s')"
      using d j(5) \<open>closings E (trace s2) = closings E (trace s')\<close> by (simp add: page_done_def tracks_def)
    show "closings E (trace s') = closings E (trace t)"
      if "r_startjob E s = Some (True, t)" "batch t = Some b" "mm = uint (b_tape_mm b)" for t b
      using that st j(2) d \<open>closings E (trace s2) = closings E (trace s')\<close> by (auto simp: page_done_def)
  qed
qed

lemma job_decodes:
  assumes "list_all (list_all (\<lambda>r. length r = 16)) labels"
    and "outs' = outs @ map (encode_cmd pb) (run_program (label policy mm) cont policy labels)"
  shows "let bytes = concat (drop (length outs) outs') in
    decode_stream (parse_cmd pb) (length bytes) bytes = Some (run_program (label policy mm) cont policy labels)"
  using cmds.decode_concat [OF run_valid [OF assms(1)] cmds.length_le_bytes] assms(2) by (simp add: Let_def)

end

end
