(* ===== verification/Job_Program.thy ===== *)
theory Job_Program
  imports Job_Order
begin

unbundle bit_operations_syntax

text \<open>
  The program of a P710BT job. A page is staged line by line and sent when it ends, behind the setup
  commands, without its blank end margins; so it meets the interface \<open>page_program\<close> of whole
  jobs with the extended print information and PackBits lines.
\<close>

section \<open>The program of a label\<close>

definition label_program :: label_code where
  \<comment> \<open>a label of a P710BT\<close>
  "label_program policy mm first cont rows =
    (if first then (if cont then [] else [Invalidate, Init]) @ [Raster_Start True, Auto_Status True] else [])
    @ [Print_Info_Ext mm (word_of_nat (length rows)) (if first \<and> \<not> cont then 0 else 1),
       Set_Mode (if first \<or> cut_between policy then 0x40 else 0), Set_Advanced 0, Margin 14, Compression 2]
    @ map Raster_Line rows"

definition job_program :: "bool \<Rightarrow> pt_cut_policy \<Rightarrow> u8 \<Rightarrow> u8 list list list \<Rightarrow> pcmd list" where
  "job_program cont policy mm labels = run_program (label_program policy mm) cont policy labels"

definition interior :: "u8 list list \<Rightarrow> u8 list list" where
  \<comment> \<open>the scanlines without the feed at both ends\<close>
  "interior ls = take (length ls - 28) (drop 14 ls)"

definition packed_rows :: "pt_geometry \<Rightarrow> u8 list list \<Rightarrow> u8 list list" where
  "packed_rows g ls = map (\<lambda>l. the (pt_pack_window l (left_px g) (imageable_px g))) (interior ls)"

section \<open>Receiving a page\<close>

definition staging :: "pt_batch \<Rightarrow> sys \<Rightarrow> sys \<Rightarrow> (nat \<Rightarrow> u8 list) \<Rightarrow> bool" where
  \<comment> \<open>only the staged page changed, to these rows\<close>
  "staging b s s' p \<longleftrightarrow> batch s' = Some (b\<lparr>b_page := Some p\<rparr>) \<and> printer s' = printer s \<and> conn s' = conn s
     \<and> outputs (trace s') = outputs (trace s) \<and> (\<forall>E. closings E (trace s') = closings E (trace s))"

lemma page_margin [simp]: "PAGE_MARGIN = 14"
  by (simp add: PAGE_MARGIN_def PT_END_MARGIN_PX_def)

lemma margin_arith:
  fixes y h :: u32
  assumes "unat y < 4294967000"
  shows "y < 14 \<longleftrightarrow> unat y < 14" "h \<le> y + 14 \<longleftrightarrow> unat h \<le> unat y + 14" "\<not> unat y < 14 \<Longrightarrow> unat (y - 14) = unat y - 14"
proof -
  have "unat (y + 14) = unat y + 14" using assms by (subst unat_word_ariths) simp
  then show "h \<le> y + 14 \<longleftrightarrow> unat h \<le> unat y + 14" by (simp add: word_le_nat_alt)
  show lt: "y < 14 \<longleftrightarrow> unat y < 14" by (simp add: word_less_nat_alt)
  show "\<not> unat y < 14 \<Longrightarrow> unat (y - 14) = unat y - 14" by (subst unat_sub) (simp_all add: word_le_nat_alt)
qed

lemma writeline_710:
  assumes "r_writeline E o1 y l s = Some (True, s')" "batch s = Some b" "b_page b = Some p" "is_710 s"
    and "unat (cups_height o1) \<le> 2125" "unat y < unat (cups_height o1)"
    and "pt_tape_geometry (uint (b_tape_mm b)) = Some g"
  shows "\<exists>w p'. pt_pack_window l (left_px g) (imageable_px g) = Some w \<and> staging b s s' p'
    \<and> (if unat y < 14 \<or> unat (cups_height o1) \<le> unat y + 14 then p' = p \<and> list_all (\<lambda>x. x = 0) w
       else p' = p(unat y - 14 := w))"
proof -
  have y: "unat y < 4294967000" using assms(5,6) by simp
  note arith = margin_arith [OF y]
  obtain st where st: "printer s = Some st" "dev_pid (ps_model st) = PT_P710BT_PID"
    using assms(4) by (auto simp: is_710_def model_of_def)
  let ?s1 = "note_event (Ev_Job_Canceled False) s"
  obtain w where w: "pt_pack_window l (left_px g) (imageable_px g) = Some w"
    and eq: "(if y < PAGE_MARGIN \<or> cups_height o1 \<le> y + PAGE_MARGIN then
               if list_ex (\<lambda>w. w \<noteq> 0) w then do {
                 (_, s) \<leftarrow> papplJobSetMessage ''Raster ink in a physical end margin that hardware feed replaces'' ?s1;
                 fail s
               }
               else Some (True, ?s1)
             else do {
               p \<leftarrow> b_page b;
               let row = unat (y - PAGE_MARGIN);
               if PAGE_ROWS \<le> row then None
               else Some (True, upd_batch (\<lambda>b. b\<lparr>b_page := Some (p(row := w))\<rparr>) ?s1)
             }) = Some (True, s')"
    using assms(1,2,7) st
    by (auto simp: r_writeline_def papplJobIsCanceled_def answer_def fail_def Let_def split: if_splits Option.bind_splits)
  show ?thesis
  proof (cases "unat y < 14 \<or> unat (cups_height o1) \<le> unat y + 14")
    case True
    then have "y < PAGE_MARGIN \<or> cups_height o1 \<le> y + PAGE_MARGIN" by (simp add: arith)
    then have "\<not> list_ex (\<lambda>w. w \<noteq> 0) w \<and> s' = ?s1"
      using eq by (auto simp: papplJobSetMessage_def answer_def fail_def split: if_splits)
    then show ?thesis
      using w assms(2,3) True by (auto simp: staging_def list_all_iff list_ex_iff intro!: exI [of _ p])
  next
    case False
    then have "\<not> (y < PAGE_MARGIN \<or> cups_height o1 \<le> y + PAGE_MARGIN)" by (simp add: arith)
    then have "s' = upd_batch (\<lambda>b. b\<lparr>b_page := Some (p(unat y - 14 := w))\<rparr>) ?s1"
      using eq assms(3) False by (auto simp: Let_def arith split: if_splits)
    then show ?thesis
      using w assms(2,3) False by (auto simp: staging_def)
  qed
qed

lemma staging_trans:
  "staging b s s1 p1 \<Longrightarrow> staging (b\<lparr>b_page := Some p1\<rparr>) s1 s' p' \<Longrightarrow> staging b s s' p'"
  by (simp add: staging_def)

lemma staging_710: "staging b s s' p \<Longrightarrow> is_710 s' = is_710 s"
  by (simp add: staging_def is_710_def model_of_def)

definition line_ok :: "pt_geometry \<Rightarrow> nat \<Rightarrow> (nat \<Rightarrow> u8 list) \<Rightarrow> nat \<Rightarrow> u8 list \<Rightarrow> bool" where
  \<comment> \<open>line \<open>y\<close> of a page of \<open>h\<close> lines is blank in the end margins and staged elsewhere\<close>
  "line_ok g h p y l \<longleftrightarrow> (\<exists>w. pt_pack_window l (left_px g) (imageable_px g) = Some w
     \<and> (if y < 14 \<or> h \<le> y + 14 then list_all (\<lambda>x. x = 0) w else p (y - 14) = w))"

lemma feed_lines_710:
  assumes "feed_lines E o1 k ls s = Some (True, s')" "batch s = Some b" "b_page b = Some p" "is_710 s"
    and "unat (cups_height o1) = h" "h \<le> 2125" "k + length ls \<le> h"
    and "pt_tape_geometry (uint (b_tape_mm b)) = Some g"
  shows "\<exists>p'. staging b s s' p' \<and> (\<forall>i<length ls. line_ok g h p' (k + i) (ls ! i)) \<and> (\<forall>r. r + 14 < k \<longrightarrow> p' r = p r)"
  using assms
proof (induction ls arbitrary: k s b p)
  case Nil
  then show ?case by (auto simp: staging_def intro!: exI [of _ p])
next
  case (Cons l ls)
  obtain s1 where l: "r_writeline E o1 (word_of_nat k) l s = Some (True, s1)" "feed_lines E o1 (Suc k) ls s1 = Some (True, s')"
    using Cons.prems(1) by (auto split: Option.bind_splits if_splits)
  have k: "unat (word_of_nat k :: u32) = k" using Cons.prems(6,7) by (simp add: unat_of_nat take_bit_eq_mod)
  obtain w p1 where w: "pt_pack_window l (left_px g) (imageable_px g) = Some w" "staging b s s1 p1"
    "if k < 14 \<or> h \<le> k + 14 then p1 = p \<and> list_all (\<lambda>x. x = 0) w else p1 = p(k - 14 := w)"
    using writeline_710 [OF l(1) Cons.prems(2,3,4) _ _ Cons.prems(8)] Cons.prems(5,6,7) k by auto
  have b1: "batch s1 = Some (b\<lparr>b_page := Some p1\<rparr>)" "is_710 s1"
    using w(2) staging_710 [OF w(2)] Cons.prems(4) by (simp_all add: staging_def)
  obtain p' where p': "staging (b\<lparr>b_page := Some p1\<rparr>) s1 s' p'" "\<forall>i<length ls. line_ok g h p' (Suc k + i) (ls ! i)"
    "\<forall>r. r + 14 < Suc k \<longrightarrow> p' r = p1 r"
    using Cons.IH [OF l(2) b1(1) _ b1(2) Cons.prems(5,6)] Cons.prems(7,8) by auto
  have "line_ok g h p' (k + i) ((l # ls) ! i)" if "i < length (l # ls)" for i
  proof (cases i)
    case 0
    have "p' (k - 14) = p1 (k - 14)" if "\<not> k < 14" using p'(3) that by auto
    then show ?thesis using w(1,3) 0 by (auto simp: line_ok_def split: if_splits)
  next
    case (Suc j)
    then show ?thesis using p'(2) that by auto
  qed
  moreover have "p' r = p r" if "r + 14 < k" for r
    using p'(3) w(3) that by (auto split: if_splits)
  ultimately show ?case using staging_trans [OF w(2) p'(1)] by blast
qed

lemma staged_rows:
  assumes "\<forall>i<length ls. line_ok g h p i (ls ! i)" "length ls = h" "28 \<le> h"
  shows "map p [0..<h - 28] = packed_rows g ls"
proof (rule nth_equalityI)
  fix i
  assume "i < length (map p [0..<h - 28])"
  then have i: "i < h - 28" by simp
  have "line_ok g h p (i + 14) (ls ! (i + 14))" using assms i by auto
  moreover have "interior ls ! i = ls ! (i + 14)" using i assms by (simp add: interior_def add.commute)
  ultimately show "map p [0..<h - 28] ! i = packed_rows g ls ! i"
    using i assms by (auto simp: packed_rows_def line_ok_def interior_def split: if_splits)
qed (use assms in \<open>simp add: packed_rows_def interior_def\<close>)

section \<open>Starting a page\<close>

definition page_started :: "env \<Rightarrow> pt_options \<Rightarrow> pt_batch \<Rightarrow> sys \<Rightarrow> pt_options \<Rightarrow> sys \<Rightarrow> bool" where
  \<comment> \<open>a P710BT page is being staged: nothing was output; its tape is the batch's, or becomes it before
     the first label\<close>
  "page_started E o1 b s o2 s' \<longleftrightarrow> (\<exists>mm g p. \<not> b_failed b
     \<and> pt_tape_geometry mm = Some g \<and> fits (cups_width o1) (size_width (o_media o1)) mm
     \<and> cups_height o2 = cups_height o1 \<and> 35 \<le> unat (cups_height o1) \<and> unat (cups_height o1) \<le> 2125
     \<and> (mm = uint (b_tape_mm b) \<or> b_first_label b)
     \<and> batch s' = Some (b\<lparr>b_tape_mm := word_of_int mm, b_page := Some p, b_page_active := True\<rparr>)
     \<and> outputs (trace s') = outputs (trace s) \<and> model_of s' = model_of s \<and> conn s' = conn s
     \<and> run_observed (pt_run_get s) (pt_run_get s') \<and> tracks E s s'
     \<and> (mm = uint (b_tape_mm b) \<longrightarrow> closings E (trace s') = closings E (trace s))
     \<and> (b_first_label b \<longrightarrow> pt_run_get s \<noteq> PT_RUN_UNCERTAIN))"

lemma stage_page_result:
  assumes "stage_page E s = Some (True, s')" "batch s = Some b"
  shows "\<exists>p. batch s' = Some (b\<lparr>b_page := Some p, b_page_active := True\<rparr>) \<and> outputs (trace s') = outputs (trace s)
     \<and> model_of s' = model_of s \<and> conn s' = conn s \<and> pt_run_get s' = pt_run_get s
     \<and> (\<forall>E. closings E (trace s') = closings E (trace s))"
  using assms
  by (auto simp: stage_page_def alloc_def answer_def fail_def Let_def split: Option.bind_splits if_splits option.splits)
    (blast intro: refl)+

lemma startpage_710:
  assumes "r_startpage E o1 s = Some ((True, o2), s')" "batch s = Some b" "is_710 s"
  shows "page_started E o1 b s o2 s'"
proof -
  obtain mm g s2 where t: "tape_of_page E o1 = (mm, o2)" "mm \<noteq> 0"
    and g: "pt_tape_geometry mm = Some g" "\<not> b_failed b" "mm = uint (b_tape_mm b) \<or> b_first_label b"
    "b_first_label b \<longrightarrow> pt_run_get s \<noteq> PT_RUN_UNCERTAIN"
    and s2: "begin_page E s2 = Some (True, s')" "batch s2 = Some (b\<lparr>b_tape_mm := word_of_int mm\<rparr>)"
    "outputs (trace s2) = outputs (trace s)" "model_of s2 = model_of s" "conn s2 = conn s"
    "run_observed (pt_run_get s) (pt_run_get s2)" "tracks E s s2"
    "mm = uint (b_tape_mm b) \<longrightarrow> closings E (trace s2) = closings E (trace s)"
    by (rule startpage_begins [OF assms(1,2)])
  have "is_710 s2" using assms(3) s2(4) by (simp add: is_710_def)
  then have "stage_page E s2 = Some (True, s')"
    using s2(1) by (auto simp: begin_page_def is_710_def model_of_def split: Option.bind_splits if_splits)
  from stage_page_result [OF this s2(2)] obtain p where
    "batch s' = Some (b\<lparr>b_tape_mm := word_of_int mm, b_page := Some p, b_page_active := True\<rparr>)"
    "outputs (trace s') = outputs (trace s)" "model_of s' = model_of s" "conn s' = conn s" "pt_run_get s' = pt_run_get s2"
    "closings E (trace s') = closings E (trace s2)"
    using s2 by auto
  then show ?thesis
    unfolding page_started_def using g tape_of_page_result [OF t] s2(6-8)
    by (auto simp: tracks_def pt_chain_get_def)
qed

section \<open>Ending a page\<close>

lemma encode_setup:
  assumes "dev_flags model = dev_flags pt_p710bt"
  shows "setup_710 model b cont rows =
     map (encode_cmd True) ((if b_first_label b then (if cont then [] else [Invalidate, Init]) @ [Raster_Start True, Auto_Status True] else [])
       @ [Print_Info_Ext (b_tape_mm b) rows (if b_first_label b \<and> \<not> cont then 0 else 1),
          Set_Mode (if b_first_label b \<or> cut_between (b_policy b) then 0x40 else 0), Set_Advanced 0, Margin 14, Compression 2])"
  and "raster_line model w = encode_cmd True (Raster_Line w)"
proof -
  have "pt_cmd_rasterstart (dev_flags model) = pt_cmd_rasterstart FLAG_P700_INIT"
    by (simp add: assms pt_p710bt_def pt_cmd_rasterstart_def flag_defs)
  then show "setup_710 model b cont rows =
     map (encode_cmd True) ((if b_first_label b then (if cont then [] else [Invalidate, Init]) @ [Raster_Start True, Auto_Status True] else [])
       @ [Print_Info_Ext (b_tape_mm b) rows (if b_first_label b \<and> \<not> cont then 0 else 1),
          Set_Mode (if b_first_label b \<or> cut_between (b_policy b) then 0x40 else 0), Set_Advanced 0, Margin 14, Compression 2])"
    by (simp add: setup_710_def PT_END_MARGIN_PX_def pt_cut_autocut_def)
  show "raster_line model w = encode_cmd True (Raster_Line w)"
    by (simp add: raster_line_def assms pt_p710bt_def flag_defs)
qed

definition page_sent :: "pt_dev \<Rightarrow> pt_batch \<Rightarrow> (nat \<Rightarrow> u8 list) \<Rightarrow> u32 \<Rightarrow> sys \<Rightarrow> sys \<Rightarrow> bool" where
  "page_sent model b p rows s s' \<longleftrightarrow>
     batch s' = Some (b\<lparr>b_first_label := False, b_page_active := False, b_pending := True\<rparr>)
     \<and> model_of s' = model_of s \<and> conn s' = conn s \<and> pt_run_get s' = PT_RUN_UNCERTAIN
     \<and> (\<forall>E. closings E (trace s') = closings E (trace s))
     \<and> outputs (trace s') = outputs (trace s) @ (if b_pending b then [pt_cmd_ff] else [])
         @ setup_710 model b (b_pending b \<or> pt_chain_get s) rows @ map (\<lambda>y. raster_line model (p y)) [0..<unat rows]"

lemma send_page_result:
  assumes "send_page E o1 model s = Some (True, s')" "batch s = Some b" "b_page b = Some p" "has_state s"
  shows "page_sent model b p (cups_height o1 - 28) s s'"
proof -
  let ?rows = "cups_height o1 - 28"
  obtain s1 where r: "release_previous E b s = Some (True, s1)"
    and eq: "(do {
       b \<leftarrow> batch s1;
       let continuation = pt_chain_get s1;
       let s = pt_run_set PT_RUN_UNCERTAIN s1;
       let rows = cups_height o1 - 2 * PAGE_MARGIN;
       (ok, s) \<leftarrow> job_writes E (setup_710 model b continuation rows) s;
       if \<not> ok then fail s
       else do {
         (ok, s) \<leftarrow> send_rows E model (b_page b) [0..<unat rows] s;
         if \<not> ok then fail s
         else Some (True, upd_batch (\<lambda>b. b\<lparr>b_first_label := False, b_page_active := False, b_pending := True\<rparr>) s)
       }
     }) = Some (True, s')"
    using assms(1,2) by (auto simp: send_page_def fail_def split: Option.bind_splits if_splits)
  note rel = release_previous_result [OF r assms(2,4)]
  let ?b = "b\<lparr>b_pending := False\<rparr>" and ?s1 = "pt_run_set PT_RUN_UNCERTAIN s1"
  have same: "setup_710 model ?b (pt_chain_get s1) ?rows = setup_710 model b (pt_chain_get s1) ?rows"
    by (simp add: setup_710_def)
  obtain s2 s3 where w: "job_writes E (setup_710 model b (pt_chain_get s1) ?rows) ?s1 = Some (True, s2)"
    and rows: "send_rows E model (Some p) [0..<unat ?rows] s2 = Some (True, s3)"
    and s': "s' = upd_batch (\<lambda>b. b\<lparr>b_first_label := False, b_page_active := False, b_pending := True\<rparr>) s3"
    using eq rel(1) assms(3) same by (auto simp: fail_def Let_def split: Option.bind_splits if_splits)
  have sw: "sends (setup_710 model b (pt_chain_get s1) ?rows) ?s1 s2"
    using ensuresD [OF returns_ensures [OF job_writes_sends] w] by auto
  have "sends (map (\<lambda>y. raster_line model (p y)) [0..<unat ?rows]) s2 s3"
    using ensuresD [OF send_rows_sends rows] by auto
  from sends_trans [OF sw this] have sent: "sends (setup_710 model b (pt_chain_get s1) ?rows
      @ map (\<lambda>y. raster_line model (p y)) [0..<unat ?rows]) ?s1 s3" .
  show ?thesis
    unfolding page_sent_def using rel sends_sys [OF sent] by (auto simp: s')
qed

lemma endpage_710:
  assumes "r_endpage E o1 s = Some (True, s')" "batch s = Some b" "b_page b = Some p" "model_of s = Some pt_p710bt"
  shows "page_sent pt_p710bt b p (cups_height o1 - 28) s s'"
proof -
  obtain st where st: "printer s = Some st" "ps_model st = pt_p710bt"
    using assms(4) by (auto simp: model_of_def)
  have "send_page E o1 pt_p710bt (note_event (Ev_Job_Canceled False) s) = Some (True, s')"
    using assms(1,2) st
    by (auto simp: r_endpage_def papplJobIsCanceled_def answer_def fail_def Let_def pt_p710bt_def PT_P710BT_PID_def
        split: if_splits Option.bind_splits)
  from send_page_result [OF this] show ?thesis
    using assms(2,3) st by (simp add: page_sent_def has_state_def pt_chain_get_def)
qed

section \<open>A page, the pages, the job\<close>

lemma packed_lengths:
  assumes "\<forall>i<length ls. line_ok g h p i (ls ! i)"
  shows "list_all (\<lambda>r. length r = 16) (packed_rows g ls)"
proof -
  have "length (the (pt_pack_window l (left_px g) (imageable_px g))) = 16" if "l \<in> set ls" for l
    using assms that pack_window_exact by (fastforce simp: in_set_conv_nth line_ok_def)
  moreover have "set (interior ls) \<subseteq> set ls"
    unfolding interior_def by (meson set_drop_subset set_take_subset subset_trans)
  ultimately show ?thesis by (auto simp: packed_rows_def list_all_iff)
qed

lemma encode_page:
  assumes "map p [0..<h - 28] = packed_rows g ls" "28 \<le> h" "unat rows = h - 28"
  shows "setup_710 pt_p710bt b cont rows @ map (\<lambda>y. raster_line pt_p710bt (p y)) [0..<h - 28]
    = map (encode_cmd True) (label_program (b_policy b) (b_tape_mm b) (b_first_label b) cont (packed_rows g ls))"
proof -
  have "length (packed_rows g ls) = unat rows" using assms by (metis length_map length_upt diff_zero)
  then have "word_of_nat (length (packed_rows g ls)) = rows" by simp
  moreover have "map (\<lambda>y. raster_line pt_p710bt (p y)) [0..<h - 28] = map (raster_line pt_p710bt) (packed_rows g ls)"
    by (simp flip: assms(1) add: comp_def)
  ultimately show ?thesis by (simp add: encode_setup label_program_def comp_def)
qed

lemma run_page_710:
  assumes "run_page E pg s = Some (True, s')" "batch s = Some b" "model_of s = Some pt_p710bt"
    and "length (snd pg) = unat (cups_height (fst pg))"
  shows "\<exists>mm g cont. page_done E True label_program packed_rows pg b s s' mm g cont"
proof -
  let ?h = "unat (cups_height (fst pg))"
  obtain o2 s1 s2 where st: "r_startpage E (fst pg) s = Some ((True, o2), s1)"
    and fd: "feed_lines E o2 0 (snd pg) s1 = Some (True, s2)" and en: "r_endpage E o2 s2 = Some (True, s')"
    using assms(1) by (auto simp: run_page_def split: Option.bind_splits if_splits)
  have p710: "is_710 s" using assms(3) by (simp add: is_710_def pt_p710bt_def PT_P710BT_PID_def)
  obtain mm g p where start: "\<not> b_failed b" "pt_tape_geometry mm = Some g"
    "fits (cups_width (fst pg)) (size_width (o_media (fst pg))) mm"
    "cups_height o2 = cups_height (fst pg)" "35 \<le> ?h" "?h \<le> 2125" "mm = uint (b_tape_mm b) \<or> b_first_label b"
    "batch s1 = Some (b\<lparr>b_tape_mm := word_of_int mm, b_page := Some p, b_page_active := True\<rparr>)"
    "outputs (trace s1) = outputs (trace s)" "model_of s1 = model_of s" "conn s1 = conn s"
    "run_observed (pt_run_get s) (pt_run_get s1)" "b_first_label b \<longrightarrow> pt_run_get s \<noteq> PT_RUN_UNCERTAIN"
    "tracks E s s1" "mm = uint (b_tape_mm b) \<longrightarrow> closings E (trace s1) = closings E (trace s)"
    using startpage_710 [OF st assms(2) p710] by (auto simp: page_started_def)
  let ?b1 = "b\<lparr>b_tape_mm := word_of_int mm, b_page := Some p, b_page_active := True\<rparr>"
  have mm: "uint (word_of_int mm :: u8) = mm" by (rule uint_of_mm [OF geometry_mm [OF start(2)]])
  have "is_710 s1" using p710 start(10) by (simp add: is_710_def)
  from feed_lines_710 [OF fd start(8) _ this, of p ?h g] obtain p' where
    p': "staging ?b1 s1 s2 p'" "\<forall>i<length (snd pg). line_ok g ?h p' i (snd pg ! i)"
    using start(2,4,6) mm assms(4) by auto
  let ?b2 = "?b1\<lparr>b_page := Some p'\<rparr>"
  have s2: "batch s2 = Some ?b2" "model_of s2 = Some pt_p710bt" "conn s2 = conn s" "outputs (trace s2) = outputs (trace s)"
    "pt_chain_get s2 = pt_chain_get s1" "closings E (trace s2) = closings E (trace s1)"
    using p'(1) start assms(3) by (simp_all add: staging_def model_of_def pt_chain_get_def pt_run_get_def)
  have sent: "page_sent pt_p710bt ?b2 p' (cups_height o2 - 28) s2 s'"
    using endpage_710 [OF en s2(1) _ s2(2)] by simp
  let ?cont = "b_pending b \<or> pt_chain_get s2"
  have rows: "unat (cups_height o2 - 28) = ?h - 28"
    using start(4,5) by (subst unat_sub) (simp_all add: word_le_nat_alt)
  have enc: "setup_710 pt_p710bt ?b2 ?cont (cups_height o2 - 28) @ map (\<lambda>y. raster_line pt_p710bt (p' y)) [0..<?h - 28]
    = map (encode_cmd True) (label_program (b_policy b) (word_of_int mm) (b_first_label b) ?cont (packed_rows g (snd pg)))"
    using encode_page [OF staged_rows [OF p'(2) assms(4)], of "cups_height o2 - 28" ?b2 ?cont] rows start(5) by simp
  have "closings E (trace s') = closings E (trace s1)" using sent s2(6) by (simp add: page_sent_def)
  then have "pt_chain_get s2 = run_continues E s s'" "closings E (trace s) \<le> closings E (trace s')"
    using start(14) s2(5) by (auto simp: tracks_def run_continues_def)
  then have "page_done E True label_program packed_rows pg b s s' mm g ?cont"
    unfolding page_done_def
    using sent start s2 rows enc assms(3) packed_lengths [OF p'(2)]
    by (auto simp: page_sent_def)
  then show ?thesis by blast
qed

definition whole_pages :: "page list \<Rightarrow> bool" where
  \<comment> \<open>PAPPL delivers as many lines as the header says\<close>
  "whole_pages pgs \<longleftrightarrow> (\<forall>pg\<in>set pgs. length (snd pg) = unat (cups_height (fst pg)))"

lemma label_program_ok: "list_all (\<lambda>r. length r = 16) rs \<Longrightarrow> list_all (cmd_ok True) (label_program policy mm first c rs)"
  by (auto simp: label_program_def list_all_iff)

interpretation p710: page_program pt_p710bt True label_program packed_rows
    "\<lambda>pg. length (snd pg) = unat (cups_height (fst pg))"
  by unfold_locales (rule run_page_710 label_program_ok; assumption)+

lemma whole_pages_all: "whole_pages pgs = list_all (\<lambda>pg. length (snd pg) = unat (cups_height (fst pg))) pgs"
  by (simp add: whole_pages_def list_all_iff)

lemmas job_run = p710.job_run [folded whole_pages_all job_program_def]

section \<open>The bench job runs\<close>

definition bench_sized :: "pt_options \<Rightarrow> bool" where
  \<comment> \<open>a page for 12 mm tape of 35 rows\<close>
  "bench_sized o1 \<longleftrightarrow> cups_width o1 = 85 \<and> cups_height o1 = 35 \<and> hw_res_x o1 = 180 \<and> hw_res_y o1 = 180
     \<and> bits_per_pixel o1 = 1 \<and> size_width (o_media o1) = 1200"

lemma bench_tape:
  assumes "bench_sized o1"
  shows "tape_of_page bench o1 = (12, resolve_for bench (the (pt_tape_geometry 12)) o1)"
    "margins_defined (resolve_for bench (the (pt_tape_geometry 12)) o1)"
    "window_ok (resolve_for bench (the (pt_tape_geometry 12)) o1) (the (pt_tape_geometry 12))"
proof -
  have sz: "cups_width o1 = 85" "cups_height o1 = 35" "hw_res_x o1 = 180" "hw_res_y o1 = 180" "bits_per_pixel o1 = 1"
    "size_width (o_media o1) = 1200" using assms by (simp_all add: bench_sized_def)
  have "pt_resolve_page_margins bench o1 = (12, resolve_for bench (the (pt_tape_geometry 12)) o1)"
    by (simp add: pt_resolve_page_margins_def pt_tape_mm_def width_matches_fits fits_iff geometry_other sz)
  then show "tape_of_page bench o1 = (12, resolve_for bench (the (pt_tape_geometry 12)) o1)"
    by (simp add: tape_of_page_def page_limits sz)
  show "margins_defined (resolve_for bench (the (pt_tape_geometry 12)) o1)"
    "window_ok (resolve_for bench (the (pt_tape_geometry 12)) o1) (the (pt_tape_geometry 12))"
    by (simp_all add: margins_defined_def window_ok_def page_left_def page_span_def resolve_margins
        pt_submitted_margin_def int32_ok_def sz sint_small)
qed

lemma bench_startpage:
  assumes "batch s = Some bench_batch" "model_of s = Some pt_p710bt" "pt_run_get s \<noteq> PT_RUN_UNCERTAIN" "bench_sized o1"
  shows "\<exists>s'. r_startpage bench o1 s = Some ((True, resolve_for bench (the (pt_tape_geometry 12)) o1), s')"
proof -
  obtain st where "printer s = Some st" "ps_model st = pt_p710bt" using assms(2) by (auto simp: model_of_def)
  then show ?thesis
    using assms(1,3) bench_tape [OF assms(4)]
    by (simp add: r_startpage_def bench_batch_def papplJobIsCanceled_def answer_def begin_page_def pt_p710bt_def
        PT_P710BT_PID_def stage_page_def alloc_def Let_def)
qed

lemma bench_blank: "pt_pack_window (replicate 11 0) 4 76 = Some (replicate 16 0)"
  by code_simp

lemma bench_feed:
  assumes "is_710 s" "batch s = Some b" "b_tape_mm b = 12" "b_page_active b" "\<not> b_failed b" "b_page b = Some p"
    and "cups_height o1 = 35" "cups_width o1 = 85" "k + n \<le> 35"
  shows "\<exists>s'. feed_lines bench o1 k (replicate n (replicate 11 0)) s = Some (True, s')"
  using assms
proof (induction n arbitrary: k s b p)
  case (Suc n)
  have k: "unat (word_of_nat k :: u32) = k" using Suc.prems(9) by (simp add: unat_of_nat take_bit_eq_mod)
  have y: "(word_of_nat k :: u32) < 14 \<longleftrightarrow> k < 14" "35 \<le> (word_of_nat k :: u32) + 14 \<longleftrightarrow> 35 \<le> k + 14"
      "\<not> k < 14 \<Longrightarrow> unat ((word_of_nat k :: u32) - 14) = k - 14"
    using margin_arith(1) [of "word_of_nat k"] margin_arith(2) [of "word_of_nat k" 35] margin_arith(3) [of "word_of_nat k"]
      k Suc.prems(9) by auto
  obtain st where st: "printer s = Some st" "dev_pid (ps_model st) = PT_P710BT_PID"
    using Suc.prems(1) by (auto simp: is_710_def model_of_def)
  have "\<not> 2125 \<le> k - 14" using Suc.prems(9) by simp
  then obtain s1 where s1: "r_writeline bench o1 (word_of_nat k) (replicate 11 0) s = Some (True, s1)"
    using Suc.prems st y bench_blank
    by (auto simp: r_writeline_def papplJobIsCanceled_def answer_def pt_page_width_matches_def PAGE_ROWS_def page_limits
        Let_def list_ex_iff)
  obtain p1 where p1: "staging b s s1 p1"
    using writeline_710 [OF s1 Suc.prems(2,6,1)] k Suc.prems by auto
  from Suc.IH [of s1 "b\<lparr>b_page := Some p1\<rparr>" p1 "Suc k"] p1 Suc.prems staging_710 [OF p1] s1 show ?case
    by (auto simp: staging_def)
qed simp

lemma bench_job_write: "\<exists>s'. pt_job_write bench buf s = Some (True, s')"
  by (simp add: pt_job_write_def bench_dev_write)

lemma bench_job_writes: "\<exists>s'. job_writes bench bufs s = Some (True, s')"
proof (induction bufs arbitrary: s)
  case (Cons buf bufs)
  then show ?case using bench_job_write [of buf s] by auto
qed simp

lemma bench_send_rows: "\<forall>y\<in>set ys. y < PAGE_ROWS \<Longrightarrow> \<exists>s'. send_rows bench model (Some p) ys s = Some (True, s')"
proof (induction ys arbitrary: s)
  case (Cons y ys)
  then show ?case using bench_job_write [of "raster_line model (p y)" s] by auto
qed simp

lemma bench_endpage:
  assumes "batch s = Some b" "b_page b = Some p" "\<not> b_failed b" "b_page_active b" "\<not> b_pending b"
    and "model_of s = Some pt_p710bt" "cups_height o1 = 35"
  shows "\<exists>s'. r_endpage bench o1 s = Some (True, s')"
proof -
  obtain st where st: "printer s = Some st" "ps_model st = pt_p710bt" using assms(6) by (auto simp: model_of_def)
  let ?s1 = "note_event (Ev_Job_Canceled False) s"
  obtain s2 where "job_writes bench (setup_710 pt_p710bt b (pt_chain_get ?s1) (35 - 28)) (pt_run_set PT_RUN_UNCERTAIN ?s1) = Some (True, s2)"
    using bench_job_writes by blast
  moreover obtain s3 where "send_rows bench pt_p710bt (Some p) [0..<7] s2 = Some (True, s3)"
    using bench_send_rows [of "[0..<7]" pt_p710bt p s2] by (auto simp: PAGE_ROWS_def page_limits)
  ultimately show ?thesis
    using assms st
    by (simp add: r_endpage_def papplJobIsCanceled_def answer_def send_page_def release_previous_def Let_def
        PT_P710BT_PID_def pt_p710bt_def [THEN arg_cong [where f = dev_pid]])
qed

lemma bench_print_pending:
  assumes "conn s = Some (Usb_Conn c)" "batch s = Some b" "b_policy b = pt_cut_policy_for PT_CUT_EACH"
  shows "\<exists>s'. pt_print_pending bench True s = Some (True, s')"
proof -
  let ?s1 = "note_event (Ev_Job_Canceled False) s"
  obtain s2 where s2: "pt_job_write bench (pt_cmd_setadvanced 8) ?s1 = Some (True, s2)" "conn s2 = conn s"
    by (simp add: pt_job_write_def bench_dev_write)
  obtain s3 where s3: "pt_job_write bench pt_cmd_eject (note_event (Ev_Job_Canceled False) s2) = Some (True, s3)"
      "conn s3 = conn s" "pending_reply (trace s3) = status_packet 6"
    using s2(2) not_status_request by (simp add: pt_job_write_def bench_dev_write)
  obtain s4 where "pt_await_ready bench True 64 s3 = Some ((True, []), s4)"
    using bench_await [of s3 c True] s3 assms(1) by auto
  then have "pt_wait_ready bench s3 = Some (True, s4)" by (simp add: pt_wait_ready_def)
  then show ?thesis
    using assms s2(1) s3(1) by (simp add: pt_print_pending_def papplJobIsCanceled_def answer_def Let_def)
qed

lemma bench_job_runs_at:
  assumes "bench_idle pt_p710bt s" "bench_sized o1"
  shows "\<exists>s'. run_job bench [(o1, replicate 35 (replicate 11 0))] s = Some (True, s')"
proof -
  let ?o = "resolve_for bench (the (pt_tape_geometry 12)) o1"
  have sz: "cups_width o1 = 85" "cups_height o1 = 35" "size_width (o_media o1) = 1200"
    using assms(2) by (simp_all add: bench_sized_def)
  obtain s1 where s1: "r_startjob bench s = Some (True, s1)" "batch s1 = Some bench_batch"
    using bench_startjob_at [OF assms(1)] by blast
  have f1: "model_of s1 = Some pt_p710bt" "conn s1 = Some (Usb_Conn bench_conn)" "pt_run_get s1 \<noteq> PT_RUN_UNCERTAIN"
    using startjob_result [OF s1(1)] assms(1) by (auto simp: run_observed_def bench_idle_def bench_quiet_def)
  then have p710: "is_710 s1" by (simp add: is_710_def pt_p710bt_def PT_P710BT_PID_def)
  obtain s2 where s2: "r_startpage bench o1 s1 = Some ((True, ?o), s2)"
    using bench_startpage [OF s1(2) f1(1,3) assms(2)] by blast
  obtain p where st: "batch s2 = Some (bench_batch\<lparr>b_page := Some p, b_page_active := True\<rparr>)" "model_of s2 = Some pt_p710bt"
      "conn s2 = Some (Usb_Conn bench_conn)"
  proof -
    obtain mm p where "fits 85 1200 mm" "batch s2 = Some (bench_batch\<lparr>b_tape_mm := word_of_int mm, b_page := Some p, b_page_active := True\<rparr>)"
      "model_of s2 = model_of s1" "conn s2 = conn s1"
      using startpage_710 [OF s2 s1(2) p710] by (auto simp: page_started_def sz)
    then show thesis using that [of p] f1 by (auto simp: fits_iff bench_batch_def)
  qed
  let ?b = "bench_batch\<lparr>b_page := Some p, b_page_active := True\<rparr>"
  have p2: "is_710 s2" using st(2) by (simp add: is_710_def pt_p710bt_def PT_P710BT_PID_def)
  obtain s3 where s3: "feed_lines bench ?o 0 (replicate 35 (replicate 11 0)) s2 = Some (True, s3)"
    using bench_feed [OF p2 st(1), of p ?o 0 35] by (auto simp: bench_batch_def sz)
  obtain p' where p': "staging ?b s2 s3 p'"
    using feed_lines_710 [OF s3 st(1) _ p2, of p 35 "the (pt_tape_geometry 12)"] by (auto simp: bench_batch_def sz)
  have f3: "batch s3 = Some (?b\<lparr>b_page := Some p'\<rparr>)" "model_of s3 = Some pt_p710bt" "conn s3 = Some (Usb_Conn bench_conn)"
    using p' st by (auto simp: staging_def model_of_def)
  obtain s4 where s4: "r_endpage bench ?o s3 = Some (True, s4)"
    using bench_endpage [OF f3(1), of p' ?o] f3(2) by (auto simp: bench_batch_def sz)
  have f4: "batch s4 = Some (?b\<lparr>b_page := Some p', b_first_label := False, b_page_active := False, b_pending := True\<rparr>)"
      "conn s4 = Some (Usb_Conn bench_conn)"
    using endpage_710 [OF s4 f3(1) _ f3(2)] f3(3) by (auto simp: page_sent_def)
  have "run_page bench (o1, replicate 35 (replicate 11 0)) s1 = Some (True, s4)"
    using s2 s3 s4 by (simp add: run_page_def)
  moreover obtain s5 where "r_endjob bench s4 = Some (True, s5)"
  proof -
    let ?s = "note_event (Ev_Job_State 5) (note_event (Ev_Job_Canceled False) s4)"
    obtain s5 where "pt_print_pending bench True ?s = Some (True, s5)"
      using bench_print_pending [of ?s bench_conn] f4 by (auto simp: bench_batch_def)
    then show thesis
      using that f4(1) by (simp add: r_endjob_def papplJobIsCanceled_def papplJobGetState_def answer_def bench_batch_def
          IPP_JSTATE_CANCELED_def Let_def)
  qed
  ultimately show ?thesis using s1(1) by (simp add: run_job_def)
qed

lemma bench_job_runs:
  "\<exists>s'. run_job bench [(bench_page, replicate 35 (replicate 11 0))] bench_sys = Some (True, s')"
  by (rule bench_job_runs_at [OF bench_sys_idle]) (simp add: bench_sized_def bench_page_def)

context page_program
begin

lemma bench_continues:
  assumes "run_job bench (pg # pgs) s = Some (True, s')" "bench_idle model s" "bench_sized (fst pg)" "list_all page_ok (pg # pgs)"
    and "pt_chain_get s"
  shows "run_continues bench s s'"
proof -
  have c: "\<And>h. \<not> job_canceled bench h" "\<And>h. job_state bench h < IPP_JSTATE_CANCELED" by (simp_all add: IPP_JSTATE_CANCELED_def)
  have m: "model_of s = Some model" using assms(2) by (simp add: bench_idle_def)
  obtain s1 where s1: "r_startjob bench s = Some (True, s1)" "batch s1 = Some bench_batch" "pt_run_get s1 = pt_run_get s"
    using bench_startjob_at [OF assms(2)] by blast
  have "tracks bench s s1" using startjob_result [OF s1(1)] by blast
  then have eq: "closings bench (trace s1) = closings bench (trace s)"
    using assms(5) s1(3) by (simp add: tracks_def pt_chain_get_def)
  obtain mm where mm: "pages_fit (pg # pgs) mm"
      "mm = uint (b_tape_mm bench_batch) \<Longrightarrow> closings bench (trace s') = closings bench (trace s1)"
    using job_run [OF assms(1) m assms(4) c] s1(1,2) by metis
  have "mm = 12" using mm(1) assms(3) by (auto simp: pages_fit_def bench_sized_def fits_iff)
  then show ?thesis using mm(2) eq assms(5) by (simp add: run_continues_def bench_batch_def)
qed

end

lemma held_sys_facts:
  "trace held_sys = []" "pt_chain_get held_sys" "bench_idle pt_p710bt held_sys" "model_of held_sys = Some pt_p710bt"
  "\<not> pt_chain_get bench_sys"
  by (simp_all add: held_sys_def bench_sys_def pt_chain_get_def pt_run_get_def idle_state_def bench_idle_def bench_quiet_def
      model_of_def)

section \<open>Properties\<close>

text \<open>C1. A successful P710BT job prints exactly its program. When PAPPL's callbacks of a job of
  whole pages all succeed and the job is not canceled, the buffers sent to the device, in order, are
  the encoding of the abstract job program. It begins with invalidation and initialization unless a
  held run continues, that is, exactly unless the run was held when the job came and no reading of
  the tape during the job reported the cassette gone or of another width. One
  print-information block per label has the interior row count and the first-page flag; the
  pre-cut is mandatory on the first label and the policy's on the others; the packed interior rows of
  every page follow, a form feed between labels, and at the end the final cut if the
  policy asks for it, else a form feed that holds the label. All pages fit the one tape that is
  declared, the run ends closed exactly after a final cut, and the batch is gone.\<close>

theorem job_prints_program:
  assumes "run_job E (pg # pgs) s = Some (True, s')" "model_of s = Some pt_p710bt" "whole_pages (pg # pgs)"
    and "\<And>h. \<not> job_canceled E h" "\<And>h. job_state E h < IPP_JSTATE_CANCELED"
  shows "\<exists>policy mm g. pt_job_policy E (Ev_Job_Canceled False # trace s) = Some policy
    \<and> pt_tape_geometry mm = Some g \<and> pages_fit (pg # pgs) mm
    \<and> outputs (trace s') = outputs (trace s)
       @ map (encode_cmd True) (job_program (run_continues E s s') policy (word_of_int mm) (map (packed_rows g \<circ> snd) (pg # pgs)))
    \<and> batch s' = None \<and> pt_run_get s' = (if cut_at_end policy then PT_RUN_CLOSED else PT_RUN_OPEN)"
  by (rule job_run [OF assms]) (intro exI conjI, assumption+)

definition blank_job :: "page list" where
  \<comment> \<open>one blank page for 12 mm tape\<close>
  "blank_job = [(bench_page, replicate 35 (replicate 11 0))]"

theorem job_prints_program_witness:
  "(\<exists>s' mm g. run_job bench blank_job bench_sys = Some (True, s')
      \<and> pt_tape_geometry mm = Some g \<and> outputs (trace s') = map (encode_cmd True)
          (job_program False (pt_cut_policy_for PT_CUT_EACH) (word_of_int mm) [packed_rows g (replicate 35 (replicate 11 0))])
      \<and> pt_run_get s' = PT_RUN_CLOSED)
   \<and> (\<exists>s' mm g. run_job bench blank_job held_sys = Some (True, s')
      \<and> pt_tape_geometry mm = Some g \<and> outputs (trace s') = map (encode_cmd True)
          (job_program True (pt_cut_policy_for PT_CUT_EACH) (word_of_int mm) [packed_rows g (replicate 35 (replicate 11 0))])
      \<and> pt_run_get s' = PT_RUN_CLOSED)"
proof
  have c: "\<And>h. \<not> job_canceled bench h" "\<And>h. job_state bench h < IPP_JSTATE_CANCELED" by (simp_all add: IPP_JSTATE_CANCELED_def)
  have w: "whole_pages blank_job" by (simp add: blank_job_def whole_pages_def bench_page_def)
  have sz: "bench_sized bench_page" by (simp add: bench_sized_def bench_page_def)
  obtain s1 where s1: "run_job bench blank_job bench_sys = Some (True, s1)" using bench_job_runs by (auto simp: blank_job_def)
  moreover have "\<not> run_continues bench bench_sys s1" by (simp add: run_continues_def held_sys_facts)
  ultimately show "\<exists>s' mm g. run_job bench blank_job bench_sys = Some (True, s')
      \<and> pt_tape_geometry mm = Some g \<and> outputs (trace s') = map (encode_cmd True)
          (job_program False (pt_cut_policy_for PT_CUT_EACH) (word_of_int mm) [packed_rows g (replicate 35 (replicate 11 0))])
      \<and> pt_run_get s' = PT_RUN_CLOSED"
    using job_prints_program [OF s1 [unfolded blank_job_def] bench_sys_facts(4) w [unfolded blank_job_def] c]
    by (auto simp: bench_sys_facts bench_policy)
  obtain s2 where s2: "run_job bench blank_job held_sys = Some (True, s2)"
    using bench_job_runs_at [OF held_sys_facts(3) sz] by (auto simp: blank_job_def)
  have "run_continues bench held_sys s2"
    by (rule p710.bench_continues [OF s2 [unfolded blank_job_def] held_sys_facts(3)])
      (use w in \<open>simp_all add: sz held_sys_facts whole_pages_def blank_job_def\<close>)
  then show "\<exists>s' mm g. run_job bench blank_job held_sys = Some (True, s')
      \<and> pt_tape_geometry mm = Some g \<and> outputs (trace s') = map (encode_cmd True)
          (job_program True (pt_cut_policy_for PT_CUT_EACH) (word_of_int mm) [packed_rows g (replicate 35 (replicate 11 0))])
      \<and> pt_run_get s' = PT_RUN_CLOSED"
    using job_prints_program [OF s2 [unfolded blank_job_def] held_sys_facts(4) w [unfolded blank_job_def] c] s2
    by (auto simp: held_sys_facts bench_policy)
qed

text \<open>A printer that reads the bytes of such a job understands exactly that program: decoding the
  concatenation of everything the job sent yields the job program, command by command, and nothing
  else.\<close>

theorem job_bytes_decode:
  assumes "run_job E (pg # pgs) s = Some (True, s')" "model_of s = Some pt_p710bt" "whole_pages (pg # pgs)"
    and "\<And>h. \<not> job_canceled E h" "\<And>h. job_state E h < IPP_JSTATE_CANCELED"
  shows "\<exists>policy mm g. pt_tape_geometry mm = Some g
    \<and> (let bytes = concat (drop (length (outputs (trace s))) (outputs (trace s'))) in
       decode_stream (parse_cmd True) (length bytes) bytes
         = Some (job_program (run_continues E s s') policy (word_of_int mm) (map (packed_rows g \<circ> snd) (pg # pgs))))"
proof -
  obtain policy mm g where j: "pt_tape_geometry mm = Some g"
    "outputs (trace s') = outputs (trace s)
       @ map (encode_cmd True) (job_program (run_continues E s s') policy (word_of_int mm) (map (packed_rows g \<circ> snd) (pg # pgs)))"
    "list_all (list_all (\<lambda>r. length r = 16)) (map (packed_rows g \<circ> snd) (pg # pgs))"
    by (rule job_run [OF assms]) (rule that, assumption+)
  from p710.job_decodes [OF j(3), folded job_program_def, OF j(2)] j(1) show ?thesis by blast
qed

theorem job_bytes_decode_witness:
  "\<exists>s' prog. run_job bench [(bench_page, replicate 35 (replicate 11 0))] bench_sys = Some (True, s')
    \<and> (let bytes = concat (outputs (trace s')) in decode_stream (parse_cmd True) (length bytes) bytes = Some prog)"
proof -
  obtain s' where r: "run_job bench [(bench_page, replicate 35 (replicate 11 0))] bench_sys = Some (True, s')"
    using bench_job_runs by blast
  from job_bytes_decode [OF r] show ?thesis
    using r by (auto simp: bench_sys_facts whole_pages_def bench_page_def IPP_JSTATE_CANCELED_def Let_def)
qed

end
