(* ===== verification/Callback_Safety.thy ===== *)
theory Callback_Safety
  imports Job_Program
begin

unbundle bit_operations_syntax

text \<open>
  What holds of the single callbacks whatever happens around them: waiting for a tape, receiving a
  page without printing, and the absence of undefined behaviour and of endless waits.
\<close>

section \<open>Receiving prints nothing\<close>

lemma begin_page_staged:
  "is_710 s \<Longrightarrow> ensures (begin_page E s) (\<lambda>ok s'. outputs (trace s') = outputs (trace s) \<and> pt_run_get s' = pt_run_get s)"
  by (auto simp: begin_page_def ensures_state is_710_printer stage_page_def fail_def pappl_defs)

lemma startpage_staged:
  assumes "is_710 s"
  shows "ensures (r_startpage E o1 s) (\<lambda>r s'. outputs (trace s') = outputs (trace s) \<and> run_observed (pt_run_get s) (pt_run_get s'))"
proof -
  have o: "run_observed r r" for r by (simp add: run_observed_def)
  have wait: "ensures (pt_wait_for_tape E mm s1) (\<lambda>ok s'. outputs (trace s') = outputs (trace s)
      \<and> run_observed (pt_run_get s) (pt_run_get s') \<and> is_710 s')"
    if "outputs (trace s1) = outputs (trace s)" "pt_run_get s1 = pt_run_get s" "is_710 s1" for s1 mm
    by (rule ensures_mono [OF wait_for_tape_waited]) (use that in \<open>auto simp: waited_def observes_def is_710_def split: if_splits\<close>)
  have beg: "ensures (begin_page E s1) (\<lambda>ok s'. outputs (trace s') = outputs (trace s) \<and> run_observed (pt_run_get s) (pt_run_get s'))"
    if "outputs (trace s1) = outputs (trace s)" "run_observed (pt_run_get s) (pt_run_get s1)" "is_710 s1" for s1
    by (rule ensures_mono [OF begin_page_staged [OF that(3)]]) (use that in auto)
  show ?thesis
    using assms
    by (auto simp: r_startpage_def ensures_state pappl_defs o split: option.split prod.split
        intro!: ensures_mono [OF wait] beg)
qed

lemma writeline_staged:
  assumes "is_710 s"
  shows "ensures (r_writeline E o1 y l s) (\<lambda>ok s'. outputs (trace s') = outputs (trace s) \<and> pt_run_get s' = pt_run_get s)"
  using assms
  by (auto simp: r_writeline_def ensures_state pappl_defs fail_def is_710_printer Let_def split: option.split)

section \<open>Every callback returns\<close>

lemma wait_ready_total:
  assumes "reads_end E" "clock_advances E" "link_matches (device_uri E) (conn s)"
  shows "returns (pt_wait_ready E s) (\<lambda>ok s'. True)"
proof -
  obtain ok m s' where "pt_await_ready E True 64 s = Some ((ok, m), s')"
    using await_total [OF assms, where job = True and msize = 64] by (auto simp: returns_iff)
  then show ?thesis by (auto simp: pt_wait_ready_def papplJobSetMessage_def)
qed

lemma job_write_total: "\<exists>ok s'. pt_job_write E buf s = Some (ok, s') \<and> conn s' = conn s"
  using job_write_returns [of E buf s] by (auto simp: returns_iff)

lemma print_pending_total:
  assumes "reads_end E" "clock_advances E" "link_matches (device_uri E) (conn s)" "batch s = Some b"
  shows "returns (pt_print_pending E final s) (\<lambda>ok s'. True)"
proof -
  let ?s1 = "note_event (Ev_Job_Canceled False) s"
  have tail: "returns (do {
         (canceled, s) \<leftarrow> papplJobIsCanceled E s1;
         if canceled then Some (False, s)
         else do {
           (ok, s) \<leftarrow> pt_job_write E buf s;
           if \<not> ok then Some (False, s)
           else do {
             (ok, s) \<leftarrow> pt_wait_ready E s;
             if \<not> ok then Some (False, s) else Some (True, g s)
           }
         }
       }) (\<lambda>ok s'. True)" if same: "conn s1 = conn s" for s1 buf and g :: "sys \<Rightarrow> sys"
  proof -
    obtain ok s2 where w: "pt_job_write E buf (note_event (Ev_Job_Canceled False) s1) = Some (ok, s2)" "conn s2 = conn s"
      using job_write_total [of E buf "note_event (Ev_Job_Canceled False) s1"] same by auto
    obtain ok' s3 where "pt_wait_ready E s2 = Some (ok', s3)"
      using wait_ready_total [of E s2] assms w(2) by (auto simp: returns_iff)
    then show ?thesis using w(1) by (simp add: papplJobIsCanceled_def answer_def Let_def)
  qed
  obtain ok s2 where w: "pt_job_write E (pt_cmd_setadvanced 8) ?s1 = Some (ok, s2)" "conn s2 = conn s"
    using job_write_total [of E "pt_cmd_setadvanced 8" ?s1] by auto
  show ?thesis
    using assms(4) w tail [of s2] tail [of ?s1]
    by (simp add: pt_print_pending_def papplJobIsCanceled_def Let_def)
qed

lemma job_writes_total:
  "pt_cmd_status_request \<notin> set bufs \<Longrightarrow> \<exists>ok s' k. job_writes E bufs s = Some (ok, s') \<and> sends (take k bufs) s s'"
  using job_writes_sends [of bufs E s] by (auto simp: returns_iff)

lemma send_rows_total: "\<forall>y\<in>set ys. y < PAGE_ROWS \<Longrightarrow> returns (send_rows E model (Some p) ys s) (\<lambda>ok s'. True)"
proof (induction ys arbitrary: s)
  case (Cons y ys)
  obtain ok s1 where "pt_job_write E (raster_line model (p y)) s = Some (ok, s1)"
    using job_write_total [of E "raster_line model (p y)" s] by auto
  then show ?case using Cons by (cases ok) simp_all
qed simp

lemma release_previous_total:
  assumes "reads_end E" "clock_advances E" "link_matches (device_uri E) (conn s)" "batch s = Some b"
  shows "\<exists>ok s' b'. release_previous E b s = Some (ok, s') \<and> batch s' = Some b' \<and> b_page b' = b_page b \<and> has_state s' = has_state s"
proof -
  have "returns (release_previous E b s) (\<lambda>ok s'. True)"
    using print_pending_total [OF assms] by (simp add: release_previous_def)
  moreover have "ensures (release_previous E b s) (\<lambda>ok s'. \<exists>b'. batch s' = Some b' \<and> b_page b' = b_page b \<and> has_state s' = has_state s)"
    by (rule release_previous_wp [where b = b])
      (use assms(4) in \<open>auto simp: released_if_def released_def sends_sys split: if_splits\<close>)
  ultimately show ?thesis by (auto simp: returns_iff)
qed

lemma send_page_total:
  assumes "reads_end E" "clock_advances E" "link_matches (device_uri E) (conn s)" "batch s = Some b" "b_page b = Some p"
    and "28 \<le> unat (cups_height o1)" "unat (cups_height o1) \<le> PAGE_ROWS + 28"
  shows "returns (send_page E o1 model s) (\<lambda>ok s'. True)"
proof -
  obtain ok s1 b1 where r: "release_previous E b s = Some (ok, s1)" "batch s1 = Some b1" "b_page b1 = Some p"
    using release_previous_total [OF assms(1-4)] assms(5) by auto
  let ?s2 = "pt_run_set PT_RUN_UNCERTAIN s1" and ?n = "cups_height o1 - 28"
  obtain ok' s3 k where w: "job_writes E (setup_710 model b1 (pt_chain_get s1) ?n) ?s2 = Some (ok', s3)"
      "sends (take k (setup_710 model b1 (pt_chain_get s1) ?n)) ?s2 s3"
    using job_writes_total setup_no_status(2) by blast
  have b3: "batch s3 = Some b1" using sends_sys(2) [OF w(2)] r(2) by simp
  have "unat ?n = unat (cups_height o1) - 28"
    using assms(6) by (subst unat_sub) (simp_all add: word_le_nat_alt)
  then have rows: "\<forall>y\<in>set [0..<unat ?n]. y < PAGE_ROWS" using assms(7) by auto
  obtain ok'' s4 where "send_rows E model (Some p) [0..<unat ?n] s3 = Some (ok'', s4)"
    using send_rows_total [OF rows, where E = E and model = model and p = p and s = s3] by (auto simp: returns_iff)
  then show ?thesis
    using assms(4) r w b3 by (simp add: send_page_def fail_def Let_def)
qed

lemma startjob_total:
  assumes "reads_end E" "clock_advances E" "link_matches (device_uri E) (conn s)"
  shows "returns (r_startjob E s) (\<lambda>ok s'. True)"
proof -
  have ref: "returns (pt_refresh_ready_media E s1) (\<lambda>ok s'. True)" if "conn s1 = conn s" for s1
    using refresh_total [of E s1] assms that by simp
  show ?thesis
    by (auto simp: r_startjob_def recovery_required_result pappl_defs split: option.split
        intro!: returns_mono [OF ref])
qed

lemma endpage_total:
  assumes "reads_end E" "clock_advances E" "link_matches (device_uri E) (conn s)" "job_ok s"
    and "28 \<le> unat (cups_height o1)" "unat (cups_height o1) \<le> PAGE_ROWS + 28"
  shows "returns (r_endpage E o1 s) (\<lambda>ok s'. True)"
proof -
  let ?s1 = "note_event (Ev_Job_Canceled False) s"
  have "returns (send_page E o1 model ?s1) (\<lambda>ok s'. True)" if "batch s = Some b" "b_page b = Some p" for b p model
    using send_page_total [OF assms(1,2) _ _ that(2) assms(5,6), of ?s1 model] that assms(3) by simp
  then show ?thesis
    using assms(4)
    by (auto simp: r_endpage_def fail_def pappl_defs job_ok_def has_state_def batch_ok_def is_710_printer split: option.split)
qed

lemma endjob_total:
  assumes "reads_end E" "clock_advances E" "link_matches (device_uri E) (conn s)"
  shows "returns (r_endjob E s) (\<lambda>ok s'. True)"
proof (cases "batch s")
  case (Some b)
  have pend: "returns (pt_print_pending E True s1) (\<lambda>ok s'. True)" if "conn s1 = conn s" "batch s1 = Some b" for s1
    using print_pending_total [of E s1 b True] assms that by simp
  let ?s1 = "note_event (Ev_Job_Canceled False) s"
  show ?thesis
    using Some pend [of "note_event (Ev_Job_State (job_state E (trace ?s1))) ?s1"]
    by (simp add: r_endjob_def papplJobIsCanceled_def papplJobGetState_def answer_def Let_def)
qed (simp add: r_endjob_def)

lemma width_of_line:
  assumes "pt_page_width_matches o1 g mm" "pt_tape_geometry mm = Some g" "unat (cups_width o1) \<le> 8 * length l"
  shows "\<exists>w. pt_pack_window l (left_px g) (imageable_px g) = Some w"
proof -
  have "int (unat (cups_width o1)) \<le> int (8 * length l)" using assms(3) by (simp only: of_nat_le_iff)
  then have w: "uint (cups_width o1) \<le> 8 * int (length l)" by simp
  have small: "right_px g < 2 ^ 32" "0 \<le> right_px g" "nominal_px g < 2 ^ 32"
    using tw.geo_window [OF assms(2)] tw.nominal_bound [OF assms(2)] tw.geo_head [OF assms(2)] by auto
  then have conv: "uint (word_of_int (right_px g) :: u32) = right_px g" "uint (word_of_int (nominal_px g) :: u32) = nominal_px g"
    using tw.nominal_pos [OF assms(2)] by (simp_all add: unsigned_of_int take_bit_int_eq_self)
  have "right_px g \<le> uint (cups_width o1)"
    using assms(1) tw.geo_window [OF assms(2)] conv
    by (auto simp: pt_page_width_matches_def Let_def word_le_def)
  then show ?thesis
    using w tw.geo_window [OF assms(2)] tw.geo_head [OF assms(2)] pack_window_defined [of l "left_px g" "imageable_px g"] by auto
qed

lemma staged_row_exists:
  assumes "batch s = Some b" "b_page_active b" "job_ok s" "is_710 s"
  shows "\<exists>p. b_page b = Some p"
  using assms by (auto simp: job_ok_def batch_ok_def)

lemma writeline_total:
  assumes "job_ok s" "unat (cups_width o1) \<le> 8 * length l"
    and "unat y < unat (cups_height o1)" "unat (cups_height o1) \<le> PAGE_ROWS + 28"
  shows "returns (r_writeline E o1 y l s) (\<lambda>ok s'. True)"
proof -
  have y: "unat y < 4294967000" using assms(3,4) by (simp add: PAGE_ROWS_def page_limits)
  note arith = margin_arith [OF y]
  have row: "unat (y - PAGE_MARGIN) < PAGE_ROWS" if "\<not> (y < PAGE_MARGIN \<or> cups_height o1 \<le> y + PAGE_MARGIN)"
  proof -
    have "\<not> unat y < 14" "\<not> unat (cups_height o1) \<le> unat y + 14" using that arith(1,2) by auto
    moreover from this(1) have "unat (y - 14) = unat y - 14" by (rule arith(3))
    ultimately have "unat (y - 14) < PAGE_ROWS" using assms(4) by linarith
    then show ?thesis by (simp only: page_margin)
  qed
  obtain st where st: "printer s = Some st" using assms(1) by (auto simp: job_ok_def has_state_def)
  show ?thesis
  proof (cases "batch s")
    case None
    then show ?thesis by (simp add: r_writeline_def fail_def)
  next
    case (Some b)
    note b = this
    consider "b_failed b \<or> \<not> b_page_active b \<or> job_canceled E (trace s)" | "pt_tape_geometry (uint (b_tape_mm b)) = None"
      | g where "pt_tape_geometry (uint (b_tape_mm b)) = Some g" "\<not> pt_page_width_matches o1 g (uint (b_tape_mm b))"
      | (page) g where "b_page_active b" "\<not> b_failed b" "\<not> job_canceled E (trace s)" "pt_tape_geometry (uint (b_tape_mm b)) = Some g"
          "pt_page_width_matches o1 g (uint (b_tape_mm b))" by blast
    then show ?thesis
    proof cases
      case 1
      then show ?thesis using b by (cases "b_failed b \<or> \<not> b_page_active b"; simp add: r_writeline_def fail_def papplJobIsCanceled_def answer_def)
    next
      case 2
      then show ?thesis using b by (simp add: r_writeline_def fail_def papplJobIsCanceled_def answer_def Let_def)
    next
      case 3
      then show ?thesis using b by (simp add: r_writeline_def fail_def papplJobIsCanceled_def answer_def Let_def)
    next
      case page
      note b = b this(1-3) and g = this(4,5)
      obtain w where w: "pt_pack_window l (left_px g) (imageable_px g) = Some w"
        using width_of_line [OF g(2,1) assms(2)] by auto
      obtain ok s' where jw: "pt_job_write E (raster_line (ps_model st) w) (note_event (Ev_Job_Canceled False) s) = Some (ok, s')"
        using job_write_total by blast
      show ?thesis
      proof (cases "is_710 s")
        case True
        obtain p where p: "b_page b = Some p" using staged_row_exists [OF b(1,2) assms(1) True] by auto
        show ?thesis
          using True st b g w p row
          by (simp add: r_writeline_def fail_def papplJobIsCanceled_def papplJobSetMessage_def answer_def is_710_printer Let_def not_le)
      next
        case False
        then show ?thesis
          using st b g w jw
          by (simp add: r_writeline_def fail_def papplJobIsCanceled_def answer_def is_710_printer Let_def)
      qed
    qed
  qed
qed

section \<open>Starting a page, polling and cutting return\<close>

definition cancel_comes :: "env \<Rightarrow> bool" where
  \<comment> \<open>the job is canceled at some time\<close>
  "cancel_comes E \<longleftrightarrow> (\<exists>N. \<forall>h. N \<le> length h \<longrightarrow> job_canceled E h)"

lemma wait_tape_body_total:
  assumes "reads_end E" "link_matches uri (conn s)" and N: "\<And>h. N \<le> length h \<Longrightarrow> job_canceled E h"
  shows "returns (wait_tape_body E uri mm loaded s) (\<lambda>x s'. case x of Inl r \<Rightarrow> True
     | Inr _ \<Rightarrow> conn s' = conn s \<and> N - length (trace s') < N - length (trace s))"
proof -
  let ?s1 = "note_event (Ev_Job_Canceled (job_canceled E (trace s))) s"
  obtain live s2 where r: "pt_read_live_tape E uri ?s1 = Some (live, s2)" "silent ?s1 s2"
    using live_tape_total [OF assms(1), of uri ?s1] assms(2) by (auto simp: returns_iff)
  let ?s3 = "note_event (Ev_Job_Canceled (job_canceled E (trace s2))) s2"
  obtain ok s4 where p: "pt_publish_tape E live ?s3 = Some (ok, s4)" "observes ?s3 s4"
    using publish_observes [of E live ?s3] by (auto simp: returns_iff)
  have len: "length (trace s) < length (trace s4)" "conn s4 = conn s"
    using r(2) p(2) by (auto simp: silent_def observes_def dest: extends_length) (simp add: extends_def)
  have "\<not> job_canceled E (trace s) \<Longrightarrow> length (trace s) < N" using N [of "trace s"] by (meson not_le)
  then show ?thesis
    using r(1) p(1) len by (auto simp: wait_tape_body_def pappl_defs answer_def Let_def) linarith+
qed

lemma wait_for_tape_total:
  assumes "reads_end E" "link_matches (device_uri E) (conn s)" "cancel_comes E" "batch s \<noteq> None"
  shows "returns (pt_wait_for_tape E mm s) (\<lambda>ok s'. True)"
proof -
  obtain N where N: "\<And>h. N \<le> length h \<Longrightarrow> job_canceled E h" using assms(3) by (auto simp: cancel_comes_def)
  have "returns (iterate (wait_tape_body E (device_uri E) mm) loaded s) (\<lambda>r s'. True)" for loaded
    by (rule iterate_returns [where Inv = "\<lambda>_ s'. conn s' = conn s" and m = "\<lambda>_ s'. N - length (trace s')"],
        rule returns_mono [OF wait_tape_body_total [OF assms(1) _ N]])
      (use assms(2) in \<open>auto split: sum.split\<close>)
  note loop = returns_mono [OF this]
  show ?thesis using assms(4) by (auto simp: pt_wait_for_tape_def pappl_defs intro!: loop)
qed

lemma begin_page_total:
  assumes "reads_end E" "clock_advances E" "link_matches (device_uri E) (conn s)" "has_state s" "batch s = Some b"
  shows "returns (begin_page E s) (\<lambda>ok s'. True)"
proof -
  obtain st where st: "printer s = Some st" using assms(4) by (auto simp: has_state_def)
  have stage: "returns (stage_page E s) (\<lambda>ok s'. True)"
    using assms(5) by (auto simp: stage_page_def pappl_defs fail_def)
  obtain ok s1 b1 where r: "release_previous E b s = Some (ok, s1)" "batch s1 = Some b1"
    using release_previous_total [OF assms(1-3,5)] by auto
  obtain ok' s2 k where w: "job_writes E (setup_2730 (ps_model st) b1 (pt_chain_get s1)) (pt_run_set PT_RUN_UNCERTAIN s1) = Some (ok', s2)"
    using job_writes_total setup_no_status(1) by blast
  have "returns (start_output E (ps_model st) s) (\<lambda>ok s'. True)"
    using assms(5) r w by (simp add: start_output_def fail_def Let_def)
  then show ?thesis using stage st by (simp add: begin_page_def)
qed

lemma startpage_total:
  assumes "reads_end E" "clock_advances E" "link_matches (device_uri E) (conn s)" "job_ok s"
    and "margins_defined (snd (tape_of_page E o1))"
    and tape: "cancel_comes E \<or> map_option (uint \<circ> b_tape_mm) (batch s) = Some (fst (tape_of_page E o1))"
  shows "returns (r_startpage E o1 s) (\<lambda>r s'. True)"
proof (cases "batch s")
  case (Some b)
  obtain mm o2 where t: "tape_of_page E o1 = (mm, o2)" by (cases "tape_of_page E o1")
  obtain st where st: "printer s = Some st" using assms(4) by (auto simp: job_ok_def has_state_def)
  let ?s1 = "note_event (Ev_Job_Canceled (job_canceled E (trace s))) s"
  have beg: "\<exists>ok s3. begin_page E s2 = Some (ok, s3)" if "conn s2 = conn s" "has_state s2" "batch s2 \<noteq> None" for s2
    using begin_page_total [of E s2] assms(1-3) that by (auto simp: returns_iff)
  have wait: "\<exists>ok s2. pt_wait_for_tape E mm ?s1 = Some (ok, s2) \<and> (ok \<longrightarrow> (\<exists>ok' s3. begin_page E s2 = Some (ok', s3)))"
    if "mm \<noteq> uint (b_tape_mm b)"
  proof -
    have "cancel_comes E" using tape that Some t by auto
    then obtain ok s2 where w: "pt_wait_for_tape E mm ?s1 = Some (ok, s2)"
      using wait_for_tape_total [of E ?s1 mm] assms(1,3) Some by (auto simp: returns_iff)
    have "waited E mm ?s1 ok s2" using ensuresD [OF wait_for_tape_waited w] by simp
    then have "ok \<Longrightarrow> \<exists>ok' s3. begin_page E s2 = Some (ok', s3)"
      using Some st by (intro beg) (auto simp: waited_def observes_def has_state_model model_of_def)
    then show ?thesis using w by blast
  qed
  have now: "\<exists>ok s3. begin_page E ?s1 = Some (ok, s3)" using beg [of ?s1] Some st by (simp add: has_state_def)
  show ?thesis
    using Some t st assms(5) wait now
    by (cases "mm = uint (b_tape_mm b)") (auto simp: r_startpage_def pappl_defs answer_def)
qed (simp add: r_startpage_def)

lemma usb_count_total: "returns (pt_usb_count E v p s) (\<lambda>n s'. silent s s')"
  by (auto simp: pt_usb_count_def libusb_defs split: option.split prod.split)

definition opens_matching :: "env \<Rightarrow> bool" where
  \<comment> \<open>a device PAPPL opens is of the scheme of the device URI\<close>
  "opens_matching E \<longleftrightarrow> (\<forall>h c. open_device E h = Some c \<longrightarrow> link_matches (device_uri E) c)"

lemma status_total:
  assumes "reads_end E" "opens_matching E" "has_state s"
  shows "returns (status_cb E s) (\<lambda>ok s'. True)"
proof -
  have due: "returns (pt_idle_poll_due E s1) (\<lambda>d s'. \<exists>st. printer s' = Some st)" if "printer s1 = Some st" for s1 st
    using that by (auto simp: pt_idle_poll_due_def pappl_defs ms_since_eq)
  have live: "returns (pt_read_live_tape E (device_uri E) s1) (\<lambda>r s'. True)" if "open_device E h = Some (conn s1)" for s1 h
    by (rule returns_mono [OF live_tape_total [OF assms(1)]]) (use assms(2) that in \<open>auto simp: opens_matching_def\<close>)
  have pub: "returns (pt_publish_tape E l s1) (\<lambda>ok s'. True)" for l s1
    by (rule returns_mono [OF publish_observes]) simp
  obtain st where "printer s = Some st" using assms(3) by (auto simp: has_state_def)
  then show ?thesis
    by (auto simp: status_cb_def recovery_required_result pappl_defs papplPrinterOpenDevice_def papplPrinterCloseDevice_def
        split: option.split intro!: returns_mono [OF due] returns_mono [OF usb_count_total] returns_mono [OF live] returns_mono [OF pub])
qed

lemma cut_total:
  assumes "reads_end E" "clock_advances E" "link_matches (device_uri E) (conn s)"
  shows "returns (pt_cut E msize s) (\<lambda>r s'. True)"
proof -
  obtain live s1 where r: "pt_read_live_tape E (device_uri E) s = Some (live, s1)" "silent s s1"
    using live_tape_total [OF assms(1,3)] by (auto simp: returns_iff)
  obtain ok s2 where p: "pt_publish_tape E live s1 = Some (ok, s2)" "observes s1 s2"
    using publish_observes [of E live s1] by (auto simp: returns_iff)
  have c: "conn s2 = conn s" using r(2) p(2) by (auto simp: observes_def silent_sys)
  have rest: "\<exists>w s4. pt_dev_write E buf (pt_run_set PT_RUN_UNCERTAIN s3) = Some (w, s4)
      \<and> (\<exists>rd m s5. pt_await_ready E False 64 s4 = Some ((rd, m), s5))" if same: "conn s3 = conn s" for s3 buf
  proof -
    obtain w s4 where w: "pt_dev_write E buf (pt_run_set PT_RUN_UNCERTAIN s3) = Some (w, s4)" "conn s4 = conn s"
      using dev_write_result [of E buf "pt_run_set PT_RUN_UNCERTAIN s3"] same by auto
    obtain x s5 where "pt_await_ready E False 64 s4 = Some (x, s5)"
      using await_total [OF assms(1,2), of s4 False 64] assms(3) w(2) by (auto simp: returns_iff)
    then show ?thesis using w(1) by (cases x) auto
  qed
  show ?thesis
    using r(1) p(1) rest [OF c, of "cut_blank E (trace s2)"] rest [OF refl, of "cut_blank E (trace s)"]
    by (auto simp: pt_cut_def confirm_open_run_def recovery_required_result cut_blank_def Let_def)
qed

lemma cut_op_total:
  assumes "reads_end E" "clock_advances E" "\<And>h d. cl_open_queued c h = Some d \<Longrightarrow> link_matches (device_uri E) d"
  shows "returns (pt_cut_op_cb E c s) (\<lambda>r s'. True)"
proof -
  have cut: "returns (pt_cut E 160 s1) (\<lambda>r s'. True)" if "cl_open_queued c h = Some (conn s1)" for s1 h
    by (rule cut_total [OF assms(1,2)]) (use assms(3) that in blast)
  show ?thesis
    by (auto simp: pt_cut_op_cb_def Let_def respond_def papplPrinterCloseDevice_def split: option.split
        intro!: returns_mono [OF cut])
qed

section \<open>The bench waits for a tape\<close>

definition receiving_sys :: sys where
  \<comment> \<open>a job on 9 mm tape that is receiving its first page\<close>
  "receiving_sys = bench_sys\<lparr>batch := Some (bench_batch\<lparr>b_tape_mm := 9, b_page_active := True,
     b_page := Some (\<lambda>_. replicate 16 0)\<rparr>)\<rparr>"

lemma receiving_facts:
  "trace receiving_sys = []" "conn receiving_sys = conn bench_sys" "is_710 receiving_sys" "job_ok receiving_sys"
  "batch receiving_sys \<noteq> None" "pt_run_get receiving_sys = PT_RUN_CLOSED"
  by (simp_all add: receiving_sys_def bench_sys_def is_710_def model_of_def job_ok_def has_state_def batch_ok_def
      bench_batch_def pt_run_get_def idle_state_def pt_p710bt_def PT_P710BT_PID_def)

lemma bench_waits: "\<exists>s'. pt_wait_for_tape bench 12 receiving_sys = Some (True, s')"
proof -
  let ?s0 = "note_event (Ev_Job_Canceled False) receiving_sys"
  let ?live = "\<lparr>lr_n = 32, lr_parsed = True, lr_write_failed = False,
        lr_st = \<lparr>tape_mm = 12, tape_px = 76, st_error = 0, raw = status_packet 0\<rparr>\<rparr>"
  have c: "conn ?s0 = Some (Usb_Conn bench_conn)" "pending_reply (trace ?s0) = []"
    using receiving_facts bench_sys_facts by auto
  obtain s1 where s1: "pt_read_live_tape bench (device_uri bench) ?s0 = Some (?live, s1)"
    using bench_live_tape [OF c] by auto
  obtain s2 where s2: "pt_publish_tape bench ?live (note_event (Ev_Job_Canceled False) s1) = Some (True, s2)"
    using bench_publish [of "status_packet 0" "note_event (Ev_Job_Canceled False) s1"] by blast
  have "\<exists>s'. iterate (wait_tape_body bench (device_uri bench) 12) loaded receiving_sys = Some (True, s')" for loaded
    using s1 s2 by (subst iterate.simps) (simp add: wait_tape_body_def pappl_defs answer_def)
  note loop = this
  obtain b where b: "batch receiving_sys = Some b" using receiving_facts(5) by auto
  obtain s' where "iterate (wait_tape_body bench (device_uri bench) 12) (uint (b_tape_mm b)) receiving_sys = Some (True, s')"
    using loop by blast
  then show ?thesis using b by (simp add: pt_wait_for_tape_def)
qed

section \<open>Properties\<close>

text \<open>C19. Waiting for a tape prints nothing and never hides a fault: whatever the printer reports and
  whenever the job is canceled, no output is sent and the run state is at most closed by an observed
  fault. The wait succeeds only on a supported width, after a fresh clean reading of exactly that
  width, and then sets the tape of the batch and nothing else of it.\<close>

theorem wait_for_tape_exact:
  "ensures (pt_wait_for_tape E mm s) (\<lambda>ok s'. outputs (trace s') = outputs (trace s)
     \<and> run_observed (pt_run_get s) (pt_run_get s')
     \<and> batch s' = (if ok then map_option (\<lambda>b. b\<lparr>b_tape_mm := word_of_int mm\<rparr>) (batch s) else batch s)
     \<and> (ok \<longrightarrow> mm \<in> {6, 9, 12, 18, 24} \<and> (\<exists>s1. observes s s1 \<and> matched E mm s1)))"
  by (rule ensures_mono [OF wait_for_tape_waited]) (auto simp: waited_def observes_def split: if_splits)

theorem wait_for_tape_exact_witness:
  "\<exists>s'. pt_wait_for_tape bench 12 receiving_sys = Some (True, s') \<and> outputs (trace s') = []
     \<and> map_option b_tape_mm (batch s') = Some 12"
proof -
  obtain s' where w: "pt_wait_for_tape bench 12 receiving_sys = Some (True, s')" using bench_waits by blast
  have "batch receiving_sys = Some (bench_batch\<lparr>b_tape_mm := 9, b_page_active := True, b_page := Some (\<lambda>_. replicate 16 0)\<rparr>)"
    by (simp add: receiving_sys_def)
  with ensuresD [OF wait_for_tape_exact w] w show ?thesis by (simp add: receiving_facts(1))
qed

text \<open>C20. Receiving prints nothing: on a P710BT neither starting a page nor any of its scanlines sends
  output, so nothing of a page that is aborted before its end reaches the tape.\<close>

theorem staging_prints_nothing:
  assumes "is_710 s"
  shows "ensures (r_startpage E o1 s) (\<lambda>r s'. outputs (trace s') = outputs (trace s))
    \<and> ensures (r_writeline E o1 y l s) (\<lambda>ok s'. outputs (trace s') = outputs (trace s) \<and> pt_run_get s' = pt_run_get s)"
proof
  show "ensures (r_startpage E o1 s) (\<lambda>r s'. outputs (trace s') = outputs (trace s))"
    by (rule ensures_mono [OF startpage_staged [OF assms]]) simp
qed (rule writeline_staged [OF assms])

theorem staging_prints_nothing_witness:
  "is_710 receiving_sys \<and> ensures (r_writeline bench bench_page 20 (replicate 11 0) receiving_sys)
     (\<lambda>ok s'. outputs (trace s') = [])"
  using staging_prints_nothing [OF receiving_facts(3), of bench bench_page 20 "replicate 11 0"] receiving_facts
  by (auto elim: ensures_mono)


definition page_sys :: "bool \<Rightarrow> sys" where
  \<comment> \<open>a job on 12 mm tape before its first page, or receiving it\<close>
  "page_sys receiving = bench_sys\<lparr>batch := Some (bench_batch\<lparr>b_page_active := receiving,
     b_page := (if receiving then Some (\<lambda>_. replicate 16 0) else None)\<rparr>)\<rparr>"

definition bench_client :: pt_client where
  "bench_client = \<lparr>cl_has_printer = True, cl_operation = PT_OP_CUT, cl_attrs = [], cl_status_ok = (\<lambda>h. True),
     cl_document_data = (\<lambda>h. False), cl_authorized = (\<lambda>h. True), cl_open_queued = (\<lambda>h. Some (Some (Usb_Conn bench_conn)))\<rparr>"


end
