(* ===== verification/Png_Geometry.thy ===== *)
theory Png_Geometry
  imports Page_Geometry Effects
begin

unbundle bit_operations_syntax

text \<open>
  \<^verbatim>\<open>src/filter_png.c\<close>, the decisions the PNG filter takes before PAPPL renders: the length of the label,
  its orientation, and the preflight of the decoded pixels against the printable window. Signed
  overflow of an \<open>int\<close>, a failed bound of the pixel buffer and a division by zero are \<open>None\<close>.
\<close>

section \<open>The length of the label\<close>

definition PT_DEFAULT_PPI :: int where "PT_DEFAULT_PPI = 180"

definition to_int32 :: "int \<Rightarrow> int" where
  \<comment> \<open>the conversion to a 32-bit \<open>int\<close>\<close>
  "to_int32 i = sint (word_of_int i :: 32 word)"

definition pt_set_page_length :: "pt_options \<Rightarrow> int \<Rightarrow> pt_options option" where
  "pt_set_page_length o1 length_centimm =
    (let ydpi = (if hw_res_y o1 \<noteq> 0 then hw_res_y o1 else word_of_int PT_DEFAULT_PPI);
         media = (o_media o1)\<lparr>size_length := length_centimm\<rparr>;
         height = word_of_int (cdiv (length_centimm * uint ydpi) 2540);
         inner = length_centimm - top_margin media
     in if \<not> int32_ok (72 * length_centimm) \<or> \<not> int32_ok inner \<or> \<not> int32_ok (72 * inner) then None
        else Some (o1\<lparr>o_media := media,
          cups_height := height,
          cups_page_size_y := (72 * length_centimm, 2540),
          page_size_y := word_of_int (cdiv (72 * length_centimm) 2540),
          bounding_box_top := word_of_int (cdiv (72 * inner) 2540),
          image_box_top := word_of_int (top_margin media) * ydpi div 2540,
          image_box_bottom := height - word_of_int (bottom_margin media) * ydpi div 2540 - 1\<rparr>))"

definition pt_label_length :: "int \<Rightarrow> int \<Rightarrow> int option" where
  "pt_label_length along_tape_px ppi =
    (if ppi = 0 then None
     else let centimm = cdiv (along_tape_px * 2540 + ppi - 1) ppi in
       if PT_ROLL_MAX_CENTIMM < centimm then Some (- 1)
       else Some (to_int32 (if centimm < PT_ROLL_MIN_CENTIMM then PT_ROLL_MIN_CENTIMM else centimm)))"

section \<open>Orientation and explicit length\<close>

definition IPP_ORIENT_PORTRAIT :: int where "IPP_ORIENT_PORTRAIT = 3"
definition IPP_ORIENT_LANDSCAPE :: int where "IPP_ORIENT_LANDSCAPE = 4"
definition IPP_ORIENT_REVERSE_LANDSCAPE :: int where "IPP_ORIENT_REVERSE_LANDSCAPE = 5"
definition IPP_ORIENT_REVERSE_PORTRAIT :: int where "IPP_ORIENT_REVERSE_PORTRAIT = 6"
definition IPP_ORIENT_NONE :: int where "IPP_ORIENT_NONE = 7"

lemmas orient_defs = IPP_ORIENT_PORTRAIT_def IPP_ORIENT_LANDSCAPE_def IPP_ORIENT_REVERSE_LANDSCAPE_def
  IPP_ORIENT_REVERSE_PORTRAIT_def IPP_ORIENT_NONE_def

definition pt_pin_orientation :: "pt_options \<Rightarrow> int \<Rightarrow> int \<Rightarrow> bool \<times> pt_options" where
  "pt_pin_orientation o1 width height =
    (let o2 = (if orientation_requested o1 = IPP_ORIENT_NONE
               then o1\<lparr>orientation_requested := (if height < width then IPP_ORIENT_REVERSE_LANDSCAPE else IPP_ORIENT_PORTRAIT)\<rparr>
               else o1)
     in (orientation_requested o2 = IPP_ORIENT_LANDSCAPE \<or> orientation_requested o2 = IPP_ORIENT_REVERSE_LANDSCAPE, o2))"

definition named_length :: "(string \<Rightarrow> int option) \<Rightarrow> string option \<Rightarrow> bool" where
  \<comment> \<open>a known size name with a length; the parameter is the length \<^verbatim>\<open>pwgMediaForPWG\<close> finds\<close>
  "named_length pwg nm = (case nm of None \<Rightarrow> False
     | Some n \<Rightarrow> (case pwg n of None \<Rightarrow> False | Some len \<Rightarrow> 0 < len))"

definition pt_explicit_length :: "env \<Rightarrow> (string \<Rightarrow> int option) \<Rightarrow> bool" where
  "pt_explicit_length E pwg =
    ((case job_attribute E ''media-col'' of
        None \<Rightarrow> False
      | Some attr \<Rightarrow> ipp_value_tag E attr = IPP_TAG_BEGIN_COLLECTION \<and>
          (let col = ipp_collection E attr 0;
               nm = Option.bind (ipp_find E col ''media-size-name'' IPP_TAG_ZERO) (\<lambda>a. ipp_string E a 0)
           in named_length pwg nm
              \<or> (case ipp_find E col ''media-size'' IPP_TAG_BEGIN_COLLECTION of
                   None \<Rightarrow> False
                 | Some sz \<Rightarrow> ipp_find E (ipp_collection E sz 0) ''y-dimension'' IPP_TAG_INTEGER \<noteq> None)))
     \<or> named_length pwg (Option.bind (job_attribute E ''media'') (\<lambda>a. ipp_string E a 0)))"

section \<open>Preflight\<close>

definition PAPPL_SCALING_NONE :: int where "PAPPL_SCALING_NONE = 16"

record content =
  \<comment> \<open>the decoded image: the pixel buffer and \<open>*width\<close>, \<open>*height\<close>\<close>
  px_data :: "u8 list"
  px_width :: int
  px_height :: int

definition pixel_at :: "content \<Rightarrow> nat \<Rightarrow> nat \<Rightarrow> nat \<Rightarrow> nat \<Rightarrow> u8 option" where
  \<comment> \<open>\<open>pixels[((size_t)y * *width + x) * depth + c]\<close>\<close>
  "pixel_at img depth y x c =
    (let i = (y * nat (px_width img) + x) * depth + c in
     if i < length (px_data img) then Some (px_data img ! i) else None)"

fun all_white :: "content \<Rightarrow> nat \<Rightarrow> (nat \<times> nat \<times> nat) list \<Rightarrow> bool option" where
  \<comment> \<open>the test of the samples in the given order; it stops at the first ink\<close>
  "all_white img depth [] = Some True"
| "all_white img depth ((y, x, c) # ps) = do {
     v \<leftarrow> pixel_at img depth y x c;
     if v \<noteq> 255 then Some False else all_white img depth ps
   }"

definition outside_samples :: "content \<Rightarrow> nat \<Rightarrow> bool \<Rightarrow> nat \<Rightarrow> nat \<Rightarrow> (nat \<times> nat \<times> nat) list" where
  \<comment> \<open>the samples outside the window, in the order of the three loops\<close>
  "outside_samples img depth landscape lo hi =
    [(y, x, c). y \<leftarrow> [0..<nat (px_height img)], x \<leftarrow> [0..<nat (px_width img)],
       \<not> (lo \<le> (if landscape then y else x) \<and> (if landscape then y else x) < hi), c \<leftarrow> [0..<depth]]"

definition memmove :: "u8 list \<Rightarrow> nat \<Rightarrow> nat \<Rightarrow> nat \<Rightarrow> u8 list option" where
  \<comment> \<open>\<open>memmove(buf + dst, buf + src, n)\<close>\<close>
  "memmove buf dst src n = (if src + n \<le> length buf then blit buf dst (take n (drop src buf)) else None)"

fun compact_rows :: "nat \<Rightarrow> nat \<Rightarrow> nat \<Rightarrow> nat \<Rightarrow> nat list \<Rightarrow> u8 list \<Rightarrow> u8 list option" where
  "compact_rows width depth lo kept [] buf = Some buf"
| "compact_rows width depth lo kept (y # ys) buf = do {
     buf \<leftarrow> memmove buf (y * kept * depth) ((y * width + lo) * depth) (kept * depth);
     compact_rows width depth lo kept ys buf
   }"

definition compact :: "content \<Rightarrow> nat \<Rightarrow> bool \<Rightarrow> nat \<Rightarrow> nat \<Rightarrow> content option" where
  "compact img depth landscape lo hi =
    (if landscape
     then do {
       buf \<leftarrow> memmove (px_data img) 0 (lo * nat (px_width img) * depth) ((hi - lo) * nat (px_width img) * depth);
       Some (img\<lparr>px_data := buf, px_height := int hi - int lo\<rparr>)
     }
     else do {
       buf \<leftarrow> compact_rows (nat (px_width img)) depth lo (hi - lo) [0..<nat (px_height img)] (px_data img);
       Some (img\<lparr>px_data := buf, px_width := int hi - int lo\<rparr>)
     })"

section \<open>The whole preflight\<close>

definition reject :: "string \<Rightarrow> content \<Rightarrow> sys \<Rightarrow> ((bool \<times> content) \<times> sys) option" where
  \<comment> \<open>the label \<open>reject\<close>, after the message that leads to it\<close>
  "reject message img s = do {
     (_, s) \<leftarrow> papplJobSetMessage message s;
     (_, s) \<leftarrow> papplJobSetReasons {JREASON_DOCUMENT_UNPRINTABLE_ERROR} {} s;
     Some ((False, img), s)
   }"

definition available_px :: "pt_options \<Rightarrow> int" where
  "available_px o1 = sint (cups_height o1) - cdiv ((top_margin (o_media o1) + bottom_margin (o_media o1)) * PT_DEFAULT_PPI) 2540"

definition printable_px :: "pt_options \<Rightarrow> int" where
  "printable_px o1 = sint (cups_width o1) - cdiv ((left_margin (o_media o1) + right_margin (o_media o1)) * PT_DEFAULT_PPI) 2540"

definition preflight_defined :: "pt_options \<Rightarrow> bool" where
  \<comment> \<open>no \<open>int\<close> overflow in the dimensions of the page\<close>
  "preflight_defined o1 \<longleftrightarrow> (let m = o_media o1 in
     int32_ok (top_margin m + bottom_margin m)
     \<and> int32_ok ((top_margin m + bottom_margin m) * PT_DEFAULT_PPI) \<and> int32_ok (available_px o1)
     \<and> int32_ok (left_margin m + right_margin m) \<and> int32_ok ((left_margin m + right_margin m) * PT_DEFAULT_PPI)
     \<and> int32_ok (printable_px o1))"

definition first_kept :: "pt_geometry \<Rightarrow> bool \<Rightarrow> int \<Rightarrow> int" where
  "first_kept g reverse ppi =
    (let first_dot = (if reverse then nominal_px g - right_px g else left_px g)
     in to_int32 (cdiv (first_dot * ppi + PT_DEFAULT_PPI - 1) PT_DEFAULT_PPI))"

definition last_kept :: "pt_geometry \<Rightarrow> bool \<Rightarrow> int \<Rightarrow> int" where
  "last_kept g reverse ppi =
    (let first_dot = (if reverse then nominal_px g - right_px g else left_px g)
     in to_int32 (cdiv ((first_dot + imageable_px g) * ppi) PT_DEFAULT_PPI))"

definition pt_preflight_png ::
  "pt_options \<Rightarrow> content \<Rightarrow> nat \<Rightarrow> int \<Rightarrow> bool \<Rightarrow> sys \<Rightarrow> ((bool \<times> content) \<times> sys) option" where
  "pt_preflight_png o1 img depth ppi landscape s =
    (if print_scaling o1 \<noteq> PAPPL_SCALING_NONE then Some ((True, img), s)
     else if \<not> int32_ok (size_width (o_media o1) + 50) then None
     else case pt_tape_geometry (cdiv (size_width (o_media o1) + 50) 100) of
       None \<Rightarrow> Some ((False, img), s)
     | Some g \<Rightarrow>
       if \<not> preflight_defined o1 \<or> ppi = 0 then None
       else let cross = (if landscape then px_height img else px_width img);
           along = (if landscape then px_width img else px_height img);
           cross_px = to_int32 (cdiv (cross * PT_DEFAULT_PPI) ppi);
           along_px = to_int32 (cdiv (along * PT_DEFAULT_PPI) ppi);
           available = available_px o1;
           printable = printable_px o1
       in if along_px < 1 \<or> cross_px < 1 \<or> available < along_px then
            reject (''PNG content needs '' @ fmt_d along_px @ '' along-tape dots; page allows '' @ fmt_d available) img s
          else if cross_px \<le> imageable_px g \<and> cross_px \<le> printable then Some ((True, img), s)
          else if cross_px \<noteq> nominal_px g then
            reject (''PNG content is '' @ fmt_d cross_px @ '' dots across tape; printable width is ''
              @ fmt_d (if printable < imageable_px g then printable else imageable_px g)) img s
          else
            let reverse = (orientation_requested o1 = IPP_ORIENT_REVERSE_PORTRAIT
                           \<or> orientation_requested o1 = IPP_ORIENT_REVERSE_LANDSCAPE);
                lo = first_kept g reverse ppi;
                hi = last_kept g reverse ppi
            in if hi \<le> lo \<or> printable < cdiv ((hi - lo) * PT_DEFAULT_PPI) ppi then
                 reject ''PNG content does not fit the selected media margins'' img s
               else do {
                 white \<leftarrow> all_white img depth (outside_samples img depth landscape (nat lo) (nat hi));
                 if \<not> white then reject ''PNG has nonblank content outside the physical printable window'' img s
                 else if lo < 0 then None
                 else do {
                   img \<leftarrow> compact img depth landscape (nat lo) (nat hi);
                   Some ((True, img), s)
                 }
               })"

section \<open>Arithmetic of the length\<close>

lemma to_int32_id [simp]: "int32_ok i \<Longrightarrow> to_int32 i = i"
  by (simp add: to_int32_def int32_ok_def sint_sbintrunc' signed_take_bit_int_eq_self)

lemma label_length_result:
  assumes "0 < ppi" "0 \<le> px"
  shows "pt_label_length px ppi = Some (let c = (px * 2540 + ppi - 1) div ppi in if 30000 < c then - 1 else max 500 c)"
proof -
  have c: "(px * 2540 + ppi - 1) sdiv ppi = (px * 2540 + ppi - 1) div ppi"
    using assms by (intro cdiv_nonneg) auto
  show ?thesis
    using assms by (auto simp: pt_label_length_def c Let_def page_limits int32_ok_def)
qed

lemma ceil_bounds:
  fixes a p :: int
  assumes "0 < p"
  shows "a \<le> (a + p - 1) div p * p" "((a + p - 1) div p - 1) * p < a"
proof -
  have eq: "(a + p - 1) div p * p = a + p - 1 - (a + p - 1) mod p" by (simp add: minus_mod_eq_div_mult)
  have m: "0 \<le> (a + p - 1) mod p" "(a + p - 1) mod p < p" using assms by simp_all
  show "a \<le> (a + p - 1) div p * p" using eq m by linarith
  show "((a + p - 1) div p - 1) * p < a" using eq m by (simp add: left_diff_distrib)
qed

lemma ceil_le_iff:
  fixes a p n :: int
  assumes "0 < p"
  shows "(a + p - 1) div p \<le> n \<longleftrightarrow> a \<le> n * p"
proof
  let ?c = "(a + p - 1) div p"
  note b = ceil_bounds [OF assms, of a]
  show "a \<le> n * p" if "?c \<le> n" using b(1) mult_right_mono [OF that, of p] assms by linarith
  show "?c \<le> n" if "a \<le> n * p"
  proof (rule ccontr)
    assume "\<not> ?c \<le> n"
    then have "n * p \<le> (?c - 1) * p" using assms by (intro mult_right_mono) auto
    then show False using b(2) that by linarith
  qed
qed

lemma dots_of_length:
  assumes "0 \<le> px"
  shows "((px * 2540 + 179) div 180) * 180 div 2540 = (px :: int)"
proof -
  let ?c = "(px * 2540 + 180 - 1) div 180"
  have "px * 2540 \<le> ?c * 180" "(?c - 1) * 180 < px * 2540" using ceil_bounds [of 180 "px * 2540"] by simp_all
  then show ?thesis by simp
qed

section \<open>Compacting the pixels\<close>

lemma compact_rows_append:
  "compact_rows w d lo k (ys @ zs) buf = Option.bind (compact_rows w d lo k ys buf) (compact_rows w d lo k zs)"
  by (induction ys arbitrary: buf) (simp_all add: Option.bind_assoc split: Option.bind_split)

lemma memmove_result:
  assumes "src + n \<le> length buf" "dst + n \<le> length buf"
  shows "\<exists>buf'. memmove buf dst src n = Some buf' \<and> length buf' = length buf
    \<and> (\<forall>i<length buf. buf' ! i = (if dst \<le> i \<and> i < dst + n then buf ! (src + (i - dst)) else buf ! i))"
proof -
  have n: "length (take n (drop src buf)) = n" using assms(1) by simp
  obtain buf' where b: "blit buf dst (take n (drop src buf)) = Some buf'"
    using assms(2) n by (auto simp: blit_def)
  have "buf' ! i = (if dst \<le> i \<and> i < dst + n then buf ! (src + (i - dst)) else buf ! i)" if "i < length buf" for i
    using blit_nth [OF b that] assms(1) n by (auto simp: nth_take nth_drop)
  then show ?thesis using b blit_length [OF b] assms(1) by (auto simp: memmove_def)
qed

lemma compact_rows_result:
  assumes "lo + k \<le> w" "length buf = h * w * d" "n \<le> h"
  shows "\<exists>buf'. compact_rows w d lo k [0..<n] buf = Some buf' \<and> length buf' = length buf
    \<and> (\<forall>y<n. \<forall>i<k * d. buf' ! (y * k * d + i) = buf ! ((y * w + lo) * d + i))
    \<and> (\<forall>j<length buf. n * k * d \<le> j \<longrightarrow> buf' ! j = buf ! j)"
  using assms(3)
proof (induction n)
  case (Suc n)
  then obtain b where b: "compact_rows w d lo k [0..<n] buf = Some b" "length b = length buf"
      "\<forall>y<n. \<forall>i<k * d. b ! (y * k * d + i) = buf ! ((y * w + lo) * d + i)"
      "\<forall>j<length buf. n * k * d \<le> j \<longrightarrow> b ! j = buf ! j" by auto
  have kw: "k \<le> w" and lw: "lo + k \<le> w" using assms(1) by auto
  have "(n * w + lo + k) * d \<le> (n * w + w) * d" using lw by (intro mult_le_mono1) simp
  also have "\<dots> \<le> h * w * d" using Suc.prems by (metis Suc_le_eq add.commute mult_Suc mult_le_mono1 Suc_leI)
  finally have src: "(n * w + lo) * d + k * d \<le> length b" using assms(2) b(2) by (simp add: algebra_simps)
  have "n * k * d \<le> (n * w + lo) * d" using kw by (intro mult_le_mono1) (simp add: trans_le_add1)
  then have front: "n * k * d \<le> (n * w + lo) * d" .
  then have dst: "n * k * d + k * d \<le> length b" using src by linarith
  obtain b' where b': "memmove b (n * k * d) ((n * w + lo) * d) (k * d) = Some b'" "length b' = length b"
      "\<forall>i<length b. b' ! i = (if n * k * d \<le> i \<and> i < n * k * d + k * d then b ! ((n * w + lo) * d + (i - n * k * d)) else b ! i)"
    using memmove_result [OF src dst] by blast
  have rows: "b' ! (y * k * d + i) = buf ! ((y * w + lo) * d + i)" if "y < Suc n" "i < k * d" for y i
  proof (cases "y = n")
    case True
    have "b' ! (n * k * d + i) = b ! ((n * w + lo) * d + i)" using b'(3) dst that(2) by simp
    also have "\<dots> = buf ! ((n * w + lo) * d + i)"
    proof -
      have "n * k * d \<le> (n * w + lo) * d + i" "(n * w + lo) * d + i < length buf" using front src b(2) that(2) by linarith+
      then show ?thesis using b(4) by blast
    qed
    finally show ?thesis using True by simp
  next
    case False
    then have "Suc y \<le> n" using that(1) by simp
    then have "Suc y * k * d \<le> n * k * d" by (intro mult_le_mono1)
    then have lt: "y * k * d + i < n * k * d" using that(2) by (simp add: algebra_simps)
    then have "b' ! (y * k * d + i) = b ! (y * k * d + i)" using b'(3) dst by simp
    then show ?thesis using b(3) that False by simp
  qed
  have rest: "b' ! j = buf ! j" if "j < length buf" "Suc n * k * d \<le> j" for j
  proof -
    have "n * k * d + k * d \<le> j" using that(2) by (simp add: algebra_simps)
    then show ?thesis using b'(3) b(2,4) that(1) by simp
  qed
  show ?case using b b' rows rest by (auto simp: compact_rows_append)
qed simp


section \<open>What the preflight keeps\<close>

definition sample :: "content \<Rightarrow> nat \<Rightarrow> nat \<Rightarrow> nat \<Rightarrow> nat \<Rightarrow> u8" where
  \<comment> \<open>the sample of a pixel of the image\<close>
  "sample img depth y x c = px_data img ! ((y * nat (px_width img) + x) * depth + c)"

definition image_ok :: "content \<Rightarrow> nat \<Rightarrow> bool" where
  \<comment> \<open>what the filter checked of the header, and the size of the buffer\<close>
  "image_ok img depth \<longleftrightarrow> 0 < px_width img \<and> px_width img < 10 ^ 7 \<and> 0 < px_height img \<and> px_height img < 10 ^ 7
     \<and> 0 < depth \<and> length (px_data img) = nat (px_height img) * nat (px_width img) * depth"

lemma sample_index:
  assumes "image_ok img depth" "y < nat (px_height img)" "x < nat (px_width img)" "c < depth"
  shows "(y * nat (px_width img) + x) * depth + c < length (px_data img)"
proof -
  have "y * nat (px_width img) + x < nat (px_height img) * nat (px_width img)"
  proof -
    have "Suc y * nat (px_width img) \<le> nat (px_height img) * nat (px_width img)" using assms(2) by (intro mult_le_mono1) simp
    then show ?thesis using assms(3) by simp
  qed
  then have "Suc (y * nat (px_width img) + x) * depth \<le> nat (px_height img) * nat (px_width img) * depth" by (intro mult_le_mono1) simp
  then show ?thesis using assms(1,4) by (simp add: image_ok_def)
qed

lemma all_white_result:
  assumes "\<forall>(y, x, c)\<in>set ps. pixel_at img depth y x c = Some (sample img depth y x c)"
  shows "all_white img depth ps = Some (\<forall>(y, x, c)\<in>set ps. sample img depth y x c = 255)"
  using assms by (induction ps) auto

lemma outside_white:
  assumes "image_ok img depth"
  shows "all_white img depth (outside_samples img depth landscape lo hi)
    = Some (\<forall>y<nat (px_height img). \<forall>x<nat (px_width img). \<forall>c<depth.
        \<not> (lo \<le> (if landscape then y else x) \<and> (if landscape then y else x) < hi) \<longrightarrow> sample img depth y x c = 255)"
proof (subst all_white_result)
  show "\<forall>(y, x, c)\<in>set (outside_samples img depth landscape lo hi). pixel_at img depth y x c = Some (sample img depth y x c)"
    using sample_index [OF assms] by (auto simp: outside_samples_def pixel_at_def sample_def Let_def)
qed (cases landscape; auto simp: outside_samples_def)

definition kept_part :: "content \<Rightarrow> content \<Rightarrow> nat \<Rightarrow> nat \<Rightarrow> nat \<Rightarrow> bool" where
  \<comment> \<open>the second image is the part of the first that starts at this row and column\<close>
  "kept_part img img' depth y0 x0 \<longleftrightarrow>
     y0 + nat (px_height img') \<le> nat (px_height img) \<and> x0 + nat (px_width img') \<le> nat (px_width img)
     \<and> (\<forall>y<nat (px_height img'). \<forall>x<nat (px_width img'). \<forall>c<depth.
          sample img' depth y x c = sample img depth (y0 + y) (x0 + x) c)"

lemma compact_result:
  assumes "image_ok img depth" "lo < hi" "hi \<le> nat (if landscape then px_height img else px_width img)"
  shows "\<exists>img'. compact img depth landscape lo hi = Some img'
    \<and> (if landscape then px_height img' = int hi - int lo \<and> px_width img' = px_width img
       else px_width img' = int hi - int lo \<and> px_height img' = px_height img)
    \<and> kept_part img img' depth (if landscape then lo else 0) (if landscape then 0 else lo)"
proof (cases landscape)
  case True
  let ?w = "nat (px_width img)" and ?n = "(hi - lo) * nat (px_width img) * depth"
  have "(lo + (hi - lo)) * ?w * depth \<le> nat (px_height img) * ?w * depth" using assms(2,3) True by (intro mult_le_mono1) simp
  then have src: "lo * ?w * depth + ?n \<le> length (px_data img)"
    using assms(1) by (simp add: image_ok_def distrib_right)
  obtain b where b: "memmove (px_data img) 0 (lo * ?w * depth) ?n = Some b" "length b = length (px_data img)"
      "\<forall>i<length (px_data img). b ! i = (if i < ?n then px_data img ! (lo * ?w * depth + i) else px_data img ! i)"
    using memmove_result [OF src, of 0] src by auto
  have px: "b ! ((y * ?w + x) * depth + c) = px_data img ! (((lo + y) * ?w + x) * depth + c)"
    if "y < hi - lo" "x < ?w" "c < depth" for y x c
  proof -
    have "Suc y * ?w \<le> (hi - lo) * ?w" using that(1) by (intro mult_le_mono1) simp
    then have "Suc (y * ?w + x) * depth \<le> ?n" using that(2) by (intro mult_le_mono1) simp
    then have lt: "(y * ?w + x) * depth + c < ?n" using that(3) by simp
    then have "b ! ((y * ?w + x) * depth + c) = px_data img ! (lo * ?w * depth + ((y * ?w + x) * depth + c))"
      using b(3) src by simp
    also have "lo * ?w * depth + ((y * ?w + x) * depth + c) = ((lo + y) * ?w + x) * depth + c" by (simp add: algebra_simps)
    finally show ?thesis .
  qed
  have "nat (int hi - int lo) = hi - lo" by simp
  then show ?thesis
    using True b(1) px assms(2,3) by (auto simp: compact_def kept_part_def sample_def)
next
  case False
  let ?w = "nat (px_width img)" and ?h = "nat (px_height img)"
  have "lo + (hi - lo) \<le> ?w" "length (px_data img) = ?h * ?w * depth" using assms False by (auto simp: image_ok_def)
  from compact_rows_result [OF this le_refl] obtain b where b:
    "compact_rows ?w depth lo (hi - lo) [0..<?h] (px_data img) = Some b"
    "\<forall>y<?h. \<forall>i<(hi - lo) * depth. b ! (y * (hi - lo) * depth + i) = px_data img ! ((y * ?w + lo) * depth + i)" by auto
  have px: "b ! ((y * (hi - lo) + x) * depth + c) = px_data img ! ((y * ?w + (lo + x)) * depth + c)"
    if "y < ?h" "x < hi - lo" "c < depth" for y x c
  proof -
    have "Suc x * depth \<le> (hi - lo) * depth" using that(2) by (intro mult_le_mono1) simp
    then have "x * depth + c < (hi - lo) * depth" using that(3) by simp
    then have "b ! (y * (hi - lo) * depth + (x * depth + c)) = px_data img ! ((y * ?w + lo) * depth + (x * depth + c))"
      using b(2) that(1) by blast
    then show ?thesis by (simp add: algebra_simps)
  qed
  have "nat (int hi - int lo) = hi - lo" by simp
  then show ?thesis
    using False b(1) px assms(2,3) by (auto simp: compact_def kept_part_def sample_def)
qed

section \<open>The preflight decides exactly\<close>

definition cross_of :: "bool \<Rightarrow> content \<Rightarrow> int" where
  "cross_of landscape img = (if landscape then px_height img else px_width img)"

definition along_of :: "bool \<Rightarrow> content \<Rightarrow> int" where
  "along_of landscape img = (if landscape then px_width img else px_height img)"

definition dots :: "int \<Rightarrow> int \<Rightarrow> int" where
  \<comment> \<open>whole dots of so many pixels\<close>
  "dots px ppi = px * 180 div ppi"

definition fits_page :: "pt_options \<Rightarrow> pt_geometry \<Rightarrow> bool \<Rightarrow> int \<Rightarrow> content \<Rightarrow> bool" where
  \<comment> \<open>centred placement clips nothing of the image\<close>
  "fits_page o1 g landscape ppi img \<longleftrightarrow>
     1 \<le> dots (along_of landscape img) ppi \<and> dots (along_of landscape img) ppi \<le> available_px o1
     \<and> dots (cross_of landscape img) ppi \<le> imageable_px g \<and> dots (cross_of landscape img) ppi \<le> printable_px o1"

definition only_blank_lost :: "content \<Rightarrow> content \<Rightarrow> nat \<Rightarrow> bool \<Rightarrow> bool" where
  \<comment> \<open>the second image is the first without blank lines at both sides across the tape\<close>
  "only_blank_lost img img' depth landscape \<longleftrightarrow> (\<exists>lo hi. lo < hi
     \<and> cross_of landscape img' = int hi - int lo \<and> along_of landscape img' = along_of landscape img
     \<and> kept_part img img' depth (if landscape then lo else 0) (if landscape then 0 else lo)
     \<and> (\<forall>y<nat (px_height img). \<forall>x<nat (px_width img). \<forall>c<depth.
          \<not> (lo \<le> (if landscape then y else x) \<and> (if landscape then y else x) < hi) \<longrightarrow> sample img depth y x c = 255))"

lemma only_blank_refl:
  assumes "image_ok img depth"
  shows "only_blank_lost img img depth landscape"
proof -
  have "0 < nat (cross_of landscape img)" using assms by (simp add: image_ok_def cross_of_def)
  then show ?thesis
    using assms unfolding only_blank_lost_def
    by (intro exI [of _ 0] exI [of _ "nat (cross_of landscape img)"])
      (auto simp: kept_part_def cross_of_def image_ok_def)
qed

lemma dots_int32:
  assumes "0 < px" "px < 10 ^ 7" "0 < ppi"
  shows "to_int32 ((px * PT_DEFAULT_PPI) sdiv ppi) = dots px ppi" "0 \<le> dots px ppi"
proof -
  have "px * 180 div ppi \<le> px * 180" using zdiv_mono2 [of "px * 180" 1 ppi] assms by simp
  moreover have "0 \<le> px * 180 div ppi" using assms by (simp add: pos_imp_zdiv_nonneg_iff)
  ultimately have "int32_ok (px * 180 div ppi)" using assms by (simp add: int32_ok_def)
  then show "0 \<le> dots px ppi" "to_int32 ((px * PT_DEFAULT_PPI) sdiv ppi) = dots px ppi"
    using assms \<open>0 \<le> px * 180 div ppi\<close> by (simp_all add: dots_def PT_DEFAULT_PPI_def)
qed

lemma kept_window:
  assumes "pt_tape_geometry mm = Some g" "0 < ppi" "ppi < 2 ^ 31" "dots cross ppi = nominal_px g"
  shows "0 \<le> first_kept g turned ppi" "last_kept g turned ppi \<le> cross"
    "dots (last_kept g turned ppi - first_kept g turned ppi) ppi \<le> imageable_px g"
proof -
  define fd where "fd = (if turned then nominal_px g - right_px g else left_px g)"
  have g: "0 \<le> fd" "fd + imageable_px g \<le> nominal_px g" "nominal_px g < 180" "0 < imageable_px g"
    using tw.geo_window [OF assms(1)] tw.geo_head [OF assms(1)] assms(1) geometry_mm [OF assms(1)] by (auto simp: fd_def)
  let ?f = "(fd * ppi + 180 - 1) div 180" and ?l = "(fd + imageable_px g) * ppi div 180"
  have fb: "fd * ppi \<le> ?f * 180" "(?f - 1) * 180 < fd * ppi" using ceil_bounds [of 180 "fd * ppi"] by simp_all
  have lb: "?l * 180 \<le> (fd + imageable_px g) * ppi" by linarith
  have nom: "(fd + imageable_px g) * ppi \<le> nominal_px g * ppi" using g assms(2) by (intro mult_right_mono) auto
  have "nominal_px g * ppi \<le> 179 * ppi" using g assms(2) by (intro mult_right_mono) auto
  moreover have "fd * ppi \<le> nominal_px g * ppi" "0 \<le> fd * ppi" "0 \<le> (fd + imageable_px g) * ppi" using g assms(2) by (auto intro: mult_right_mono)
  ultimately have "0 \<le> ?f" "?f < 2 ^ 31" "0 \<le> ?l" "?l < 2 ^ 31" using fb lb nom assms(2,3) by linarith+
  then have f: "first_kept g turned ppi = ?f" and l: "last_kept g turned ppi = ?l"
    using \<open>0 \<le> fd * ppi\<close> \<open>0 \<le> (fd + imageable_px g) * ppi\<close>
    by (simp_all add: first_kept_def last_kept_def Let_def fd_def [symmetric] PT_DEFAULT_PPI_def int32_ok_def)
  show "0 \<le> first_kept g turned ppi" using \<open>0 \<le> ?f\<close> f by simp
  have "nominal_px g * ppi \<le> cross * 180"
    using assms(2,4) by (metis dots_def div_mult_mod_eq le_add_same_cancel1 pos_mod_sign)
  then show "last_kept g turned ppi \<le> cross" using lb nom l by linarith
  have "(?l - ?f) * 180 \<le> imageable_px g * ppi" using lb fb by (simp add: left_diff_distrib distrib_right)
  then show "dots (last_kept g turned ppi - first_kept g turned ppi) ppi \<le> imageable_px g"
    unfolding f l dots_def using zdiv_mono1 [of _ "imageable_px g * ppi" ppi] assms(2) by fastforce
qed

lemma reject_result:
  "\<exists>s'. reject m img s = Some ((False, img), s') \<and> silent s s'"
  by (simp add: reject_def pappl_defs answer_def)

lemma preflight_result:
  assumes "print_scaling o1 = PAPPL_SCALING_NONE" "0 < ppi" "ppi < 2 ^ 31" "image_ok img depth"
    and "int32_ok (size_width (o_media o1) + 50)" "preflight_defined o1"
    and g: "pt_tape_geometry ((size_width (o_media o1) + 50) sdiv 100) = Some g"
  shows "\<exists>ok img' s'. pt_preflight_png o1 img depth ppi landscape s = Some ((ok, img'), s') \<and> silent s s'
    \<and> (if ok then fits_page o1 g landscape ppi img' \<and> only_blank_lost img img' depth landscape else img' = img)
    \<and> (fits_page o1 g landscape ppi img \<and> 1 \<le> dots (cross_of landscape img) ppi \<longrightarrow> ok \<and> img' = img)"
proof -
  let ?cross = "cross_of landscape img" and ?along = "along_of landscape img"
  let ?turned = "orientation_requested o1 = IPP_ORIENT_REVERSE_PORTRAIT \<or> orientation_requested o1 = IPP_ORIENT_REVERSE_LANDSCAPE"
  let ?lo = "first_kept g ?turned ppi" and ?hi = "last_kept g ?turned ppi"
  have "0 < ?cross" "?cross < 10 ^ 7" "0 < ?along" "?along < 10 ^ 7"
    using assms(4) by (auto simp: image_ok_def cross_of_def along_of_def)
  note d = dots_int32 [OF this(1,2) assms(2)] dots_int32 [OF this(3,4) assms(2)]
  have eq: "pt_preflight_png o1 img depth ppi landscape s =
      (if dots ?along ppi < 1 \<or> dots ?cross ppi < 1 \<or> available_px o1 < dots ?along ppi then
            reject (''PNG content needs '' @ fmt_d (dots ?along ppi) @ '' along-tape dots; page allows '' @ fmt_d (available_px o1)) img s
          else if dots ?cross ppi \<le> imageable_px g \<and> dots ?cross ppi \<le> printable_px o1 then Some ((True, img), s)
          else if dots ?cross ppi \<noteq> nominal_px g then
            reject (''PNG content is '' @ fmt_d (dots ?cross ppi) @ '' dots across tape; printable width is ''
              @ fmt_d (if printable_px o1 < imageable_px g then printable_px o1 else imageable_px g)) img s
          else if ?hi \<le> ?lo \<or> printable_px o1 < ((?hi - ?lo) * PT_DEFAULT_PPI) sdiv ppi then
                 reject ''PNG content does not fit the selected media margins'' img s
          else do {
                 white \<leftarrow> all_white img depth (outside_samples img depth landscape (nat ?lo) (nat ?hi));
                 if \<not> white then reject ''PNG has nonblank content outside the physical printable window'' img s
                 else if ?lo < 0 then None
                 else do { img \<leftarrow> compact img depth landscape (nat ?lo) (nat ?hi); Some ((True, img), s) }
               })"
    using assms(1,2,5,6) g d(1,3) by (simp add: pt_preflight_png_def Let_def cross_of_def along_of_def cong: if_cong)
  have rej: ?thesis if "pt_preflight_png o1 img depth ppi landscape s = reject m img s"
      "\<not> (fits_page o1 g landscape ppi img \<and> 1 \<le> dots ?cross ppi)" for m
    using reject_result [of m img s] that by auto
  consider (bad) "dots ?along ppi < 1 \<or> dots ?cross ppi < 1 \<or> available_px o1 < dots ?along ppi"
    | (direct) "1 \<le> dots ?along ppi" "1 \<le> dots ?cross ppi" "dots ?along ppi \<le> available_px o1"
        "dots ?cross ppi \<le> imageable_px g" "dots ?cross ppi \<le> printable_px o1"
    | (trim) "1 \<le> dots ?along ppi" "1 \<le> dots ?cross ppi" "dots ?along ppi \<le> available_px o1"
        "\<not> (dots ?cross ppi \<le> imageable_px g \<and> dots ?cross ppi \<le> printable_px o1)" by linarith
  then show ?thesis
  proof cases
    case bad
    show ?thesis by (rule rej) (use bad eq in \<open>auto simp: fits_page_def\<close>)
  next
    case direct
    then have "pt_preflight_png o1 img depth ppi landscape s = Some ((True, img), s)" using eq by simp
    then show ?thesis using direct only_blank_refl [OF assms(4)]
      by (intro exI [of _ True] exI [of _ img] exI [of _ s]) (simp add: fits_page_def)
  next
    case trim
    have nofit: "\<not> (fits_page o1 g landscape ppi img \<and> 1 \<le> dots ?cross ppi)" using trim(4) by (auto simp: fits_page_def)
    show ?thesis
    proof (cases "dots ?cross ppi \<noteq> nominal_px g \<or> ?hi \<le> ?lo \<or> printable_px o1 < ((?hi - ?lo) * PT_DEFAULT_PPI) sdiv ppi")
      case True
      then show ?thesis using rej [OF _ nofit] eq trim by (auto split: if_splits)
    next
      case False
      note w = kept_window [OF g assms(2,3), of ?cross ?turned]
      have hi: "?lo < ?hi" "0 \<le> ?lo" "?hi \<le> ?cross" and nom: "dots ?cross ppi = nominal_px g" using False w by auto
      have cond: "(dots ?along ppi < 1 \<or> dots ?cross ppi < 1 \<or> available_px o1 < dots ?along ppi) = False"
        "(dots ?cross ppi \<le> imageable_px g \<and> dots ?cross ppi \<le> printable_px o1) = False"
        "(dots ?cross ppi \<noteq> nominal_px g) = False"
        "(?hi \<le> ?lo \<or> printable_px o1 < ((?hi - ?lo) * PT_DEFAULT_PPI) sdiv ppi) = False" "(?lo < 0) = False"
        using trim False hi(2) by auto
      have dk: "((?hi - ?lo) * PT_DEFAULT_PPI) sdiv ppi = dots (?hi - ?lo) ppi"
        using hi assms(2) by (simp add: dots_def PT_DEFAULT_PPI_def)
      have "nat ?lo < nat ?hi" "nat ?hi \<le> nat (if landscape then px_height img else px_width img)"
        using hi by (auto simp: cross_of_def)
      from compact_result [OF assms(4) this] obtain img' where c: "compact img depth landscape (nat ?lo) (nat ?hi) = Some img'"
        "if landscape then px_height img' = int (nat ?hi) - int (nat ?lo) \<and> px_width img' = px_width img
         else px_width img' = int (nat ?hi) - int (nat ?lo) \<and> px_height img' = px_height img"
        "kept_part img img' depth (if landscape then nat ?lo else 0) (if landscape then 0 else nat ?lo)" by auto
      have dims: "cross_of landscape img' = int (nat ?hi) - int (nat ?lo)" "along_of landscape img' = ?along"
        using c(2) by (auto simp: cross_of_def along_of_def split: if_splits)
      let ?white = "\<forall>y<nat (px_height img). \<forall>x<nat (px_width img). \<forall>c<depth.
        \<not> (nat ?lo \<le> (if landscape then y else x) \<and> (if landscape then y else x) < nat ?hi) \<longrightarrow> sample img depth y x c = 255"
      note white = outside_white [OF assms(4), of landscape "nat ?lo" "nat ?hi"]
      have run: "pt_preflight_png o1 img depth ppi landscape s = (if \<not> ?white
          then reject ''PNG has nonblank content outside the physical printable window'' img s else Some ((True, img'), s))"
        by (simp only: eq cond if_False white c(1) bind.bind_lunit)
      show ?thesis
      proof (cases ?white)
        case True
        have "pt_preflight_png o1 img depth ppi landscape s = Some ((True, img'), s)"
          using run True by simp
        moreover have "fits_page o1 g landscape ppi img'"
          using trim w(3) nom False dk hi by (simp add: fits_page_def dims)
        moreover have "only_blank_lost img img' depth landscape"
          unfolding only_blank_lost_def using \<open>nat ?lo < nat ?hi\<close> dims c(3) True by blast
        ultimately show ?thesis using nofit by (intro exI [of _ True] exI [of _ img'] exI [of _ s]) auto
      next
        case ink: False
        show ?thesis by (rule rej [OF _ nofit]) (use run ink in simp)
      qed
    qed
  qed
qed

definition only_margins_lost :: "pt_options \<Rightarrow> content \<Rightarrow> content \<Rightarrow> nat \<Rightarrow> int \<Rightarrow> bool \<Rightarrow> bool" where
  \<comment> \<open>what an accepted image is: without scaling it fits the page and the tape and lost blank lines only;
     with any other scaling it is left to PAPPL as it is\<close>
  "only_margins_lost o1 img img' depth ppi landscape \<longleftrightarrow>
     (if print_scaling o1 = PAPPL_SCALING_NONE
      then \<exists>g. pt_tape_geometry ((size_width (o_media o1) + 50) sdiv 100) = Some g
         \<and> fits_page o1 g landscape ppi img' \<and> only_blank_lost img img' depth landscape
      else img' = img)"

lemma preflight_accepts:
  assumes "pt_preflight_png o1 img depth ppi landscape s = Some ((True, img'), s')" "0 < ppi" "ppi < 2 ^ 31" "image_ok img depth"
  shows "only_margins_lost o1 img img' depth ppi landscape"
proof (cases "print_scaling o1 = PAPPL_SCALING_NONE")
  case True
  then obtain g where g: "int32_ok (size_width (o_media o1) + 50)" "preflight_defined o1"
      "pt_tape_geometry ((size_width (o_media o1) + 50) sdiv 100) = Some g"
    using assms(1) by (auto simp: pt_preflight_png_def split: if_splits option.splits)
  from preflight_result [OF True assms(2-4) g(1,2,3), of landscape s] assms(1) g(3) True
  show ?thesis by (auto simp: only_margins_lost_def)
qed (use assms(1) in \<open>simp add: only_margins_lost_def pt_preflight_png_def\<close>)

lemma set_page_length_result:
  assumes "hw_res_y o1 = 180" "500 \<le> len" "len \<le> 30000" "int32_ok (72 * len)" "int32_ok (len - top_margin (o_media o1))"
    and "int32_ok (72 * (len - top_margin (o_media o1)))"
  shows "\<exists>o2. pt_set_page_length o1 len = Some o2 \<and> uint (cups_height o2) = len * 180 div 2540
    \<and> size_length (o_media o2) = len \<and> cups_width o2 = cups_width o1
    \<and> left_margin (o_media o2) = left_margin (o_media o1) \<and> right_margin (o_media o2) = right_margin (o_media o1)"
proof -
  have "len * 180 div 2540 < 4294967296" "0 \<le> len * 180 div 2540" using assms(2,3) by linarith+
  then show ?thesis
    using assms by (simp add: pt_set_page_length_def Let_def uint_word_of_int)
qed

section \<open>Properties\<close>

text \<open>A PNG that names no size prints at its own length, to the dot: at 180 dpi a design that is not
  longer than the roll maximum gets a page of exactly as many rows as it has pixels along the tape (at
  least the roll minimum of 35), the page length is within the advertised range, and the margins and
  the width are untouched; exactly the longer designs are refused, never shortened.\<close>

theorem png_label_length_exact:
  assumes "0 < px" "hw_res_y o1 = 180" "int32_ok (72 * top_margin (o_media o1))" "0 \<le> top_margin (o_media o1)"
  shows "if 2125 < px then pt_label_length px PT_DEFAULT_PPI = Some (- 1)
    else \<exists>len o2. pt_label_length px PT_DEFAULT_PPI = Some len \<and> PT_ROLL_MIN_CENTIMM \<le> len \<and> len \<le> PT_ROLL_MAX_CENTIMM
      \<and> pt_set_page_length o1 len = Some o2 \<and> uint (cups_height o2) = max 35 px
      \<and> size_length (o_media o2) = len \<and> cups_width o2 = cups_width o1
      \<and> left_margin (o_media o2) = left_margin (o_media o1) \<and> right_margin (o_media o2) = right_margin (o_media o1)"
proof -
  let ?c = "(px * 2540 + 180 - 1) div 180"
  have res: "pt_label_length px PT_DEFAULT_PPI = Some (if 30000 < ?c then - 1 else max 500 ?c)"
    using label_length_result [of 180 px] assms(1) by (simp add: PT_DEFAULT_PPI_def Let_def)
  have c: "?c \<le> 30000 \<longleftrightarrow> px \<le> 2125" using ceil_le_iff [of 180 "px * 2540" 30000] by auto
  show ?thesis
  proof (cases "2125 < px")
    case False
    let ?len = "max 500 ?c"
    have len: "500 \<le> ?len" "?len \<le> 30000" using c False by auto
    have "?len * 180 div 2540 = max 35 px"
    proof (cases "?c \<le> 500")
      case True
      then show ?thesis using ceil_le_iff [of 180 "px * 2540" 500] by simp
    next
      case False
      then have "max 500 ?c = ?c" "36 \<le> px" using ceil_le_iff [of 180 "px * 2540" 500] by auto
      then show ?thesis using dots_of_length [of px] assms(1) by simp
    qed
    moreover have "int32_ok (72 * ?len)" "int32_ok (?len - top_margin (o_media o1))" "int32_ok (72 * (?len - top_margin (o_media o1)))"
      using len assms(3,4) by (auto simp: int32_ok_def)
    ultimately have "\<exists>o2. pt_set_page_length o1 ?len = Some o2 \<and> uint (cups_height o2) = max 35 px
        \<and> size_length (o_media o2) = ?len \<and> cups_width o2 = cups_width o1
        \<and> left_margin (o_media o2) = left_margin (o_media o1) \<and> right_margin (o_media o2) = right_margin (o_media o1)"
      using set_page_length_result [of o1 ?len] assms(2) len by metis
    then show ?thesis using res c False len by (simp add: page_limits)
  qed (use res c in simp)
qed

theorem png_label_length_exact_witness:
  "pt_label_length 400 PT_DEFAULT_PPI \<noteq> Some (- 1) \<and> hw_res_y bench_page = 180"
  using png_label_length_exact [of 400 bench_page] by (auto simp: bench_page_def int32_ok_def page_limits)


definition bench_image :: content where
  \<comment> \<open>a blank grey image of the printable width of 12 mm tape, 35 rows\<close>
  "bench_image = \<lparr>px_data = replicate 2660 255, px_width = 76, px_height = 35\<rparr>"

lemma bench_image_fits:
  "image_ok bench_image 1" "fits_page bench_page (the (pt_tape_geometry 12)) False 180 bench_image"
  "dots (cross_of False bench_image) 180 = 76" "preflight_defined bench_page" "print_scaling bench_page = PAPPL_SCALING_NONE"
  by (simp_all add: image_ok_def bench_image_def fits_page_def dots_def along_of_def cross_of_def available_px_def
      printable_px_def bench_page_def PT_DEFAULT_PPI_def preflight_defined_def int32_ok_def PAPPL_SCALING_NONE_def)


end
