(* ===== verification/Png_Filter.thy ===== *)
theory Png_Filter
  imports Png_Geometry Tape_Status
begin

text \<open>
  \<^verbatim>\<open>src/filter_png.c\<close>, the filter itself: from the document file to the call of PAPPL's image filter. The
  resources it acquires are events of the history. libpng is a parameter; each of its calls that may
  leave by \<^verbatim>\<open>longjmp\<close> answers whether it came back.
\<close>

section \<open>The outside of the filter\<close>

record png_env =
  \<comment> \<open>papplSystemGetMaxImageSize: the size and its two bounds\<close>
  max_size :: nat
  max_width :: int
  max_height :: int
  job_filename :: "string option"
  granted :: "hist \<Rightarrow> png_res \<Rightarrow> bool" \<comment> \<open>whether the resource asked for is obtained\<close>
  png_comes_back :: "hist \<Rightarrow> png_call \<Rightarrow> bool"
  png_message :: "hist \<Rightarrow> string" \<comment> \<open>the text libpng reports before it leaves\<close>
  \<comment> \<open>png\_get\_image\_width, png\_get\_image\_height, png\_get\_color\_type, png\_get\_x/y\_pixels\_per\_inch,
     png\_set\_interlace\_handling\<close>
  png_width :: u32
  png_height :: u32
  png_color_type :: u32
  png_x_ppi :: u32
  png_y_ppi :: u32
  png_passes :: nat
  png_pixels :: "hist \<Rightarrow> nat \<Rightarrow> u8 list" \<comment> \<open>the buffer of this size after the rows were read into it\<close>
  new_options :: "hist \<Rightarrow> bool \<Rightarrow> pt_options" \<comment> \<open>papplJobCreatePrintOptions\<close>
  filter_image :: "pt_options \<Rightarrow> content \<Rightarrow> nat \<Rightarrow> int \<Rightarrow> sys \<Rightarrow> (bool \<times> sys) option"
    \<comment> \<open>papplJobFilterImage, which runs the raster callbacks\<close>
  pwg_length :: "string \<Rightarrow> int option" \<comment> \<open>pwgMediaForPWG\<close>

record png_storage =
  \<comment> \<open>the structure that survives \<^verbatim>\<open>longjmp\<close>; null pointers are None and False\<close>
  st_options :: "pt_options option"
  st_rows :: bool
  st_pixels :: "u8 list option"

definition acquire :: "png_env \<Rightarrow> png_res \<Rightarrow> sys \<Rightarrow> (bool \<times> sys) option" where
  "acquire P r s = (let ok = granted P (trace s) r in answer (Ev_Acquire r ok) ok s)"

definition release :: "png_res \<Rightarrow> sys \<Rightarrow> (unit \<times> sys) option" where
  "release r s = answer (Ev_Release r) () s"

definition png_step :: "png_env \<Rightarrow> png_call \<Rightarrow> sys \<Rightarrow> (bool \<times> sys) option" where
  \<comment> \<open>a call of libpng; when it leaves, \<^verbatim>\<open>png_error_func\<close> and the \<^verbatim>\<open>setjmp\<close> branch run\<close>
  "png_step P c s =
    (let ok = png_comes_back P (trace s) c; m = png_message P (trace s) in do {
       (_, s) \<leftarrow> answer (Ev_Png c ok) () s;
       if ok then Some (True, s)
       else do {
         (_, s) \<leftarrow> papplJobSetMessage (''PNG decode failed: '' @ m) s;
         (_, s) \<leftarrow> papplJobSetReasons {JREASON_DOCUMENT_FORMAT_ERROR} {} s;
         Some (False, s)
       }
     })"

definition unprintable :: "sys \<Rightarrow> (unit \<times> sys) option" where
  "unprintable s = papplJobSetReasons {JREASON_DOCUMENT_UNPRINTABLE_ERROR} {} s"

section \<open>The stages of the body\<close>

text \<open>Every stage gets the storage and leaves it for the clean-up; the first component is the value of
  \<open>ret\<close> at the label \<^verbatim>\<open>finish_png\<close>.\<close>

type_synonym stage = "((bool \<times> png_storage) \<times> sys) option"

fun read_passes :: "png_env \<Rightarrow> nat \<Rightarrow> sys \<Rightarrow> (bool \<times> sys) option" where
  \<comment> \<open>the passes over the rows, the counter running down to 1\<close>
  "read_passes P 0 s = Some (True, s)"
| "read_passes P (Suc i) s = do {
     (ok, s) \<leftarrow> png_step P (Png_Read_Rows (Suc i)) s;
     if ok then read_passes P i s else Some (False, s)
   }"

definition check_and_print ::
  "png_env \<Rightarrow> pt_options \<Rightarrow> int \<Rightarrow> int \<Rightarrow> nat \<Rightarrow> int \<Rightarrow> bool \<Rightarrow> png_storage \<Rightarrow> sys \<Rightarrow> stage" where
  \<comment> \<open>from \<^verbatim>\<open>png_read_end\<close> on: nothing is output before the whole file was read and checked\<close>
  "check_and_print P o1 w h depth ppi landscape st s = do {
     (ok, s) \<leftarrow> png_step P Png_Read_End s;
     if \<not> ok then Some ((False, st), s)
     else do {
       let img = \<lparr>px_data = png_pixels P (trace s) (nat w * nat h * depth), px_width = w, px_height = h\<rparr>;
       ((ok, img), s) \<leftarrow> pt_preflight_png o1 img depth ppi landscape s;
       let st = st\<lparr>st_pixels := Some (px_data img)\<rparr>;
       if \<not> ok then Some ((False, st), s)
       else do { (ok, s) \<leftarrow> filter_image P o1 img depth ppi s; Some ((ok, st), s) }
     }
   }"

definition decode_and_print ::
  "png_env \<Rightarrow> pt_options \<Rightarrow> int \<Rightarrow> int \<Rightarrow> nat \<Rightarrow> int \<Rightarrow> bool \<Rightarrow> png_storage \<Rightarrow> sys \<Rightarrow> stage" where
  \<comment> \<open>from the decoding options on\<close>
  "decode_and_print P o1 w h depth ppi landscape st s = do {
     (ok, s) \<leftarrow> png_step P Png_Transforms s;
     if \<not> ok then Some ((False, st), s)
     else do {
       let n = nat w * nat h * depth;
       (ok, s) \<leftarrow> acquire P Png_Pixels s;
       if \<not> ok then do { (_, s) \<leftarrow> unprintable s; Some ((False, st), s) }
       else do {
         let st = st\<lparr>st_pixels := Some (replicate n 0)\<rparr>;
         (ok, s) \<leftarrow> acquire P Png_Rows s;
         if \<not> ok then do { (_, s) \<leftarrow> unprintable s; Some ((False, st), s) }
         else do {
           let st = st\<lparr>st_rows := True\<rparr>;
           (ok, s) \<leftarrow> read_passes P (png_passes P) s;
           if \<not> ok then Some ((False, st), s)
           else check_and_print P o1 w h depth ppi landscape st s
         }
       }
     }
   }"

definition too_long_message :: "int \<Rightarrow> int \<Rightarrow> string option" where
  \<comment> \<open>its products are computed in \<open>int\<close>\<close>
  "too_long_message px ppi =
    (if int32_ok (px * 2540)
     then Some (''label too long: '' @ fmt_d px @ '' px at '' @ fmt_d ppi @ '' dpi needs ''
       @ fmt_d (cdiv (cdiv (px * 2540) ppi) 100) @ ''.''
       @ (let r = (cdiv (px * 2540) ppi) smod 100 in if r < 10 then ''0'' @ fmt_d r else fmt_d r)
       @ '' mm (max '' @ fmt_d (cdiv PT_ROLL_MAX_CENTIMM 100) @ '' mm)'')
     else None)"

definition shape_page ::
  "env \<Rightarrow> png_env \<Rightarrow> int \<Rightarrow> int \<Rightarrow> nat \<Rightarrow> int \<Rightarrow> png_storage \<Rightarrow> sys \<Rightarrow> stage" where
  \<comment> \<open>from the print options to the margins of the page\<close>
  "shape_page E P w h depth ppi st s = do {
     let fresh = new_options P (trace s) (depth = 3);
     (ok, s) \<leftarrow> acquire P Png_Options s;
     if \<not> ok then Some ((False, st), s)
     else do {
       let (landscape, o1) = pt_pin_orientation fresh w h;
       let st = st\<lparr>st_options := Some o1\<rparr>;
       let along = (if landscape then w else h);
       let explicit = pt_explicit_length E (pwg_length P);
       len \<leftarrow> (if explicit then Some (size_length (o_media o1)) else pt_label_length along ppi);
       if len < 0 then do {
         (_, s) \<leftarrow> unprintable s;
         m \<leftarrow> too_long_message along ppi;
         (_, s) \<leftarrow> papplJobSetMessage m s;
         Some ((False, st), s)
       }
       else do {
         o1 \<leftarrow> (if explicit then Some o1 else pt_set_page_length o1 len);
         let o1 = snd (pt_resolve_page_margins E o1);
         let st = st\<lparr>st_options := Some o1\<rparr>;
         decode_and_print P o1 w h depth ppi landscape st s
       }
     }
   }"

definition filter_body :: "env \<Rightarrow> png_env \<Rightarrow> png_storage \<Rightarrow> sys \<Rightarrow> stage" where
  \<comment> \<open>from \<^verbatim>\<open>setjmp\<close> on\<close>
  "filter_body E P st s = do {
     (ok, s) \<leftarrow> png_step P Png_Read_Info s;
     if \<not> ok then Some ((False, st), s)
     else do {
       let w = sint (png_width P);
       let h = sint (png_height P);
       let depth = (if png_color_type P AND 2 \<noteq> 0 then 3 else 1);
       if w < 1 \<or> max_width P < w \<or> h < 1 \<or> max_height P < h \<or> max_size P < nat w * nat h * depth
       then do {
         (_, s) \<leftarrow> papplJobSetMessage (''PNG is too large to print ('' @ fmt_d w @ ''x'' @ fmt_d h @ '')'') s;
         (_, s) \<leftarrow> unprintable s;
         Some ((False, st), s)
       }
       else do {
         let xdpi = sint (png_x_ppi P);
         let ydpi = sint (png_y_ppi P);
         if xdpi \<noteq> ydpi then do {
           (_, s) \<leftarrow> papplJobSetMessage (''PNG has non-square resolution '' @ fmt_d xdpi @ ''x'' @ fmt_d ydpi @ '' dpi'') s;
           (_, s) \<leftarrow> unprintable s;
           Some ((False, st), s)
         }
         else do {
           (ok, s) \<leftarrow> pt_refresh_ready_media E s;
           if \<not> ok then Some ((False, st), s)
           else shape_page E P w h depth (if 0 < ydpi then ydpi else PT_DEFAULT_PPI) st s
         }
       }
     }
   }"

definition release_if :: "bool \<Rightarrow> png_res \<Rightarrow> sys \<Rightarrow> (unit \<times> sys) option" where
  \<comment> \<open>giving back a null pointer does nothing\<close>
  "release_if held r s = (if held then release r s else Some ((), s))"

definition finish_png :: "bool \<Rightarrow> bool \<Rightarrow> png_storage \<Rightarrow> sys \<Rightarrow> (unit \<times> sys) option" where
  \<comment> \<open>the clean-up at the label; the flags tell which structures of libpng exist\<close>
  "finish_png reader info st s = do {
     (_, s) \<leftarrow> release_if reader Png_Reader s;
     (_, s) \<leftarrow> release_if info Png_Info s;
     (_, s) \<leftarrow> release Png_File s;
     (_, s) \<leftarrow> release_if (st_options st \<noteq> None) Png_Options s;
     (_, s) \<leftarrow> release_if (st_pixels st \<noteq> None) Png_Pixels s;
     (_, s) \<leftarrow> release_if (st_rows st) Png_Rows s;
     release Png_Storage s
   }"

definition pt_filter_png :: "env \<Rightarrow> png_env \<Rightarrow> sys \<Rightarrow> (bool \<times> sys) option" where
  "pt_filter_png E P s = (case job_filename P of
     None \<Rightarrow> do {
       (_, s) \<leftarrow> papplJobSetReasons {JREASON_DOCUMENT_FORMAT_ERROR} {} s;
       (_, s) \<leftarrow> papplJobSetMessage ''PNG job has no document file'' s;
       Some (False, s)
     }
   | Some nm \<Rightarrow> do {
       (ok, s) \<leftarrow> acquire P Png_File s;
       if \<not> ok then Some (False, s)
       else do {
         (ok, s) \<leftarrow> acquire P Png_Storage s;
         if \<not> ok then do {
           (_, s) \<leftarrow> release Png_File s;
           (_, s) \<leftarrow> unprintable s;
           Some (False, s)
         }
         else do {
           let st = \<lparr>st_options = None, st_rows = False, st_pixels = None\<rparr>;
           (reader, s) \<leftarrow> acquire P Png_Reader s;
           (info, s) \<leftarrow> (if reader then acquire P Png_Info s else Some (False, s));
           ((ret, st), s) \<leftarrow> (if info then filter_body E P st s
              else do { (_, s) \<leftarrow> papplJobSetReasons {JREASON_DOCUMENT_FORMAT_ERROR} {} s; Some ((False, st), s) });
           (_, s) \<leftarrow> finish_png reader info st s;
           Some (ret, s)
         }
       }
     })"

definition pt_png_printfile :: "env \<Rightarrow> png_env \<Rightarrow> sys \<Rightarrow> (bool \<times> sys) option" where
  "pt_png_printfile E P s = pt_filter_png E P s"

end
