(* ===== verification/Png_Jobs.thy ===== *)
theory Png_Jobs
  imports Png_Filter Job_Program
begin

text \<open>
  What the PNG filter guarantees on every path: the resources it holds at each stage and what has been
  output so far, and from these that everything is given back and only a checked image prints.
\<close>

section \<open>The resources held\<close>

fun res_change :: "png_res \<Rightarrow> event \<Rightarrow> int" where
  "res_change r (Ev_Acquire r' ok) = (if r = r' \<and> ok then 1 else 0)"
| "res_change r (Ev_Release r') = (if r = r' then - 1 else 0)"
| "res_change r _ = 0"

definition held :: "png_res \<Rightarrow> hist \<Rightarrow> int" where
  \<comment> \<open>how often the resource was obtained and not given back\<close>
  "held r h = sum_list (map (res_change r) h)"

lemma held_simps [simp]: "held r [] = 0" "held r (e # h) = res_change r e + held r h" "held r (h' @ h) = held r h' + held r h"
  by (simp_all add: held_def)

lemma no_output_held: "no_output e \<Longrightarrow> res_change r e = 0"
  by (cases e) (simp_all add: no_output_def)

lemma no_outputs_held: "list_all no_output new \<Longrightarrow> held r new = 0"
  by (induction new) (simp_all add: no_output_held)

definition owned :: "png_storage \<Rightarrow> png_res \<Rightarrow> int" where
  \<comment> \<open>what the storage has to give back\<close>
  "owned st r = (if r = Png_Options \<and> st_options st \<noteq> None \<or> r = Png_Pixels \<and> st_pixels st \<noteq> None
      \<or> r = Png_Rows \<and> st_rows st then 1 else 0)"

definition later :: "sys \<Rightarrow> sys \<Rightarrow> bool" where
  \<comment> \<open>the history of the second state continues that of the first\<close>
  "later s s' \<longleftrightarrow> (\<exists>new. trace s' = new @ trace s)"

lemma later_simps [simp]: "later s s" "later s s' \<Longrightarrow> later s (note_event e s')"
  by (auto simp: later_def)

lemma later_trans: "later s s' \<Longrightarrow> later s' s'' \<Longrightarrow> later s s''"
  by (auto simp: later_def)

definition confirmed :: "env \<Rightarrow> sys \<Rightarrow> sys \<Rightarrow> bool" where
  \<comment> \<open>the job's tape was confirmed between the two states\<close>
  "confirmed E s0 s \<longleftrightarrow> (\<exists>sa sb. later s0 sa \<and> pt_refresh_ready_media E sa = Some (True, sb) \<and> later sb s)"

lemma confirmed_later: "confirmed E s0 s \<Longrightarrow> later s s' \<Longrightarrow> confirmed E s0 s'"
  by (auto simp: confirmed_def intro: later_trans)

lemma confirmed_note [simp]: "confirmed E s0 s \<Longrightarrow> confirmed E s0 (note_event e s)"
  by (erule confirmed_later) simp

lemma observes_later: "observes s s' \<Longrightarrow> later s s'"
  by (auto simp: observes_def later_def)

definition prepared :: "env \<Rightarrow> bool \<Rightarrow> sys \<Rightarrow> png_storage \<Rightarrow> sys \<Rightarrow> bool" where
  \<comment> \<open>nothing was printed so far, the storage accounts for every resource, and, when the flag is set, the tape is
     confirmed\<close>
  "prepared E k s0 st s \<longleftrightarrow> outputs (trace s) = outputs (trace s0) \<and> (\<forall>r. held r (trace s) = held r (trace s0) + owned st r)
     \<and> later s0 s \<and> model_of s = model_of s0 \<and> batch s = batch s0 \<and> run_observed (pt_run_get s0) (pt_run_get s)
     \<and> tracks E s0 s \<and> (k \<longrightarrow> confirmed E s0 s)"

lemma prepared_note [simp]:
  "prepared E k s0 st s \<Longrightarrow> no_output e \<Longrightarrow> calm e \<Longrightarrow> prepared E k s0 st (note_event e s)"
  "prepared E k s0 st s \<Longrightarrow> prepared E k s0 st (note_event (Ev_Png l ok) s)"
  "prepared E k s0 st s \<Longrightarrow> prepared E k s0 st (note_event (Ev_Acquire r False) s)"
  by (auto simp: prepared_def no_output_held) (simp_all add: no_output_def)

lemma prepared_observes:
  assumes "prepared E k s0 st s" "observes s s'" "tracks E s s'"
  shows "prepared E k s0 st s'"
proof -
  obtain new where "trace s' = new @ trace s" "list_all no_output new" using assms(2) by (auto simp: observes_def)
  then show ?thesis
    using assms observes_later [OF assms(2)]
    by (auto simp: prepared_def observes_def run_observed_def no_outputs_held intro: later_trans confirmed_later tracks_trans)
qed

lemma prepared_silent: "prepared E k s0 st s \<Longrightarrow> silent s s' \<Longrightarrow> prepared E k s0 st s'"
  by (rule prepared_observes [OF _ silent_observes silent_tracks])

lemma prepared_acquire:
  "prepared E k s0 st s \<Longrightarrow> st_pixels st = None \<Longrightarrow> prepared E k s0 (st\<lparr>st_pixels := Some d\<rparr>) (note_event (Ev_Acquire Png_Pixels True) s)"
  "prepared E k s0 st s \<Longrightarrow> \<not> st_rows st \<Longrightarrow> prepared E k s0 (st\<lparr>st_rows := True\<rparr>) (note_event (Ev_Acquire Png_Rows True) s)"
  "prepared E k s0 st s \<Longrightarrow> st_options st = None \<Longrightarrow> prepared E k s0 (st\<lparr>st_options := Some o1\<rparr>) (note_event (Ev_Acquire Png_Options True) s)"
  by (auto simp: prepared_def owned_def)

lemma prepared_options:
  "prepared E k s0 (st\<lparr>st_options := Some o1\<rparr>) s \<Longrightarrow> prepared E k s0 (st\<lparr>st_options := Some o2\<rparr>) s"
  by (simp add: prepared_def owned_def)

lemma prepared_pixels:
  "prepared E k s0 st s \<Longrightarrow> st_pixels st \<noteq> None \<Longrightarrow> prepared E k s0 (st\<lparr>st_pixels := Some d\<rparr>) s"
  by (simp add: prepared_def owned_def)

lemma png_step_wp:
  assumes "prepared E k s0 st s" "\<And>ok s'. prepared E k s0 st s' \<Longrightarrow> (ok \<longrightarrow> hd (trace s') = Ev_Png c True) \<Longrightarrow> Q ok s'"
  shows "ensures (png_step P c s) Q"
  using assms by (auto simp: png_step_def pappl_defs)

lemma read_passes_wp:
  assumes "prepared E k s0 st s" "\<And>ok s'. prepared E k s0 st s' \<Longrightarrow> Q ok s'"
  shows "ensures (read_passes P n s) Q"
  using assms by (induction n arbitrary: s) (auto intro!: png_step_wp [where st = st and ?s0.0 = s0])

lemma preflight_silent: "ensures (pt_preflight_png o1 img depth ppi landscape s) (\<lambda>r s'. silent s s')"
proof -
  have rej: "ensures (reject m img s) (\<lambda>r s'. silent s s')" for m
    using reject_result [of m img s] by auto
  have "ensures (Option.bind w (\<lambda>white. if \<not> white then reject m img s else if neg then None
      else do { img \<leftarrow> k; Some ((True, img), s) })) (\<lambda>r s'. silent s s')" for w k m neg
    using rej by (cases w; cases k) simp_all
  then show ?thesis
    by (simp add: pt_preflight_png_def rej Let_def split: option.split)
qed

section \<open>What the body leaves behind\<close>

definition balanced :: "sys \<Rightarrow> sys \<Rightarrow> bool" where
  "balanced s s' \<longleftrightarrow> (\<forall>r. held r (trace s') = held r (trace s))"

definition header_ok :: "png_env \<Rightarrow> int \<Rightarrow> int \<Rightarrow> nat \<Rightarrow> int \<Rightarrow> bool" where
  \<comment> \<open>these are the size, the depth and the resolution of the header, and its checks have passed\<close>
  "header_ok P w h depth ppi \<longleftrightarrow> w = sint (png_width P) \<and> h = sint (png_height P)
     \<and> depth = (if png_color_type P AND 2 \<noteq> 0 then 3 else 1)
     \<and> sint (png_x_ppi P) = sint (png_y_ppi P)
     \<and> ppi = (if 0 < sint (png_y_ppi P) then sint (png_y_ppi P) else PT_DEFAULT_PPI)
     \<and> 1 \<le> w \<and> w \<le> max_width P \<and> 1 \<le> h \<and> h \<le> max_height P \<and> nat w * nat h * depth \<le> max_size P"

definition validated :: "env \<Rightarrow> png_env \<Rightarrow> sys \<Rightarrow> bool \<Rightarrow> sys \<Rightarrow> bool" where
  \<comment> \<open>the image filter ran, as the last step, on an image that passed every check\<close>
  "validated E P s0 ret s' \<longleftrightarrow> (\<exists>sc s1 s2 o1 img img' depth ppi landscape.
     confirmed E s0 sc
     \<and> header_ok P (px_width img) (px_height img) depth ppi
     \<and> hd (trace sc) = Ev_Png Png_Read_End True
     \<and> px_data img = png_pixels P (trace sc) (nat (px_width img) * nat (px_height img) * depth)
     \<and> pt_preflight_png o1 img depth ppi landscape sc = Some ((True, img'), s1)
     \<and> outputs (trace s1) = outputs (trace s0) \<and> later s0 s1 \<and> model_of s1 = model_of s0 \<and> batch s1 = batch s0
     \<and> run_observed (pt_run_get s0) (pt_run_get s1) \<and> tracks E s0 s1
     \<and> filter_image P o1 img' depth ppi s1 = Some (ret, s2)
     \<and> outputs (trace s') = outputs (trace s2) \<and> pt_run_get s' = pt_run_get s2 \<and> batch s' = batch s2
     \<and> closings E (trace s') = closings E (trace s2))"

definition gives_back :: "png_env \<Rightarrow> bool" where
  \<comment> \<open>rendering keeps none of the filter's resources\<close>
  "gives_back P \<longleftrightarrow> (\<forall>o1 img d p s. ensures (filter_image P o1 img d p s) (\<lambda>ok s'. balanced s s'))"

definition stage_post :: "env \<Rightarrow> png_env \<Rightarrow> sys \<Rightarrow> bool \<times> png_storage \<Rightarrow> sys \<Rightarrow> bool" where
  "stage_post E P s0 = (\<lambda>(ret, st) s'. (gives_back P \<longrightarrow> (\<forall>r. held r (trace s') = held r (trace s0) + owned st r))
     \<and> (\<not> ret \<and> outputs (trace s') = outputs (trace s0) \<or> validated E P s0 ret s'))"

lemma stage_fails:
  "prepared E True s0 st s \<Longrightarrow> stage_post E P s0 (False, st) s"
  "prepared E False s0 st s \<Longrightarrow> stage_post E P s0 (False, st) s"
  by (simp_all add: prepared_def stage_post_def)

lemma unprintable_simp [simp]: "ensures (unprintable s) Q = Q () (note_event (Ev_Job_Reasons {JREASON_DOCUMENT_UNPRINTABLE_ERROR} {}) s)"
  by (simp add: unprintable_def pappl_defs)

lemma check_and_print_post:
  assumes p: "prepared E True s0 st s" "st_pixels st \<noteq> None" and hdr: "header_ok P w h depth ppi"
  shows "ensures (check_and_print P o1 w h depth ppi landscape st s) (stage_post E P s0)"
proof -
  have print: "ensures (filter_image P o1 img' depth ppi s1) (\<lambda>ok s2. stage_post E P s0 (ok, st') s2)"
    if "prepared E True s0 st' s1" "prepared E True s0 st sc" "hd (trace sc) = Ev_Png Png_Read_End True" "px_width img = w" "px_height img = h"
      "px_data img = png_pixels P (trace sc) (nat w * nat h * depth)"
      "pt_preflight_png o1 img depth ppi landscape sc = Some ((True, img'), s1)" for img img' sc s1 st'
  proof (rule ensuresI)
    fix ok s2
    assume f: "filter_image P o1 img' depth ppi s1 = Some (ok, s2)"
    have "outputs (trace s1) = outputs (trace s0)" "later s0 s1" "model_of s1 = model_of s0" "batch s1 = batch s0"
      "run_observed (pt_run_get s0) (pt_run_get s1)" "tracks E s0 s1" "confirmed E s0 sc"
      using that(1,2) by (simp_all add: prepared_def)
    then have "validated E P s0 ok s2"
      unfolding validated_def using hdr that(3-7) f by blast
    moreover have "balanced s1 s2" if "gives_back P" using that ensuresD [OF _ f] unfolding gives_back_def by blast
    ultimately show "stage_post E P s0 (ok, st') s2"
      using that(1) by (auto simp: stage_post_def prepared_def balanced_def)
  qed
  have pre: "ensures (pt_preflight_png o1 img depth ppi landscape sc) (\<lambda>(ok, img') s1.
      prepared E True s0 (st\<lparr>st_pixels := Some (px_data img')\<rparr>) s1 \<and> pt_preflight_png o1 img depth ppi landscape sc = Some ((ok, img'), s1))"
    if "prepared E True s0 st sc" for img sc
    using preflight_silent [of o1 img depth ppi landscape sc] prepared_pixels [OF prepared_silent [OF that] p(2)]
    by (auto intro!: ensuresI dest: ensuresD)
  show ?thesis
    by (auto simp: check_and_print_def Let_def stage_fails
        intro!: png_step_wp [OF p(1)] ensures_mono [OF pre] ensures_mono [OF print]) simp_all
qed

lemma decode_and_print_post:
  assumes p: "prepared E True s0 st s" "st_pixels st = None" "\<not> st_rows st" and hdr: "header_ok P w h depth ppi"
  shows "ensures (decode_and_print P o1 w h depth ppi landscape st s) (stage_post E P s0)"
proof -
  have rows: "ensures (read_passes P n s1) (\<lambda>ok s. (\<not> ok \<longrightarrow> stage_post E P s0 (False, st') s)
      \<and> (ok \<longrightarrow> ensures (check_and_print P o1 w h depth ppi landscape st' s) (stage_post E P s0)))"
    if "prepared E True s0 st' s1" "st_pixels st' \<noteq> None" for s1 st' n
    by (rule read_passes_wp [OF that(1)])
      (use that(2) check_and_print_post [OF _ _ hdr] in \<open>auto simp: stage_fails\<close>)
  show ?thesis
    using p
    by (auto simp: decode_and_print_def Let_def acquire_def stage_fails pappl_defs prepared_acquire
        intro!: png_step_wp [OF p(1)] rows)
qed

lemma shape_page_post:
  assumes p: "prepared E True s0 st s" "st_options st = None" "st_pixels st = None" "\<not> st_rows st" and hdr: "header_ok P w h depth ppi"
  shows "ensures (shape_page E P w h depth ppi st s) (stage_post E P s0)"
proof -
  have opt: "ensures (Option.bind r k) Q" if "\<And>x. r = Some x \<Longrightarrow> ensures (k x) Q" for r :: "'x option" and k Q
    using that by (cases r) simp_all
  have print: "ensures (decode_and_print P o1 w h depth ppi landscape (st\<lparr>st_options := Some o2\<rparr>) s1) (stage_post E P s0)"
    if "prepared E True s0 (st\<lparr>st_options := Some o3\<rparr>) s1" for o1 o2 o3 landscape s1
    by (rule decode_and_print_post [OF _ _ _ hdr]) (use p prepared_options [OF that] in simp_all)
  have acq: "prepared E True s0 (st\<lparr>st_options := Some o1\<rparr>) (note_event (Ev_Acquire Png_Options True) s)" for o1
    by (rule prepared_acquire(3) [OF p(1,2)])
  show ?thesis
    using p(1) acq
    by (auto simp: shape_page_def Let_def acquire_def stage_fails pappl_defs answer_def unprintable_def split: prod.split
        intro!: opt print)
qed

lemma filter_body_post:
  assumes p: "prepared E False s0 st s" "st_options st = None" "st_pixels st = None" "\<not> st_rows st"
  shows "ensures (filter_body E P st s) (stage_post E P s0)"
proof -
  have ref: "ensures (pt_refresh_ready_media E s1) (\<lambda>ok s2. (\<not> ok \<longrightarrow> stage_post E P s0 (False, st) s2)
      \<and> (ok \<longrightarrow> ensures (shape_page E P w h depth ppi st s2) (stage_post E P s0)))"
    if "prepared E False s0 st s1" "header_ok P w h depth ppi" for s1 w h depth ppi
  proof (rule ensuresI)
    fix ok s2
    assume r: "pt_refresh_ready_media E s1 = Some (ok, s2)"
    then have "prepared E False s0 st s2"
      using ensuresD [OF refresh_observes r] ensuresD [OF refresh_tracks r] prepared_observes [OF that(1)] by simp
    moreover have "confirmed E s0 s2" if ok
    proof -
      have "later s0 s1" using \<open>prepared E False s0 st s1\<close> by (simp add: prepared_def)
      then show ?thesis using r that unfolding confirmed_def by (metis later_simps(1))
    qed
    ultimately have "prepared E ok s0 st s2" by (simp add: prepared_def)
    then show "(\<not> ok \<longrightarrow> stage_post E P s0 (False, st) s2)
      \<and> (ok \<longrightarrow> ensures (shape_page E P w h depth ppi st s2) (stage_post E P s0))"
      using shape_page_post [OF _ p(2-4) that(2), of E s0 s2] by (auto simp: stage_fails)
  qed
  show ?thesis
    by (auto simp: filter_body_def Let_def stage_fails pappl_defs header_ok_def PT_DEFAULT_PPI_def
        intro!: png_step_wp [OF p(1)] ref)
qed

lemma finish_held:
  "ensures (finish_png reader info st s) (\<lambda>_ s'. outputs (trace s') = outputs (trace s)
     \<and> pt_run_get s' = pt_run_get s \<and> batch s' = batch s \<and> closings E (trace s') = closings E (trace s) \<and> (\<forall>r. held r (trace s') = held r (trace s) - owned st r
          - (if r = Png_Reader \<and> reader \<or> r = Png_Info \<and> info \<or> r = Png_File \<or> r = Png_Storage then 1 else 0)))"
  by (auto simp: finish_png_def release_def release_if_def owned_def)

definition started :: "env \<Rightarrow> sys \<Rightarrow> sys \<Rightarrow> bool" where
  \<comment> \<open>only the history differs, by calls that print nothing\<close>
  "started E s s0 \<longleftrightarrow> outputs (trace s0) = outputs (trace s) \<and> later s s0 \<and> model_of s0 = model_of s
     \<and> batch s0 = batch s \<and> pt_run_get s0 = pt_run_get s \<and> tracks E s s0"

lemma started_outputs: "started E s s0 \<Longrightarrow> outputs (trace s0) = outputs (trace s)"
  by (simp add: started_def)

lemma filter_png_post:
  shows "ensures (pt_filter_png E P s) (\<lambda>ret s'. (gives_back P \<longrightarrow> balanced s s') \<and> (\<not> ret \<and> outputs (trace s') = outputs (trace s) \<or> validated E P s ret s'))"
proof (cases "job_filename P")
  case None
  then show ?thesis by (simp add: pt_filter_png_def pappl_defs balanced_def no_output_held)
next
  case (Some nm)
  let ?st = "\<lparr>st_options = None, st_rows = False, st_pixels = None\<rparr>"
  have owned: "owned ?st r = 0" for r by (simp add: owned_def)
  have vfin: "validated E P s ret s'" if "validated E P s0 ret s1" "outputs (trace s') = outputs (trace s1)"
      "pt_run_get s' = pt_run_get s1" "batch s' = batch s1" "closings E (trace s') = closings E (trace s1)" "started E s s0" for s0 s1 s' ret
  proof -
    have "confirmed E s sc" if "confirmed E s0 sc" for sc
      using that \<open>started E s s0\<close> unfolding confirmed_def started_def by (meson later_trans)
    moreover have "later s s1" if "later s0 s1" for s1
      using that \<open>started E s s0\<close> unfolding started_def by (blast intro: later_trans)
    moreover have "tracks E s s1" if "tracks E s0 s1" for s1
      using that \<open>started E s s0\<close> unfolding started_def by (blast intro: tracks_trans)
    ultimately show ?thesis using that unfolding validated_def started_def by (metis (no_types))
  qed
  have body: "ensures (filter_body E P ?st s0) (\<lambda>(ret, st) s1. ensures (finish_png True True st s1) (\<lambda>_ s'.
      (gives_back P \<longrightarrow> balanced s s') \<and> (\<not> ret \<and> outputs (trace s') = outputs (trace s) \<or> validated E P s ret s')))"
    if "started E s s0" "\<And>r. held r (trace s0) = held r (trace s)
       + (if r = Png_Reader \<or> r = Png_Info \<or> r = Png_File \<or> r = Png_Storage then 1 else 0)" for s0
  proof (rule ensures_mono [OF filter_body_post])
    show "prepared E False s0 ?st s0" by (simp add: prepared_def owned run_observed_def)
    fix x s1
    assume "stage_post E P s0 x s1"
    then show "(case x of (ret, st) \<Rightarrow> \<lambda>s1. ensures (finish_png True True st s1) (\<lambda>_ s'.
      (gives_back P \<longrightarrow> balanced s s') \<and> (\<not> ret \<and> outputs (trace s') = outputs (trace s) \<or> validated E P s ret s'))) s1"
      by (cases x) (auto simp: stage_post_def balanced_def that(1,2) started_outputs [OF that(1)] intro!: ensures_mono [OF finish_held] intro: vfin [OF _ _ _ _ _ that(1)])
  qed simp_all
  have fin: "ensures (finish_png reader False ?st s1) (\<lambda>_ s'. balanced s s' \<and> outputs (trace s') = outputs (trace s))"
    if "outputs (trace s1) = outputs (trace s)" "\<And>r. held r (trace s1) = held r (trace s)
       + (if r = Png_Reader \<and> reader \<or> r = Png_File \<or> r = Png_Storage then 1 else 0)" for s1 reader
    by (rule ensures_mono [OF finish_held]) (auto simp: that balanced_def owned)
  show ?thesis
    using Some
    by (auto simp: pt_filter_png_def acquire_def release_def pappl_defs unprintable_def balanced_def Let_def started_def
        intro!: ensures_mono [OF body] ensures_mono [OF fin])
qed

section \<open>Two observations\<close>

text \<open>The text for a label that is too long multiplies in \<open>int\<close>, which the length computation itself
  avoids; and a page that is no tape at all is refused without a reason or a message.\<close>

lemma too_long_message_overflows: "845626 \<le> px \<Longrightarrow> too_long_message px ppi = None"
  by (simp add: too_long_message_def int32_ok_def)

lemma preflight_refuses_silently:
  assumes "print_scaling o1 = PAPPL_SCALING_NONE" "int32_ok (size_width (o_media o1) + 50)"
    and "pt_tape_geometry ((size_width (o_media o1) + 50) sdiv 100) = None"
  shows "pt_preflight_png o1 img depth ppi landscape s = Some ((False, img), s)"
  using assms by (simp add: pt_preflight_png_def)

section \<open>A bench run of the filter\<close>

definition bench_png_with :: "(pt_options \<Rightarrow> content \<Rightarrow> nat \<Rightarrow> int \<Rightarrow> sys \<Rightarrow> (bool \<times> sys) option) \<Rightarrow> png_env" where
  \<comment> \<open>a white grey image, 20 pixels wide and 35 high, and PAPPL's rendering of it\<close>
  "bench_png_with f = \<lparr>max_size = 1000000, max_width = 1000, max_height = 1000, job_filename = Some ''label.png'',
    granted = (\<lambda>h r. True), png_comes_back = (\<lambda>h c. True), png_message = (\<lambda>h. []),
    png_width = 20, png_height = 35, png_color_type = 0, png_x_ppi = 180, png_y_ppi = 180, png_passes = 1,
    png_pixels = (\<lambda>h n. replicate n 255), new_options = (\<lambda>h c. bench_page),
    filter_image = f, pwg_length = (\<lambda>n. None)\<rparr>"

definition bench_png :: png_env where
  "bench_png = bench_png_with (\<lambda>o1 img d p s. Some (True, s))"

definition bench_png_page :: pt_options where
  \<comment> \<open>its page: 12 mm tape, 35 rows\<close>
  "bench_png_page = resolve_for bench (the (pt_tape_geometry 12))
     (the (pt_set_page_length (bench_page\<lparr>orientation_requested := IPP_ORIENT_PORTRAIT\<rparr>) 500))"

lemma bench_png_shape:
  "pt_pin_orientation bench_page 20 35 = (False, bench_page\<lparr>orientation_requested := IPP_ORIENT_PORTRAIT\<rparr>)"
  "\<not> pt_explicit_length bench (\<lambda>n. None)" "pt_label_length 35 180 = Some 500"
  "\<exists>o2. pt_set_page_length (bench_page\<lparr>orientation_requested := IPP_ORIENT_PORTRAIT\<rparr>) 500 = Some o2
     \<and> snd (pt_resolve_page_margins bench o2) = bench_png_page"
  by (simp_all add: pt_pin_orientation_def bench_page_def orient_defs pt_explicit_length_def named_length_def
      label_length_result pt_set_page_length_def Let_def int32_ok_def bench_png_page_def
      pt_resolve_page_margins_def pt_tape_mm_def width_matches_fits fits_iff geometry_other)

lemma bench_png_accepts:
  "pt_preflight_png bench_png_page \<lparr>px_data = replicate 700 255, px_width = 20, px_height = 35\<rparr> 1 180 False s
     = Some ((True, \<lparr>px_data = replicate 700 255, px_width = 20, px_height = 35\<rparr>), s)"
proof -
  let ?img = "\<lparr>px_data = replicate 700 255, px_width = 20, px_height = 35\<rparr> :: content"
  have page: "cups_width bench_png_page = 85" "cups_height bench_png_page = 35" "print_scaling bench_png_page = 16"
    "size_width (o_media bench_png_page) = 1200" "left_margin (o_media bench_png_page) = 63"
    "right_margin (o_media bench_png_page) = 71" "top_margin (o_media bench_png_page) = 0"
    "bottom_margin (o_media bench_png_page) = 0"
    by (simp_all add: bench_png_page_def resolve_for_def pt_submitted_margin_def pt_set_page_length_def bench_page_def
        int32_ok_def Let_def)
  have "image_ok ?img 1" "fits_page bench_png_page (the (pt_tape_geometry 12)) False 180 ?img"
    "dots (cross_of False ?img) 180 = 20" "preflight_defined bench_png_page"
    by (simp_all add: image_ok_def fits_page_def dots_def along_of_def cross_of_def available_px_def printable_px_def
        page PT_DEFAULT_PPI_def preflight_defined_def int32_ok_def)
  moreover have "available_px bench_png_page = 35" "printable_px bench_png_page = 76"
    by (simp_all add: available_px_def printable_px_def page PT_DEFAULT_PPI_def)
  ultimately show ?thesis
    by (simp add: pt_preflight_png_def page PAPPL_SCALING_NONE_def PT_DEFAULT_PPI_def int32_ok_def to_int32_def Let_def)
qed

lemma bench_png_sized: "bench_sized bench_png_page"
  by (simp add: bench_sized_def bench_png_page_def pt_set_page_length_def bench_page_def int32_ok_def Let_def)

lemma bench_png_with_simps [simp]:
  "png_comes_back (bench_png_with f) h c" "png_width (bench_png_with f) = 20" "png_height (bench_png_with f) = 35"
  "png_color_type (bench_png_with f) = 0" "png_x_ppi (bench_png_with f) = 180" "png_y_ppi (bench_png_with f) = 180"
  "max_width (bench_png_with f) = 1000" "max_height (bench_png_with f) = 1000" "max_size (bench_png_with f) = 1000000"
  "granted (bench_png_with f) h r" "new_options (bench_png_with f) h k = bench_page" "pwg_length (bench_png_with f) = (\<lambda>n. None)"
  "job_filename (bench_png_with f) = Some ''label.png''" "png_passes (bench_png_with f) = 1" "filter_image (bench_png_with f) = f"
  "png_pixels (bench_png_with f) h n = replicate n 255"
  by (simp_all add: bench_png_with_def)

lemma bench_idle_note [simp]:
  "bench_idle model (note_event (Ev_Png c ok) s) = bench_idle model s" "bench_idle model (note_event (Ev_Acquire r ok) s) = bench_idle model s"
  by (simp_all add: bench_idle_def bench_quiet_def model_of_def)

lemma bench_filter_runs_with:
  assumes "\<And>img s. bench_idle model s \<Longrightarrow> \<exists>s'. f bench_png_page img 1 180 s = Some (True, s')"
    and "bench_idle model s0"
  shows "\<exists>s'. pt_filter_png bench (bench_png_with f) s0 = Some (True, s')"
proof -
  let ?P = "bench_png_with f"
  let ?s = "note_event (Ev_Png Png_Read_Info True) (note_event (Ev_Acquire Png_Info True) (note_event (Ev_Acquire Png_Reader True)
    (note_event (Ev_Acquire Png_Storage True) (note_event (Ev_Acquire Png_File True) s0))))"
  have i: "bench_idle model ?s" by (simp add: assms(2))
  obtain s1 where r: "pt_refresh_ready_media bench ?s = Some (True, s1)" "bench_idle model s1"
    using bench_refresh [of ?s bench_conn] i by (auto simp: bench_idle_def bench_quiet_def observes_def run_observed_def)
  obtain o2 where o2: "pt_set_page_length (bench_page\<lparr>orientation_requested := IPP_ORIENT_PORTRAIT\<rparr>) 500 = Some o2"
      "snd (pt_resolve_page_margins bench o2) = bench_png_page" using bench_png_shape(4) by blast
  have dec: "\<exists>st' s2. decode_and_print ?P bench_png_page 20 35 1 180 False st s = Some ((True, st'), s2)" if "bench_idle model s" for st s
  proof -
    let ?t = "note_event (Ev_Png Png_Read_End True) (note_event (Ev_Png (Png_Read_Rows (Suc 0)) True) (note_event (Ev_Acquire Png_Rows True)
          (note_event (Ev_Acquire Png_Pixels True) (note_event (Ev_Png Png_Transforms True) s))))"
    obtain s3 where "f bench_png_page \<lparr>px_data = replicate 700 255, px_width = 20, px_height = 35\<rparr> 1 180 ?t = Some (True, s3)"
      using assms(1) [of ?t] \<open>bench_idle model s\<close> by auto
    then show ?thesis
      by (simp add: decode_and_print_def check_and_print_def png_step_def acquire_def answer_def bench_png_accepts [unfolded One_nat_def] Let_def)
  qed
  have "bench_idle model (note_event (Ev_Acquire Png_Options True) s1)" using r(2) by simp
  then obtain st' s2 where "decode_and_print ?P bench_png_page 20 35 1 180 False
        \<lparr>st_options = Some bench_png_page, st_rows = False, st_pixels = None\<rparr> (note_event (Ev_Acquire Png_Options True) s1)
        = Some ((True, st'), s2)" using dec by blast
  then have body: "shape_page bench ?P 20 35 1 180 \<lparr>st_options = None, st_rows = False, st_pixels = None\<rparr> s1 = Some ((True, st'), s2)"
    by (simp add: shape_page_def acquire_def answer_def bench_png_shape o2 Let_def)
  have b: "filter_body bench ?P \<lparr>st_options = None, st_rows = False, st_pixels = None\<rparr>
      (note_event (Ev_Acquire Png_Info True) (note_event (Ev_Acquire Png_Reader True)
        (note_event (Ev_Acquire Png_Storage True) (note_event (Ev_Acquire Png_File True) s0)))) = Some ((True, st'), s2)"
    using body r(1) by (simp add: filter_body_def png_step_def answer_def Let_def)
  have "\<exists>s3. finish_png True True st' s2 = Some ((), s3)"
    by (simp add: finish_png_def release_if_def release_def answer_def)
  then show ?thesis using b by (auto simp: pt_filter_png_def acquire_def answer_def Let_def)
qed

lemma bench_filter_runs: "\<exists>s'. pt_filter_png bench bench_png bench_sys = Some (True, s')"
  unfolding bench_png_def by (rule bench_filter_runs_with [OF _ bench_sys_idle]) simp

section \<open>Properties\<close>

text \<open>C25. The filter gives back everything it takes: however a PNG job ends (no file, no memory, a broken
  image at any call of libpng, an image that is refused at any check, a printer that cannot print it,
  or success), the file, libpng's structures, the print options and the buffers it acquired have been
  released exactly once each.\<close>

theorem filter_png_balanced:
  assumes "\<And>o1 img d p s. ensures (filter_image P o1 img d p s) (\<lambda>ok s'. \<forall>r. held r (trace s') = held r (trace s))"
  shows "ensures (pt_filter_png E P s) (\<lambda>ret s'. \<forall>r. held r (trace s') = held r (trace s))"
  by (rule ensures_mono [OF filter_png_post]) (use assms in \<open>simp add: gives_back_def balanced_def\<close>)

theorem filter_png_balanced_witness:
  "\<exists>s'. pt_filter_png bench bench_png bench_sys = Some (True, s') \<and> held Png_File (trace s') = 0
     \<and> held Png_Pixels (trace s') = 0"
proof -
  obtain s' where s': "pt_filter_png bench bench_png bench_sys = Some (True, s')" using bench_filter_runs by blast
  have "ensures (pt_filter_png bench bench_png bench_sys) (\<lambda>ret s'. \<forall>r. held r (trace s') = held r (trace bench_sys))"
    by (rule filter_png_balanced) (simp add: bench_png_def)
  then show ?thesis using s' bench_sys_facts(2) by simp
qed

text \<open>C24. Only a checked image prints: if a PNG job reports success or any output was sent, then the
  job's tape was confirmed, the size of the header is within PAPPL's limits and its two resolutions are
  equal, libpng read the file to its end, the preflight accepted the decoded pixels at the depth and
  resolution of the header (the default resolution where it has none), nothing had been output until then,
  and all output comes from rendering the accepted image. In every other case the job fails and nothing is
  printed.\<close>

theorem filter_png_prints_checked:
  "ensures (pt_filter_png E P s) (\<lambda>ret s'. \<not> ret \<and> outputs (trace s') = outputs (trace s) \<or> validated E P s ret s')"
  by (rule ensures_mono [OF filter_png_post]) simp

theorem filter_png_prints_checked_witness:
  "\<exists>s'. pt_filter_png bench bench_png bench_sys = Some (True, s') \<and> validated bench bench_png bench_sys True s'"
  using filter_png_prints_checked [of bench bench_png bench_sys] bench_filter_runs by auto

end
