(* ===== verification/Plain_Program.thy ===== *)
theory Plain_Program
  imports Job_Program
begin

unbundle bit_operations_syntax

text \<open>
  The program of a job on every model but the P710BT. The setup commands go out when a page starts,
  each scanline as it arrives, and ending a page only marks it pending; so such a model meets the
  interface \<open>page_program\<close> of whole jobs with the plain print information, all scanlines of a page,
  and the line format of its table row.
\<close>

section \<open>The program of a label\<close>

definition packbits :: "pt_dev \<Rightarrow> bool" where
  "packbits model \<longleftrightarrow> dev_flags model AND FLAG_RASTER_PACKBITS \<noteq> 0"

definition plain_label :: "pt_dev \<Rightarrow> label_code" where
  "plain_label model policy mm first cont rows =
    (if first then (if cont then [] else [Init]) @ [Raster_Start (dev_flags model AND FLAG_P700_INIT \<noteq> 0)] else [])
    @ [Print_Info mm, Set_Mode (if first \<or> cut_between policy then 0x40 else 0), Set_Advanced 0]
    @ map Raster_Line rows"

definition plain_program :: "pt_dev \<Rightarrow> bool \<Rightarrow> pt_cut_policy \<Rightarrow> u8 \<Rightarrow> u8 list list list \<Rightarrow> pcmd list" where
  "plain_program model cont policy mm labels = run_program (plain_label model policy mm) cont policy labels"

definition window_rows :: "pt_geometry \<Rightarrow> u8 list list \<Rightarrow> u8 list list" where
  \<comment> \<open>every scanline, reduced to the window of the tape\<close>
  "window_rows g ls = map (\<lambda>l. the (pt_pack_window l (left_px g) (imageable_px g))) ls"

lemma encode_plain:
  "setup_2730 model b cont = map (encode_cmd (packbits model)) (plain_label model (b_policy b) (b_tape_mm b) (b_first_label b) cont [])"
  "raster_line model w = encode_cmd (packbits model) (Raster_Line w)"
proof -
  have "pt_cmd_rasterstart (dev_flags model) = pt_cmd_rasterstart (if dev_flags model AND FLAG_P700_INIT \<noteq> 0 then FLAG_P700_INIT else 0)"
    by (simp add: pt_cmd_rasterstart_def flag_defs)
  then show "setup_2730 model b cont = map (encode_cmd (packbits model)) (plain_label model (b_policy b) (b_tape_mm b) (b_first_label b) cont [])"
    by (simp add: setup_2730_def plain_label_def pt_cut_autocut_def)
  show "raster_line model w = encode_cmd (packbits model) (Raster_Line w)"
    by (simp add: raster_line_def packbits_def)
qed

lemma plain_label_rows:
  "plain_label model policy mm first cont rows = plain_label model policy mm first cont [] @ map Raster_Line rows"
  by (simp add: plain_label_def)

lemma plain_label_ok:
  "list_all (\<lambda>r. length r = 16) rs \<Longrightarrow> list_all (cmd_ok pb) (plain_label model policy mm first cont rs)"
  by (auto simp: plain_label_def list_all_iff)

section \<open>Starting a page\<close>

definition output_started :: "pt_dev \<Rightarrow> pt_batch \<Rightarrow> bool \<Rightarrow> sys \<Rightarrow> sys \<Rightarrow> bool" where
  \<comment> \<open>the previous label was released and the setup of this one was sent\<close>
  "output_started model b cont s s' \<longleftrightarrow>
     batch s' = Some (b\<lparr>b_first_label := False, b_pending := False, b_page_active := True\<rparr>)
     \<and> model_of s' = model_of s \<and> conn s' = conn s \<and> pt_run_get s' = PT_RUN_UNCERTAIN
     \<and> (\<forall>E. closings E (trace s') = closings E (trace s))
     \<and> outputs (trace s') = outputs (trace s) @ (if b_pending b then [pt_cmd_ff] else []) @ setup_2730 model b cont"

lemma start_output_result:
  assumes "start_output E model s = Some (True, s')" "batch s = Some b" "has_state s"
  shows "output_started model b (b_pending b \<or> pt_chain_get s) s s'"
proof -
  obtain s1 where r: "release_previous E b s = Some (True, s1)"
    and eq: "(do {
       b \<leftarrow> batch s1;
       let continuation = pt_chain_get s1;
       let s = pt_run_set PT_RUN_UNCERTAIN s1;
       (ok, s) \<leftarrow> job_writes E (setup_2730 model b continuation) s;
       if \<not> ok then fail s
       else Some (True, upd_batch (\<lambda>b. b\<lparr>b_first_label := False, b_page_active := True\<rparr>) s)
     }) = Some (True, s')"
    using assms(1,2) by (auto simp: start_output_def fail_def split: Option.bind_splits if_splits)
  note rel = release_previous_result [OF r assms(2,3)]
  let ?bufs = "setup_2730 model b (pt_chain_get s1)" and ?s1 = "pt_run_set PT_RUN_UNCERTAIN s1"
  have same: "setup_2730 model (b\<lparr>b_pending := False\<rparr>) (pt_chain_get s1) = ?bufs"
    by (simp add: setup_2730_def)
  obtain s2 where w: "job_writes E ?bufs ?s1 = Some (True, s2)"
    and s': "s' = upd_batch (\<lambda>b. b\<lparr>b_first_label := False, b_page_active := True\<rparr>) s2"
    using eq rel(1) same by (auto simp: fail_def Let_def split: Option.bind_splits if_splits)
  have "sends ?bufs ?s1 s2"
    using ensuresD [OF returns_ensures [OF job_writes_sends] w] by auto
  note sent = sends_sys [OF this]
  show ?thesis
    unfolding output_started_def using rel sent assms(3) by (auto simp: s' has_state_model)
qed

lemma startpage_plain:
  assumes "r_startpage E o1 s = Some ((True, o2), s')" "batch s = Some b" "model_of s = Some model"
    and "dev_pid model \<noteq> PT_P710BT_PID"
  obtains mm g s1 where "pt_tape_geometry mm = Some g" "fits (cups_width o1) (size_width (o_media o1)) mm"
    "\<not> b_failed b" "mm = uint (b_tape_mm b) \<or> b_first_label b" "b_first_label b \<longrightarrow> pt_run_get s \<noteq> PT_RUN_UNCERTAIN"
    "output_started model (b\<lparr>b_tape_mm := word_of_int mm\<rparr>) (b_pending b \<or> pt_chain_get s1) s1 s'"
    "outputs (trace s1) = outputs (trace s)" "model_of s1 = model_of s" "conn s1 = conn s"
    "tracks E s s1" "mm = uint (b_tape_mm b) \<longrightarrow> closings E (trace s1) = closings E (trace s)"
proof -
  obtain mm g s1 where t: "tape_of_page E o1 = (mm, o2)" "mm \<noteq> 0"
    and g: "pt_tape_geometry mm = Some g" "\<not> b_failed b" "mm = uint (b_tape_mm b) \<or> b_first_label b"
    "b_first_label b \<longrightarrow> pt_run_get s \<noteq> PT_RUN_UNCERTAIN"
    and s1: "begin_page E s1 = Some (True, s')" "batch s1 = Some (b\<lparr>b_tape_mm := word_of_int mm\<rparr>)"
    "outputs (trace s1) = outputs (trace s)" "model_of s1 = model_of s" "conn s1 = conn s"
    "tracks E s s1" "mm = uint (b_tape_mm b) \<longrightarrow> closings E (trace s1) = closings E (trace s)"
    by (rule startpage_begins [OF assms(1,2)])
  have m: "model_of s1 = Some model" using s1(4) assms(3) by simp
  then have "start_output E model s1 = Some (True, s')"
    using s1(1) assms(4) by (auto simp: begin_page_def model_of_def split: Option.bind_splits if_splits)
  from start_output_result [OF this s1(2)] m
  have "output_started model (b\<lparr>b_tape_mm := word_of_int mm\<rparr>) (b_pending b \<or> pt_chain_get s1) s1 s'"
    by (simp add: has_state_model)
  from that [OF g(1) tape_of_page_result(1) [OF t] g(2,3,4) this s1(3-7)] show thesis .
qed

section \<open>Receiving and ending a page\<close>

lemma writeline_plain:
  assumes "r_writeline E o1 y l s = Some (True, s')" "batch s = Some b" "model_of s = Some model"
    and "dev_pid model \<noteq> PT_P710BT_PID" "pt_tape_geometry (uint (b_tape_mm b)) = Some g"
  shows "\<exists>w. pt_pack_window l (left_px g) (imageable_px g) = Some w \<and> sends [raster_line model w] s s'"
proof -
  let ?s1 = "note_event (Ev_Job_Canceled False) s"
  obtain st where st: "printer s = Some st" "ps_model st = model" using assms(3) by (auto simp: model_of_def)
  obtain w where w: "pt_pack_window l (left_px g) (imageable_px g) = Some w"
    "pt_job_write E (raster_line model w) ?s1 = Some (True, s')"
    using assms(1,2,4,5) st
    by (auto simp: r_writeline_def papplJobIsCanceled_def answer_def fail_def Let_def split: if_splits Option.bind_splits)
  have "sends [raster_line model w] ?s1 s'"
    using ensuresD [OF returns_ensures [OF job_write_sends] w(2)] by simp
  then show ?thesis using w(1) by (auto simp: sends_def)
qed

lemma feed_lines_plain:
  assumes "feed_lines E o1 k ls s = Some (True, s')" "batch s = Some b" "model_of s = Some model"
    and "dev_pid model \<noteq> PT_P710BT_PID" "pt_tape_geometry (uint (b_tape_mm b)) = Some g"
  shows "sends (map (raster_line model) (window_rows g ls)) s s' \<and> list_all (\<lambda>r. length r = 16) (window_rows g ls)"
  using assms
proof (induction ls arbitrary: k s)
  case Nil
  then show ?case by (simp add: window_rows_def)
next
  case (Cons l ls)
  obtain s1 where l: "r_writeline E o1 (word_of_nat k) l s = Some (True, s1)" "feed_lines E o1 (Suc k) ls s1 = Some (True, s')"
    using Cons.prems(1) by (auto split: Option.bind_splits if_splits)
  obtain w where w: "pt_pack_window l (left_px g) (imageable_px g) = Some w" "sends [raster_line model w] s s1"
    using writeline_plain [OF l(1) Cons.prems(2-5)] by blast
  have "batch s1 = Some b" "model_of s1 = Some model" using sends_sys [OF w(2)] Cons.prems by auto
  from Cons.IH [OF l(2) this Cons.prems(4,5)]
  have "sends (map (raster_line model) (window_rows g ls)) s1 s'" "list_all (\<lambda>r. length r = 16) (window_rows g ls)" by auto
  moreover have "length w = 16" using pack_window_exact w(1) by blast
  ultimately show ?case
    using sends_trans [OF w(2)] w(1) by (fastforce simp: window_rows_def)
qed

lemma endpage_plain:
  assumes "r_endpage E o1 s = Some (True, s')" "batch s = Some b" "model_of s = Some model"
    and "dev_pid model \<noteq> PT_P710BT_PID"
  shows "s' = upd_batch (\<lambda>b. b\<lparr>b_page_active := False, b_pending := True\<rparr>) (note_event (Ev_Job_Canceled False) s)"
proof -
  obtain st where "printer s = Some st" "ps_model st = model" using assms(3) by (auto simp: model_of_def)
  then show ?thesis
    using assms(1,2,4)
    by (auto simp: r_endpage_def papplJobIsCanceled_def answer_def fail_def Let_def split: if_splits Option.bind_splits)
qed

lemma run_page_plain:
  assumes "run_page E pg s = Some (True, s')" "batch s = Some b" "model_of s = Some model"
    and "dev_pid model \<noteq> PT_P710BT_PID"
  shows "\<exists>mm g cont. page_done E (packbits model) (plain_label model) window_rows pg b s s' mm g cont"
proof -
  obtain o2 s2 s3 where st: "r_startpage E (fst pg) s = Some ((True, o2), s2)"
    and fd: "feed_lines E o2 0 (snd pg) s2 = Some (True, s3)" and en: "r_endpage E o2 s3 = Some (True, s')"
    using assms(1) by (auto simp: run_page_def split: Option.bind_splits if_splits)
  obtain mm g s1 where start: "pt_tape_geometry mm = Some g"
    "fits (cups_width (fst pg)) (size_width (o_media (fst pg))) mm"
    "\<not> b_failed b" "mm = uint (b_tape_mm b) \<or> b_first_label b" "b_first_label b \<longrightarrow> pt_run_get s \<noteq> PT_RUN_UNCERTAIN"
    "output_started model (b\<lparr>b_tape_mm := word_of_int mm\<rparr>) (b_pending b \<or> pt_chain_get s1) s1 s2"
    "outputs (trace s1) = outputs (trace s)" "model_of s1 = model_of s" "conn s1 = conn s"
    "tracks E s s1" "mm = uint (b_tape_mm b) \<longrightarrow> closings E (trace s1) = closings E (trace s)"
    by (rule startpage_plain [OF st assms(2-4)])
  let ?b = "b\<lparr>b_tape_mm := word_of_int mm, b_first_label := False, b_pending := False, b_page_active := True\<rparr>"
  let ?cont = "b_pending b \<or> pt_chain_get s1"
  have s2: "batch s2 = Some ?b" "model_of s2 = Some model" "conn s2 = conn s"
    "outputs (trace s2) = outputs (trace s) @ (if b_pending b then [pt_cmd_ff] else [])
       @ setup_2730 model (b\<lparr>b_tape_mm := word_of_int mm\<rparr>) ?cont"
    using start(6-9) assms(3) by (simp_all add: output_started_def)
  have mm: "uint (word_of_int mm :: u8) = mm" by (rule uint_of_mm [OF geometry_mm [OF start(1)]])
  have rows: "sends (map (raster_line model) (window_rows g (snd pg))) s2 s3" "list_all (\<lambda>r. length r = 16) (window_rows g (snd pg))"
    using feed_lines_plain [OF fd s2(1,2) assms(4), of g] start(1) mm by auto
  note s3 = sends_sys [OF rows(1)]
  have s': "s' = upd_batch (\<lambda>b. b\<lparr>b_page_active := False, b_pending := True\<rparr>) (note_event (Ev_Job_Canceled False) s3)"
    by (rule endpage_plain [OF en _ _ assms(4)]) (use s3 s2 in auto)
  have enc: "setup_2730 model (b\<lparr>b_tape_mm := word_of_int mm\<rparr>) ?cont @ map (raster_line model) (window_rows g (snd pg))
    = map (encode_cmd (packbits model)) (plain_label model (b_policy b) (word_of_int mm) (b_first_label b) ?cont (window_rows g (snd pg)))"
    by (subst plain_label_rows) (simp add: encode_plain comp_def)
  have out: "outputs (trace s') = outputs (trace s) @ map (encode_cmd (packbits model)) ((if b_pending b then [Form_Feed] else [])
      @ plain_label model (b_policy b) (word_of_int mm) (b_first_label b) ?cont (window_rows g (snd pg)))"
    using s2(4) s3 enc by (simp add: s')
  have b': "batch s' = Some (?b\<lparr>b_page_active := False, b_pending := True\<rparr>)" "model_of s' = model_of s" "conn s' = conn s"
    using s3 s2 assms(3) by (simp_all add: s')
  have same: "closings E (trace s') = closings E (trace s1)"
    using start(6) s3 by (simp add: s' output_started_def)
  then have "?cont = (b_pending b \<or> run_continues E s s')" "closings E (trace s) \<le> closings E (trace s')"
      "mm = uint (b_tape_mm b) \<longrightarrow> closings E (trace s') = closings E (trace s)"
    using start(10,11) by (auto simp: tracks_def run_continues_def)
  then have "page_done E (packbits model) (plain_label model) window_rows pg b s s' mm g ?cont"
    unfolding page_done_def using start(1-5) b' out rows(2) start(3) by (intro conjI) (simp_all, blast?)
  then show ?thesis by blast
qed

interpretation plain: page_program model "packbits model" "plain_label model" window_rows
    "\<lambda>pg. dev_pid model \<noteq> PT_P710BT_PID" for model
  by unfold_locales (rule run_page_plain plain_label_ok; assumption)+

section \<open>A bench job runs\<close>

definition plain_sys :: sys where
  \<comment> \<open>the bench with a PT-2730\<close>
  "plain_sys = bench_sys\<lparr>printer := Some ((idle_state PT_RUN_CLOSED)\<lparr>ps_model := pt_2730\<rparr>)\<rparr>"

lemma plain_sys_facts:
  "conn plain_sys = Some (Usb_Conn bench_conn)" "trace plain_sys = []" "pt_run_get plain_sys = PT_RUN_CLOSED"
  "model_of plain_sys = Some pt_2730" "dev_pid pt_2730 \<noteq> PT_P710BT_PID" "bench_idle pt_2730 plain_sys"
  by (simp_all add: plain_sys_def bench_sys_def pt_run_get_def idle_state_def model_of_def pt_2730_def PT_P710BT_PID_def
      bench_quiet_def bench_idle_def)

lemma bench_start_output:
  assumes "batch s = Some b" "\<not> b_pending b"
  shows "\<exists>s'. start_output bench model s = Some (True, s')"
proof -
  obtain s' where "job_writes bench (setup_2730 model b (pt_chain_get s)) (pt_run_set PT_RUN_UNCERTAIN s) = Some (True, s')"
    using bench_job_writes by blast
  then show ?thesis using assms by (simp add: start_output_def release_previous_def Let_def)
qed

lemma bench_startpage_plain:
  assumes "batch s = Some bench_batch" "model_of s = Some model" "dev_pid model \<noteq> PT_P710BT_PID"
    and "pt_run_get s \<noteq> PT_RUN_UNCERTAIN" "bench_sized o1"
  shows "\<exists>s'. r_startpage bench o1 s = Some ((True, resolve_for bench (the (pt_tape_geometry 12)) o1), s')"
proof -
  obtain st where "printer s = Some st" "ps_model st = model" using assms(2) by (auto simp: model_of_def)
  moreover obtain s' where "start_output bench model (note_event (Ev_Job_Canceled False) s) = Some (True, s')"
    using bench_start_output [of "note_event (Ev_Job_Canceled False) s" bench_batch model] assms(1) by (auto simp: bench_batch_def)
  ultimately show ?thesis
    using assms(1,3,4) bench_tape [OF assms(5)]
    by (simp add: r_startpage_def bench_batch_def papplJobIsCanceled_def answer_def begin_page_def Let_def)
qed

lemma bench_feed_plain:
  assumes "batch s = Some b" "model_of s = Some model" "dev_pid model \<noteq> PT_P710BT_PID"
    and "b_tape_mm b = 12" "b_page_active b" "\<not> b_failed b" "cups_width o1 = 85"
  shows "\<exists>s'. feed_lines bench o1 k (replicate n (replicate 11 0)) s = Some (True, s')"
  using assms(1,2)
proof (induction n arbitrary: k s)
  case (Suc n)
  obtain st where st: "printer s = Some st" "ps_model st = model" using Suc.prems(2) by (auto simp: model_of_def)
  obtain s1 where s1: "pt_job_write bench (raster_line model (replicate 16 0)) (note_event (Ev_Job_Canceled False) s) = Some (True, s1)"
    using bench_job_write by blast
  have w: "r_writeline bench o1 (word_of_nat k) (replicate 11 0) s = Some (True, s1)"
    using Suc.prems st assms(3-) s1 bench_blank
    by (simp add: r_writeline_def papplJobIsCanceled_def answer_def pt_page_width_matches_def Let_def)
  have "pt_tape_geometry (uint (b_tape_mm b)) = Some (the (pt_tape_geometry 12))" using assms(4) by simp
  from writeline_plain [OF w Suc.prems(1,2) assms(3) this]
  have "batch s1 = Some b" "model_of s1 = Some model" using Suc.prems by (auto dest: sends_sys)
  from Suc.IH [OF this] w show ?case by simp
qed simp

lemma bench_plain_runs_at:
  assumes "bench_idle model s" "bench_sized o1" "dev_pid model \<noteq> PT_P710BT_PID"
  shows "\<exists>s'. run_job bench [(o1, replicate 35 (replicate 11 0))] s = Some (True, s')"
proof -
  let ?o = "resolve_for bench (the (pt_tape_geometry 12)) o1"
  have o: "cups_width o1 = 85" "size_width (o_media o1) = 1200" "cups_width ?o = 85"
    using assms(2) by (simp_all add: bench_sized_def)
  note pid = assms(3)
  obtain s1 where s1: "r_startjob bench s = Some (True, s1)" "batch s1 = Some bench_batch"
    using bench_startjob_at [OF assms(1)] by blast
  have f1: "model_of s1 = Some model" "conn s1 = Some (Usb_Conn bench_conn)" "pt_run_get s1 \<noteq> PT_RUN_UNCERTAIN"
    using startjob_result [OF s1(1)] assms(1) by (auto simp: run_observed_def bench_idle_def bench_quiet_def)
  obtain s2 where s2: "r_startpage bench o1 s1 = Some ((True, ?o), s2)"
    using bench_startpage_plain [OF s1(2) f1(1) pid f1(3) assms(2)] by blast
  obtain mm g s1' where mm: "fits (cups_width o1) (size_width (o_media o1)) mm"
    "output_started model (bench_batch\<lparr>b_tape_mm := word_of_int mm\<rparr>) (b_pending bench_batch \<or> pt_chain_get s1') s1' s2"
    "model_of s1' = model_of s1" "conn s1' = conn s1"
    by (rule startpage_plain [OF s2 s1(2) f1(1) pid])
  have "mm = 12" using mm(1) o by (auto simp: fits_iff)
  then have f2: "batch s2 = Some (bench_batch\<lparr>b_tape_mm := 12, b_first_label := False, b_pending := False, b_page_active := True\<rparr>)"
      "model_of s2 = Some model" "conn s2 = Some (Usb_Conn bench_conn)"
    using mm f1 by (simp_all add: output_started_def)
  let ?b = "bench_batch\<lparr>b_tape_mm := 12, b_first_label := False, b_pending := False, b_page_active := True\<rparr>"
  obtain s3 where s3: "feed_lines bench ?o 0 (replicate 35 (replicate 11 0)) s2 = Some (True, s3)"
    using bench_feed_plain [OF f2(1,2) pid, of ?o 0 35] o(3) by (auto simp: bench_batch_def)
  have "pt_tape_geometry (uint (b_tape_mm ?b)) = Some (the (pt_tape_geometry 12))" by simp
  from feed_lines_plain [OF s3 f2(1,2) pid this] have f3: "batch s3 = Some ?b" "model_of s3 = Some model" "conn s3 = Some (Usb_Conn bench_conn)"
    using f2 by (auto dest: sends_sys)
  let ?s4 = "upd_batch (\<lambda>b. b\<lparr>b_page_active := False, b_pending := True\<rparr>) (note_event (Ev_Job_Canceled False) s3)"
  obtain st where "printer s3 = Some st" "ps_model st = model" using f3(2) by (auto simp: model_of_def)
  then have s4: "r_endpage bench ?o s3 = Some (True, ?s4)"
    using f3(1) pid by (simp add: r_endpage_def papplJobIsCanceled_def answer_def bench_batch_def)
  have "run_page bench (o1, replicate 35 (replicate 11 0)) s1 = Some (True, ?s4)"
    using s2 s3 s4 by (simp add: run_page_def)
  moreover obtain s5 where "r_endjob bench ?s4 = Some (True, s5)"
  proof -
    let ?s = "note_event (Ev_Job_State 5) (note_event (Ev_Job_Canceled False) ?s4)"
    obtain s5 where "pt_print_pending bench True ?s = Some (True, s5)"
      using bench_print_pending [of ?s bench_conn] f3 by (auto simp: bench_batch_def)
    then show thesis
      using that f3(1) by (simp add: r_endjob_def papplJobIsCanceled_def papplJobGetState_def answer_def bench_batch_def
          IPP_JSTATE_CANCELED_def Let_def)
  qed
  ultimately show ?thesis using s1(1) by (simp add: run_job_def)
qed

lemma bench_plain_runs:
  "\<exists>s'. run_job bench [(bench_page, replicate 35 (replicate 11 0))] plain_sys = Some (True, s')"
  by (rule bench_plain_runs_at [OF plain_sys_facts(6)]) (simp_all add: bench_sized_def bench_page_def plain_sys_facts)

definition plain_held :: sys where
  \<comment> \<open>the bench with a PT-2730 that holds a label\<close>
  "plain_held = bench_sys\<lparr>printer := Some ((idle_state PT_RUN_OPEN)\<lparr>ps_model := pt_2730\<rparr>)\<rparr>"

lemma plain_held_facts:
  "trace plain_held = []" "pt_chain_get plain_held" "model_of plain_held = Some pt_2730" "bench_idle pt_2730 plain_held"
  "\<not> pt_chain_get plain_sys"
  by (simp_all add: plain_held_def plain_sys_def bench_sys_def pt_chain_get_def pt_run_get_def idle_state_def model_of_def
      bench_quiet_def bench_idle_def)

section \<open>Properties\<close>

text \<open>C2. A successful job on any model but the P710BT prints exactly its program. When PAPPL's
  callbacks of a job all succeed and the job is not canceled, the buffers sent to the device, in
  order, are the encoding of the abstract job program. It begins with one initialization unless a held
  run continues, that is, exactly unless the run was held when the job came and no reading of the tape
  during the job reported the cassette gone or of another width. One raster start with the parameter
  byte of the model's table row follows, the plain print information, mode and advanced bytes before
  every label, every scanline of every page
  in the model's line format, a form feed between labels, and at the end the final cut if the policy
  asks for it, else a form feed that holds the label. All pages fit the one tape that is declared, the
  run ends closed exactly after a final cut, the batch is gone, and a printer that reads the bytes
  understands exactly that program.\<close>

theorem plain_job_prints_program:
  assumes "run_job E (pg # pgs) s = Some (True, s')" "model_of s = Some model" "dev_pid model \<noteq> PT_P710BT_PID"
    and "\<And>h. \<not> job_canceled E h" "\<And>h. job_state E h < IPP_JSTATE_CANCELED"
  shows "\<exists>policy mm g. pt_job_policy E (Ev_Job_Canceled False # trace s) = Some policy
    \<and> pt_tape_geometry mm = Some g \<and> pages_fit (pg # pgs) mm
    \<and> (let prog = plain_program model (run_continues E s s') policy (word_of_int mm) (map (window_rows g \<circ> snd) (pg # pgs));
           sent = map (encode_cmd (packbits model)) prog; bytes = concat sent in
        outputs (trace s') = outputs (trace s) @ sent
        \<and> decode_stream (parse_cmd (packbits model)) (length bytes) bytes = Some prog)
    \<and> batch s' = None \<and> pt_run_get s' = (if cut_at_end policy then PT_RUN_CLOSED else PT_RUN_OPEN)"
proof -
  let ?cont = "run_continues E s s'"
  have ok: "list_all (\<lambda>pg. dev_pid model \<noteq> PT_P710BT_PID) (pg # pgs)" using assms(3) by (simp add: list_all_iff)
  obtain policy mm g where j: "pt_job_policy E (Ev_Job_Canceled False # trace s) = Some policy"
    "pt_tape_geometry mm = Some g" "pages_fit (pg # pgs) mm"
    "outputs (trace s') = outputs (trace s) @ map (encode_cmd (packbits model))
       (plain_program model ?cont policy (word_of_int mm) (map (window_rows g \<circ> snd) (pg # pgs)))"
    "batch s' = None" "pt_run_get s' = (if cut_at_end policy then PT_RUN_CLOSED else PT_RUN_OPEN)"
    "list_all (list_all (\<lambda>r. length r = 16)) (map (window_rows g \<circ> snd) (pg # pgs))"
    by (rule plain.job_run [OF assms(1,2) ok assms(4,5), folded plain_program_def]) (rule that, assumption+)
  from plain.job_decodes [OF j(7) refl, of _ model, folded plain_program_def, of "[]"]
  have "let bytes = concat (map (encode_cmd (packbits model)) (plain_program model ?cont policy (word_of_int mm) (map (window_rows g \<circ> snd) (pg # pgs)))) in
    decode_stream (parse_cmd (packbits model)) (length bytes) bytes
      = Some (plain_program model ?cont policy (word_of_int mm) (map (window_rows g \<circ> snd) (pg # pgs)))"
    by simp
  with j show ?thesis unfolding Let_def by blast
qed

theorem plain_job_prints_program_witness:
  "(\<exists>s' mm g. run_job bench blank_job plain_sys = Some (True, s')
      \<and> pt_tape_geometry mm = Some g \<and> outputs (trace s') = map (encode_cmd False)
          (plain_program pt_2730 False (pt_cut_policy_for PT_CUT_EACH) (word_of_int mm) [window_rows g (replicate 35 (replicate 11 0))])
      \<and> pt_run_get s' = PT_RUN_CLOSED)
   \<and> (\<exists>s' mm g. run_job bench blank_job plain_held = Some (True, s')
      \<and> pt_tape_geometry mm = Some g \<and> outputs (trace s') = map (encode_cmd False)
          (plain_program pt_2730 True (pt_cut_policy_for PT_CUT_EACH) (word_of_int mm) [window_rows g (replicate 35 (replicate 11 0))])
      \<and> pt_run_get s' = PT_RUN_CLOSED)"
proof
  have c: "\<And>h. \<not> job_canceled bench h" "\<And>h. job_state bench h < IPP_JSTATE_CANCELED" by (simp_all add: IPP_JSTATE_CANCELED_def)
  have pb: "packbits pt_2730 = False" by (simp add: packbits_def pt_2730_def flag_defs)
  have sz: "bench_sized bench_page" by (simp add: bench_sized_def bench_page_def)
  obtain s1 where s1: "run_job bench blank_job plain_sys = Some (True, s1)" using bench_plain_runs by (auto simp: blank_job_def)
  moreover have "\<not> run_continues bench plain_sys s1" by (simp add: run_continues_def plain_held_facts)
  ultimately show "\<exists>s' mm g. run_job bench blank_job plain_sys = Some (True, s')
      \<and> pt_tape_geometry mm = Some g \<and> outputs (trace s') = map (encode_cmd False)
          (plain_program pt_2730 False (pt_cut_policy_for PT_CUT_EACH) (word_of_int mm) [window_rows g (replicate 35 (replicate 11 0))])
      \<and> pt_run_get s' = PT_RUN_CLOSED"
    using plain_job_prints_program [OF s1 [unfolded blank_job_def] plain_sys_facts(4,5) c]
    by (auto simp: plain_sys_facts bench_policy pb Let_def)
  obtain s2 where s2: "run_job bench blank_job plain_held = Some (True, s2)"
    using bench_plain_runs_at [OF plain_held_facts(4) sz plain_sys_facts(5)] by (auto simp: blank_job_def)
  have "run_continues bench plain_held s2"
    by (rule plain.bench_continues [OF s2 [unfolded blank_job_def] plain_held_facts(4)])
      (simp_all add: sz plain_held_facts plain_sys_facts)
  then show "\<exists>s' mm g. run_job bench blank_job plain_held = Some (True, s')
      \<and> pt_tape_geometry mm = Some g \<and> outputs (trace s') = map (encode_cmd False)
          (plain_program pt_2730 True (pt_cut_policy_for PT_CUT_EACH) (word_of_int mm) [window_rows g (replicate 35 (replicate 11 0))])
      \<and> pt_run_get s' = PT_RUN_CLOSED"
    using plain_job_prints_program [OF s2 [unfolded blank_job_def] plain_held_facts(3) plain_sys_facts(5) c] s2
    by (auto simp: plain_held_facts bench_policy pb Let_def)
qed

end
