(* ===== verification/Png_Program.thy ===== *)
theory Png_Program
  imports Png_Jobs Plain_Program
begin

text \<open>
  The whole way of a PNG to the tape: the filter checks and prepares the image, PAPPL's image filter turns
  it into the raster callbacks of one page for every copy, and these print it. What PAPPL's filter does is the
  hypothesis \<open>renders\<close>.
\<close>

definition renders :: "env \<Rightarrow> png_env \<Rightarrow> (pt_options \<Rightarrow> content \<Rightarrow> nat \<Rightarrow> int \<Rightarrow> u8 list list) \<Rightarrow> bool" where
  \<comment> \<open>papplJobFilterImage runs a raster job with a page for every copy and as many lines as its header says\<close>
  "renders E P lines \<longleftrightarrow> 1 \<le> job_copies E \<and> (\<forall>o1 img depth ppi s.
     filter_image P o1 img depth ppi s = run_job E (replicate (nat (job_copies E)) (o1, lines o1 img depth ppi)) s
     \<and> length (lines o1 img depth ppi) = unat (cups_height o1))"

definition decodes :: "png_env \<Rightarrow> bool" where
  \<comment> \<open>libpng fills the buffer it is given; PAPPL's bounds of an image are below ten million pixels\<close>
  "decodes P \<longleftrightarrow> (\<forall>h n. length (png_pixels P h n) = n) \<and> max_width P < 10 ^ 7 \<and> max_height P < 10 ^ 7"

lemma decoded_image_ok:
  assumes "decodes P" "header_ok P (px_width img) (px_height img) depth ppi"
    and "px_data img = png_pixels P h (nat (px_width img) * nat (px_height img) * depth)"
  shows "image_ok img depth" "0 < ppi" "ppi < 2 ^ 31"
proof -
  show "image_ok img depth"
    using assms by (auto simp: image_ok_def header_ok_def decodes_def)
  have "sint (png_y_ppi P) < 2 ^ 31" using sint_lt [of "png_y_ppi P"] by simp
  then show "0 < ppi" "ppi < 2 ^ 31" using assms(2) by (auto simp: header_ok_def PT_DEFAULT_PPI_def)
qed

definition png_printed :: "env \<Rightarrow> png_env \<Rightarrow> (pt_options \<Rightarrow> content \<Rightarrow> nat \<Rightarrow> int \<Rightarrow> u8 list list) \<Rightarrow>
    (bool \<Rightarrow> pt_cut_policy \<Rightarrow> int \<Rightarrow> pt_geometry \<Rightarrow> u8 list list list \<Rightarrow> u8 list list) \<Rightarrow> sys \<Rightarrow> sys \<Rightarrow> bool" where
  \<comment> \<open>a label of checked content was printed for every copy, by the given code of rendered lines\<close>
  "png_printed E P lines code s s' \<longleftrightarrow> (\<exists>policy mm g o1 img img' depth ppi landscape sc s1.
     confirmed E s sc \<and> header_ok P (px_width img) (px_height img) depth ppi
     \<and> hd (trace sc) = Ev_Png Png_Read_End True
     \<and> px_data img = png_pixels P (trace sc) (nat (px_width img) * nat (px_height img) * depth)
     \<and> pt_preflight_png o1 img depth ppi landscape sc = Some ((True, img'), s1)
     \<and> only_margins_lost o1 img img' depth ppi landscape
     \<and> pt_job_policy E (Ev_Job_Canceled False # trace s1) = Some policy
     \<and> pt_tape_geometry mm = Some g \<and> fits (cups_width o1) (size_width (o_media o1)) mm
     \<and> outputs (trace s') = outputs (trace s)
         @ code (run_continues E s s') policy mm g (replicate (nat (job_copies E)) (lines o1 img' depth ppi))
     \<and> pt_run_get s \<noteq> PT_RUN_UNCERTAIN
     \<and> batch s' = None \<and> pt_run_get s' = (if cut_at_end policy then PT_RUN_CLOSED else PT_RUN_OPEN))"

context page_program
begin

lemma png_prints:
  assumes "pt_filter_png E P s = Some (True, s')" "model_of s = Some model" "renders E P lines" "decodes P"
    and "\<And>h. \<not> job_canceled E h" "\<And>h. job_state E h < IPP_JSTATE_CANCELED"
    and "\<And>o1 ls. length ls = unat (cups_height o1) \<Longrightarrow> page_ok (o1, ls)"
  shows "png_printed E P lines (\<lambda>cont policy mm g lss.
     map (encode_cmd pb) (run_program (label policy (word_of_int mm)) cont policy (map (rows g) lss))) s s'"
proof -
  have "validated E P s True s'" using ensuresD [OF filter_png_post assms(1)] by simp
  then obtain sc s1 s2 o1 img img' depth ppi landscape where v: "confirmed E s sc"
      "header_ok P (px_width img) (px_height img) depth ppi" "hd (trace sc) = Ev_Png Png_Read_End True"
      "px_data img = png_pixels P (trace sc) (nat (px_width img) * nat (px_height img) * depth)"
      "pt_preflight_png o1 img depth ppi landscape sc = Some ((True, img'), s1)"
      "outputs (trace s1) = outputs (trace s)" "model_of s1 = model_of s" "run_observed (pt_run_get s) (pt_run_get s1)"
      "filter_image P o1 img' depth ppi s1 = Some (True, s2)" "outputs (trace s') = outputs (trace s2)"
      "pt_run_get s' = pt_run_get s2" "batch s' = batch s2" "tracks E s s1" "closings E (trace s') = closings E (trace s2)"
    unfolding validated_def by blast
  have lost: "only_margins_lost o1 img img' depth ppi landscape"
    using preflight_accepts [OF v(5)] decoded_image_ok [OF assms(4) v(2,4)] by simp
  let ?pg = "(o1, lines o1 img' depth ppi)" and ?n = "nat (job_copies E)"
  obtain k where k: "?n = Suc k" using assms(3) by (cases ?n) (auto simp: renders_def)
  have run: "run_job E (?pg # replicate k ?pg) s1 = Some (True, s2)" and whole: "list_all page_ok (?pg # replicate k ?pg)"
    using assms(3,7) v(9) k by (simp_all add: renders_def list_all_iff)
  have m: "model_of s1 = Some model" using v(7) assms(2) by simp
  obtain policy mm g where j: "pt_job_policy E (Ev_Job_Canceled False # trace s1) = Some policy"
    "pt_tape_geometry mm = Some g" "pages_fit (?pg # replicate k ?pg) mm" "pt_run_get s1 \<noteq> PT_RUN_UNCERTAIN"
    "outputs (trace s2) = outputs (trace s1) @ map (encode_cmd pb)
       (run_program (label policy (word_of_int mm)) (run_continues E s1 s2) policy (map (rows g \<circ> snd) (?pg # replicate k ?pg)))"
    "batch s2 = None" "pt_run_get s2 = (if cut_at_end policy then PT_RUN_CLOSED else PT_RUN_OPEN)"
    "closings E (trace s1) \<le> closings E (trace s2)"
    by (rule job_run [OF run m whole assms(5,6)]) (rule that, assumption+)
  have cont: "run_continues E s1 s2 = run_continues E s s'"
    using v(13,14) j(8) by (auto simp: run_continues_def tracks_def)
  have labels: "map (rows g \<circ> snd) (?pg # replicate k ?pg) = map (rows g) (replicate ?n (lines o1 img' depth ppi))"
    by (simp add: k)
  have out: "outputs (trace s') = outputs (trace s) @ map (encode_cmd pb)
       (run_program (label policy (word_of_int mm)) (run_continues E s s') policy (map (rows g) (replicate ?n (lines o1 img' depth ppi))))"
    using j(5) v(6,10) unfolding labels cont by simp
  have fit: "fits (cups_width o1) (size_width (o_media o1)) mm" using j(3) by (simp add: pages_fit_def)
  have run': "pt_run_get s \<noteq> PT_RUN_UNCERTAIN" using j(4) v(8) by (auto simp: run_observed_def)
  have fin: "batch s' = None" "pt_run_get s' = (if cut_at_end policy then PT_RUN_CLOSED else PT_RUN_OPEN)"
    using j(6,7) v(11,12) by simp_all
  show ?thesis
    unfolding png_printed_def
    by (rule exI [of _ policy], rule exI [of _ mm], rule exI [of _ g], rule exI [of _ o1], rule exI [of _ img],
        rule exI [of _ img'], rule exI [of _ depth], rule exI [of _ ppi], rule exI [of _ landscape], rule exI [of _ sc], rule exI [of _ s1],
        intro conjI, (rule v(1-5) lost j(1,2) fit out run' fin)+)
qed

end

text \<open>C3. A PNG that prints, prints exactly itself: when the filter reports success on a P710BT and the job
  is not canceled, the output is the encoding of the program of one label for every copy, begun with
  invalidation and initialization exactly unless a held run continues. The rows are the packed
  interior lines PAPPL rendered from an image that was read to its end, whose header passed every check
  (size within PAPPL's limits, square resolution), and which, unless the job asks for scaling, fits page and tape
  and lost only blank lines beside the printable window; the page fits the tape declared to the printer,
  and the tape was confirmed before. The run ends closed exactly after a final cut. PAPPL's image filter is
  taken to run one page per copy, and libpng to fill the buffer it is given, whose bounds are below ten
  million pixels a side.\<close>

theorem png_job_prints_program:
  assumes "pt_filter_png E P s = Some (True, s')" "model_of s = Some pt_p710bt" "renders E P lines" "decodes P"
    and "\<And>h. \<not> job_canceled E h" "\<And>h. job_state E h < IPP_JSTATE_CANCELED"
  shows "png_printed E P lines (\<lambda>cont policy mm g lss.
     map (encode_cmd True) (job_program cont policy (word_of_int mm) (map (packed_rows g) lss))) s s'"
  using p710.png_prints [OF assms] by (simp add: job_program_def)

definition bench_lines :: "pt_options \<Rightarrow> content \<Rightarrow> nat \<Rightarrow> int \<Rightarrow> u8 list list" where
  \<comment> \<open>blank lines, as many as the page has\<close>
  "bench_lines o1 img depth ppi = replicate (unat (cups_height o1)) (replicate 11 0)"

definition bench_renderer :: png_env where
  "bench_renderer = bench_png_with (\<lambda>o1 img depth ppi s. run_job bench [(o1, bench_lines o1 img depth ppi)] s)"

lemma bench_renders: "renders bench bench_renderer bench_lines" "decodes bench_renderer"
  by (simp_all add: renders_def bench_renderer_def bench_lines_def decodes_def)

lemma bench_png_job:
  assumes "bench_idle pt_p710bt s0"
  shows "\<exists>s'. pt_filter_png bench bench_renderer s0 = Some (True, s')"
  unfolding bench_renderer_def
proof (rule bench_filter_runs_with [OF _ assms])
  fix img s
  assume "bench_idle pt_p710bt s"
  from bench_job_runs_at [OF this bench_png_sized]
  show "\<exists>s'. run_job bench [(bench_png_page, bench_lines bench_png_page img 1 180)] s = Some (True, s')"
    using bench_png_sized by (simp add: bench_lines_def bench_sized_def)
qed

theorem png_job_prints_program_witness:
  "\<exists>s' policy mm g rows. pt_filter_png bench bench_renderer bench_sys = Some (True, s')
     \<and> outputs (trace s') = map (encode_cmd True) (job_program False policy (word_of_int mm) [packed_rows g rows])
     \<and> batch s' = None"
proof -
  obtain s' where s': "pt_filter_png bench bench_renderer bench_sys = Some (True, s')" using bench_png_job [OF bench_sys_idle] by blast
  have c: "\<And>h. \<not> job_canceled bench h" "\<And>h. job_state bench h < IPP_JSTATE_CANCELED" by (simp_all add: IPP_JSTATE_CANCELED_def)
  have f: "run_continues bench bench_sys s' = False" "map (packed_rows g) (replicate (nat (job_copies bench)) rows) = [packed_rows g rows]" for g rows
    by (simp_all add: run_continues_def held_sys_facts)
  have "\<exists>policy mm g rows. outputs (trace s') = outputs (trace bench_sys)
      @ map (encode_cmd True) (job_program False policy (word_of_int mm) [packed_rows g rows]) \<and> batch s' = None"
    using png_job_prints_program [OF s' bench_sys_facts(4) bench_renders c] unfolding png_printed_def f
    by (elim exE conjE) (intro exI conjI, assumption+)
  then show ?thesis using s' by (simp add: bench_sys_facts)
qed

text \<open>C4. The same holds on every other model: a PNG that prints, prints one label for every copy, begun
  with an initialization exactly unless a held run continues, whose rows are all the
  lines PAPPL rendered from the checked image, reduced to the window of the tape and encoded in the
  model's line format; with the same two conditions on PAPPL's filter and libpng.\<close>

theorem plain_png_prints_program:
  assumes "pt_filter_png E P s = Some (True, s')" "model_of s = Some model" "renders E P lines" "decodes P"
    and "\<And>h. \<not> job_canceled E h" "\<And>h. job_state E h < IPP_JSTATE_CANCELED" "dev_pid model \<noteq> PT_P710BT_PID"
  shows "png_printed E P lines (\<lambda>cont policy mm g lss.
     map (encode_cmd (packbits model)) (plain_program model cont policy (word_of_int mm) (map (window_rows g) lss))) s s'"
  using plain.png_prints [OF assms(1-6)] assms(7) by (simp add: plain_program_def)

lemma plain_png_job: "\<exists>s'. pt_filter_png bench bench_renderer plain_sys = Some (True, s')"
  unfolding bench_renderer_def
proof (rule bench_filter_runs_with [OF _ plain_sys_facts(6)])
  fix img s
  assume "bench_idle pt_2730 s"
  from bench_plain_runs_at [OF this bench_png_sized plain_sys_facts(5)]
  show "\<exists>s'. run_job bench [(bench_png_page, bench_lines bench_png_page img 1 180)] s = Some (True, s')"
    using bench_png_sized by (simp add: bench_lines_def bench_sized_def)
qed

theorem plain_png_prints_program_witness:
  "\<exists>s' policy mm g rows. pt_filter_png bench bench_renderer plain_sys = Some (True, s')
     \<and> outputs (trace s') = map (encode_cmd (packbits pt_2730)) (plain_program pt_2730 False policy (word_of_int mm) [window_rows g rows])
     \<and> batch s' = None"
proof -
  obtain s' where s': "pt_filter_png bench bench_renderer plain_sys = Some (True, s')" using plain_png_job by blast
  have c: "\<And>h. \<not> job_canceled bench h" "\<And>h. job_state bench h < IPP_JSTATE_CANCELED" by (simp_all add: IPP_JSTATE_CANCELED_def)
  have f: "run_continues bench plain_sys s' = False" "map (window_rows g) (replicate (nat (job_copies bench)) rows) = [window_rows g rows]" for g rows
    by (simp_all add: run_continues_def plain_held_facts)
  have "\<exists>policy mm g rows. outputs (trace s') = outputs (trace plain_sys)
      @ map (encode_cmd (packbits pt_2730)) (plain_program pt_2730 False policy (word_of_int mm) [window_rows g rows]) \<and> batch s' = None"
    using plain_png_prints_program [OF s' plain_sys_facts(4) bench_renders c plain_sys_facts(5)] unfolding png_printed_def f
    by (elim exE conjE) (intro exI conjI, assumption+)
  then show ?thesis using s' by (simp add: plain_sys_facts)
qed

end
