(* ===== verification/Job_Cancel.thy ===== *)
theory Job_Cancel
  imports Job_Life
begin

text \<open>
  Canceling a job. Every callback asks PAPPL whether the job was canceled before it touches the device;
  so from the moment the cancellation is visible, the job outputs nothing more, whatever callback comes
  next and however the status thread interleaves.
\<close>

section \<open>The callbacks of a canceled job\<close>

definition stays_canceled :: "env \<Rightarrow> bool" where
  \<comment> \<open>PAPPL does not revive a canceled job\<close>
  "stays_canceled E \<longleftrightarrow> (\<forall>h e. job_canceled E h \<longrightarrow> job_canceled E (e # h))"

lemma stays_canceled_append: "stays_canceled E \<Longrightarrow> job_canceled E h \<Longrightarrow> job_canceled E (new @ h)"
  by (induction new) (simp_all add: stays_canceled_def)

definition quiet :: "sys \<Rightarrow> sys \<Rightarrow> bool" where
  \<comment> \<open>nothing was output; the history went on; a batch is the same or failed, or it is gone\<close>
  "quiet s s' \<longleftrightarrow> outputs (trace s') = outputs (trace s) \<and> (\<exists>new. trace s' = new @ trace s)
     \<and> (batch s' = None \<or> batch s' = batch s \<or> batch s' = map_option (\<lambda>b. b\<lparr>b_failed := True\<rparr>) (batch s))"

lemma quiet_simps [simp]:
  "quiet s s" "quiet s (pt_fail_job s)"
  "quiet s (note_event (Ev_Job_Canceled c) s)" "quiet s (pt_fail_job (note_event (Ev_Job_Canceled c) s))"
  "quiet s (s\<lparr>batch := None\<rparr>)" "quiet s ((note_event (Ev_Job_Canceled c) s)\<lparr>batch := None\<rparr>)"
  by (cases "batch s"; simp add: quiet_def pt_fail_job_def)+

lemma canceled_callbacks:
  assumes "job_canceled E (trace s)"
  shows "ensures (r_startpage E o1 s) (\<lambda>r s'. \<not> fst r \<and> quiet s s')"
    and "ensures (r_writeline E o1 y l s) (\<lambda>ok s'. \<not> ok \<and> quiet s s')"
    and "ensures (r_endpage E o1 s) (\<lambda>ok s'. \<not> ok \<and> quiet s s')"
    and "ensures (r_endjob E s) (\<lambda>ok s'. quiet s s')"
    and "ensures (r_startjob E s) (\<lambda>ok s'. \<not> ok \<and> quiet s s')"
  using assms
  by (auto simp: r_startpage_def r_writeline_def r_endpage_def r_endjob_def r_startjob_def papplJobIsCanceled_def
      answer_def fail_def split: option.split)

definition during_job :: "env \<Rightarrow> sys \<Rightarrow> sys \<Rightarrow> bool" where
  \<comment> \<open>a step while a job has its batch\<close>
  "during_job E s s' \<longleftrightarrow> batch s \<noteq> None \<and> job_step E s s'"

lemma canceled_step:
  assumes "during_job E s s'" "job_canceled E (trace s)"
  shows "quiet s s'"
proof -
  have "job_step E s s'" "batch s \<noteq> None" using assms(1) by (simp_all add: during_job_def)
  then show ?thesis
  proof cases
    case (start_page o1 r)
    then show ?thesis using ensuresD [OF canceled_callbacks(1) [OF assms(2)]] by blast
  next
    case (write_line o1 y l ok)
    then show ?thesis using ensuresD [OF canceled_callbacks(2) [OF assms(2)]] by blast
  next
    case (end_page o1 ok)
    then show ?thesis using ensuresD [OF canceled_callbacks(3) [OF assms(2)]] by blast
  next
    case (end_job ok)
    then show ?thesis using ensuresD [OF canceled_callbacks(4) [OF assms(2)]] by blast
  next
    case (idle_status ok)
    then show ?thesis using ensuresD [OF status_cb_frame] by (fastforce simp: idle_frame_def quiet_def)
  qed simp_all
qed

lemma canceled_steps:
  assumes "rtranclp (during_job E) s s'" "job_canceled E (trace s)" "stays_canceled E"
  shows "outputs (trace s') = outputs (trace s) \<and> job_canceled E (trace s')"
  using assms(1)
proof (induction rule: rtranclp_induct)
  case (step s1 s2)
  then have q: "quiet s1 s2" using canceled_step by blast
  then show ?case
    using step.IH stays_canceled_append [OF assms(3)] by (auto simp: quiet_def)
qed (use assms(2) in simp)

section \<open>Properties\<close>

text \<open>C12. A canceled job prints nothing more: once PAPPL reports the job as canceled, no later callback of the
  job sends another byte, in any order, with any arguments, and with status polls in between; starting a
  page, receiving a line and ending a page fail, and the end of the job drops a label that is still held
  without feeding or cutting it.\<close>

theorem canceled_job_silent:
  assumes "rtranclp (during_job E) s s'" "job_canceled E (trace s)" "stays_canceled E"
  shows "outputs (trace s') = outputs (trace s)
    \<and> ensures (r_startpage E o1 s') (\<lambda>r _. \<not> fst r) \<and> ensures (r_writeline E o1 y l s') (\<lambda>ok _. \<not> ok)
    \<and> ensures (r_endpage E o1 s') (\<lambda>ok _. \<not> ok)
    \<and> ensures (r_endjob E s') (\<lambda>ok s''. batch s'' = None \<and> outputs (trace s'') = outputs (trace s))"
proof -
  have c: "outputs (trace s') = outputs (trace s)" "job_canceled E (trace s')" using canceled_steps [OF assms] by auto
  have gone: "ensures (r_endjob E s') (\<lambda>ok s''. batch s'' = None)"
    using c(2) by (auto simp: r_endjob_def papplJobIsCanceled_def answer_def split: option.split)
  have endjob: "ensures (r_endjob E s') (\<lambda>ok s''. batch s'' = None \<and> outputs (trace s'') = outputs (trace s))"
    by (rule ensures_mono [OF ensures_conj [OF gone canceled_callbacks(4) [OF c(2)]]]) (simp add: quiet_def c(1))
  show ?thesis
    by (intro conjI c(1) endjob ensures_mono [OF canceled_callbacks(1) [OF c(2)]] ensures_mono [OF canceled_callbacks(2) [OF c(2)]]
        ensures_mono [OF canceled_callbacks(3) [OF c(2)]]) simp_all
qed

definition canceled_bench :: env where
  "canceled_bench = bench\<lparr>job_canceled := (\<lambda>h. True)\<rparr>"

definition canceled_sys :: sys where
  \<comment> \<open>a job that holds a label\<close>
  "canceled_sys = bench_sys\<lparr>batch := Some (bench_batch\<lparr>b_pending := True, b_first_label := False\<rparr>)\<rparr>"

theorem canceled_job_silent_witness:
  "\<exists>s'. rtranclp (during_job canceled_bench) canceled_sys s' \<and> batch s' = None \<and> outputs (trace s') = []"
proof -
  let ?s = "(note_event (Ev_Job_Canceled True) canceled_sys)\<lparr>batch := None\<rparr>"
  have e: "r_endjob canceled_bench canceled_sys = Some (True, ?s)"
    by (simp add: r_endjob_def canceled_sys_def bench_batch_def papplJobIsCanceled_def answer_def canceled_bench_def)
  have "during_job canceled_bench canceled_sys ?s"
    unfolding during_job_def using end_job [OF e] by (simp add: canceled_sys_def)
  then have r: "rtranclp (during_job canceled_bench) canceled_sys ?s" by blast
  have "outputs (trace ?s) = outputs (trace canceled_sys)"
    using canceled_job_silent [OF r] by (simp add: canceled_bench_def stays_canceled_def)
  then show ?thesis using r by (intro exI [of _ ?s]) (simp add: canceled_sys_def bench_sys_def)
qed

end
