(* ===== verification/Run_Machine.thy ===== *)
theory Run_Machine
  imports Job_Cancel Job_Program
begin

text \<open>
  What the driver promises about the run of a printer, as an abstract machine: is a job in progress, and
  what is known of the tape's end. The callbacks, the status poll and the cut request refine it; what it
  promises about a whole job is then an induction over the abstract steps.
\<close>

section \<open>The abstract machine\<close>

type_synonym run_view = "pt_run \<times> bool" \<comment> \<open>the run, and whether a job is in progress\<close>

inductive run_step :: "run_view \<Rightarrow> bool \<Rightarrow> run_view \<Rightarrow> bool" where
  \<comment> \<open>the flag says whether something was printed\<close>
  observe: "r' \<le> r \<Longrightarrow> run_step (r, j) False (r', j)"
| accept: "r' \<le> r \<Longrightarrow> r \<noteq> PT_RUN_UNCERTAIN \<Longrightarrow> run_step (r, False) False (r', True)"
| emit: "run_step (r, True) p (PT_RUN_UNCERTAIN, True)"
| confirm: "r \<in> {PT_RUN_OPEN, PT_RUN_CLOSED} \<Longrightarrow> run_step (PT_RUN_UNCERTAIN, True) True (r, False)"
| lose: "run_step (PT_RUN_UNCERTAIN, True) p (PT_RUN_UNCERTAIN, False)"
| drop_job: "run_step (r, True) False (r, False)"
| cut_held: "run_step (PT_RUN_OPEN, False) True (PT_RUN_OPEN_BLANK, False)"
| cut_fails: "run_step (PT_RUN_OPEN, False) True (PT_RUN_UNCERTAIN, False)"

code_pred run_step .

inductive_cases run_step_idle: "run_step (r, False) p (r', j)"
inductive_cases run_step_job: "run_step (r, True) p (r', j)"

inductive run_steps :: "run_view \<Rightarrow> bool \<Rightarrow> run_view \<Rightarrow> bool" where
  \<comment> \<open>the flag says whether any of the steps printed\<close>
  stop: "run_steps v False v"
| more: "run_steps v p v' \<Longrightarrow> run_step v' q v'' \<Longrightarrow> run_steps v (p \<or> q) v''"

definition view :: "sys \<Rightarrow> run_view" where
  "view s = (pt_run_get s, batch s \<noteq> None)"

definition printed :: "sys \<Rightarrow> sys \<Rightarrow> bool" where
  "printed s s' \<longleftrightarrow> outputs (trace s') \<noteq> outputs (trace s)"

section \<open>The callbacks of a page\<close>

definition marks :: "sys \<Rightarrow> sys \<Rightarrow> bool" where
  \<comment> \<open>nothing was printed and the run at most observed, or the run is marked\<close>
  "marks s s' \<longleftrightarrow> (batch s' = None \<longleftrightarrow> batch s = None)
     \<and> (outputs (trace s') = outputs (trace s) \<and> pt_run_get s' \<le> pt_run_get s
       \<or> batch s \<noteq> None \<and> pt_run_get s' = PT_RUN_UNCERTAIN)"

lemma marks_simps [simp]:
  "marks s s" "no_output e \<Longrightarrow> marks s (note_event e s') = marks s s'" "marks s (upd_batch f s') = marks s s'"
  "marks s (pt_fail_job s') = marks s s'"
  by (simp_all add: marks_def no_output_def pt_fail_job_def)

lemma marks_observes: "observes s s' \<Longrightarrow> marks s s'"
  using observes_run [of s s'] by (simp add: marks_def observes_def)

lemma marks_trans: "marks s s' \<Longrightarrow> marks s' s'' \<Longrightarrow> marks s s''"
  by (auto simp: marks_def dest: order_trans)

lemma marks_sends:
  "sends bufs s s' \<Longrightarrow> pt_run_get s = PT_RUN_UNCERTAIN \<Longrightarrow> batch s = Some b \<Longrightarrow> marks s s'"
  "sends bufs (note_event e s) s' \<Longrightarrow> pt_run_get s = PT_RUN_UNCERTAIN \<Longrightarrow> batch s = Some b \<Longrightarrow> marks s s'"
  "sends bufs (pt_run_set PT_RUN_UNCERTAIN s1) s' \<Longrightarrow> batch s1 = Some b1 \<Longrightarrow> batch s = Some b \<Longrightarrow> marks s s'"
  "sends bufs (pt_run_set PT_RUN_UNCERTAIN s1) s2 \<Longrightarrow> sends rows s2 s' \<Longrightarrow> batch s1 = Some b1 \<Longrightarrow> batch s = Some b
    \<Longrightarrow> marks s s'"
  by (simp_all add: marks_def sends_sys)

lemma marks_released:
  assumes "job_ok s" "batch s = Some b" "released_if (b_pending b) ok s s'"
  shows "batch s' \<noteq> None" "\<not> ok \<Longrightarrow> marks s s'"
proof -
  have unc: "b_pending b \<Longrightarrow> pt_run_get s = PT_RUN_UNCERTAIN"
    using assms(1,2) by (auto simp: job_ok_def batch_ok_def)
  show "batch s' \<noteq> None"
    using assms(2,3) by (auto simp: released_if_def released_def sends_sys split: if_splits)
  show "\<not> ok \<Longrightarrow> marks s s'"
    using assms(2,3) unc marks_sends(1) [OF _ _ assms(2)] by (auto simp: released_if_def released_def split: if_splits)
qed

lemma release_previous_marks:
  assumes "job_ok s" "batch s = Some b"
  shows "ensures (release_previous E b s) (\<lambda>ok s'. batch s' \<noteq> None \<and> (\<not> ok \<longrightarrow> marks s s'))"
  by (rule release_previous_wp [OF assms(2)]) (use marks_released [OF assms] in blast)

lemma start_output_marks:
  assumes "job_ok s"
  shows "ensures (start_output E model s) (\<lambda>ok s'. marks s s')"
  by (auto simp: start_output_def ensures_state fail_def Let_def
      intro!: ensures_mono [OF release_previous_marks [OF assms]] job_writes_wp intro: marks_sends(3))

lemma stage_page_marks: "ensures (stage_page E s) (\<lambda>ok s'. marks s s')"
  by (auto simp: stage_page_def ensures_state pappl_defs fail_def)

lemma send_page_marks:
  assumes "job_ok s"
  shows "ensures (send_page E o1 model s) (\<lambda>ok s'. marks s s')"
  by (auto simp: send_page_def ensures_state fail_def Let_def
      intro!: ensures_mono [OF release_previous_marks [OF assms]] job_writes_wp send_rows_wp
      intro: marks_sends(3,4))

lemma startpage_marks:
  assumes "job_ok s"
  shows "ensures (r_startpage E o1 s) (\<lambda>r s'. marks s s')"
proof -
  have beg: "ensures (begin_page E s') (\<lambda>ok s''. marks s s'')" if "marks s s'" "job_ok s'" for s'
    using ensures_mono [OF stage_page_marks marks_trans [OF that(1)]]
      ensures_mono [OF start_output_marks [OF that(2)] marks_trans [OF that(1)]]
    by (simp add: begin_page_def ensures_state)
  have wait: "ensures (pt_wait_for_tape E mm s') (\<lambda>ok s''. marks s s'' \<and> job_ok s'')" if "marks s s'" "job_ok s'" for s' mm
  proof (rule ensures_mono [OF wait_for_tape_waited])
    fix ok s''
    let ?t = "if ok then upd_batch (\<lambda>b. b\<lparr>b_tape_mm := word_of_int mm\<rparr>) s' else s'"
    assume "waited E mm s' ok s''"
    then have o: "observes ?t s''" by (simp add: waited_def)
    have "marks s ?t" "job_ok ?t" using that by simp_all
    then show "marks s s'' \<and> job_ok s''" using marks_trans [OF _ marks_observes [OF o]] job_ok_observes [OF o] by blast
  qed
  show ?thesis
    using assms
    by (auto simp: r_startpage_def ensures_state pappl_defs split: option.split prod.split
        intro!: ensures_mono [OF wait] ensures_mono [OF beg])
qed

lemma writeline_marks:
  assumes "job_ok s"
  shows "ensures (r_writeline E o1 y l s) (\<lambda>r s'. marks s s')"
proof -
  have line: "ensures (pt_job_write E (raster_line (ps_model st) p) (note_event (Ev_Job_Canceled c) s)) (\<lambda>ok s'. marks s s')"
    if "batch s = Some b" "b_page_active b" "printer s = Some st" "dev_pid (ps_model st) \<noteq> PT_P710BT_PID" for b st p c
  proof -
    have "pt_run_get s = PT_RUN_UNCERTAIN"
      using assms that by (auto simp: job_ok_def batch_ok_def is_710_printer [symmetric] split: if_splits)
    then show ?thesis using that(1) by (auto intro!: job_write_wp intro: marks_sends(2))
  qed
  show ?thesis
    by (auto simp: r_writeline_def ensures_state pappl_defs fail_def Let_def split: option.split
        intro!: ensures_mono [OF line])
qed

lemma endpage_marks:
  assumes "job_ok s"
  shows "ensures (r_endpage E o1 s) (\<lambda>r s'. marks s s')"
proof -
  have "ensures (send_page E o1 model (note_event (Ev_Job_Canceled c) s)) (\<lambda>ok s'. marks s s')" for model c
    by (rule ensures_mono [OF send_page_marks]) (use assms in \<open>simp_all add: marks_def\<close>)
  then show ?thesis
    by (auto simp: r_endpage_def ensures_state pappl_defs fail_def split: option.split)
qed

lemma marks_step: "marks s s' \<Longrightarrow> run_step (view s) (printed s s') (view s')"
  by (cases "batch s = None") (auto simp: marks_def view_def printed_def intro: run_step.intros)

section \<open>The start and the end of a job, and what happens between jobs\<close>

lemma startjob_machine:
  assumes "batch s = None"
  shows "ensures (r_startjob E s) (\<lambda>ok s'. run_step (view s) (printed s s') (view s'))"
proof -
  have ref: "ensures (pt_refresh_ready_media E s1) (\<lambda>ok s'. outputs (trace s') = outputs (trace s) \<and> batch s' = None
      \<and> pt_run_get s' \<le> pt_run_get s)"
    if "outputs (trace s1) = outputs (trace s)" "batch s1 = None" "pt_run_get s1 = pt_run_get s" for s1
    by (rule ensures_mono [OF refresh_observes]) (use that observes_run in \<open>fastforce simp: observes_def\<close>)
  have obs: "run_step (view s) False (pt_run_get s', False)" if "pt_run_get s' \<le> pt_run_get s" for s'
    using assms that by (simp add: view_def observe)
  have acc: "run_step (view s) False (pt_run_get s', True)" if "pt_run_get s' \<le> pt_run_get s" "pt_run_get s \<noteq> PT_RUN_UNCERTAIN" for s'
    using assms that by (simp add: view_def accept)
  have "pt_run_get (s'\<lparr>batch := d\<rparr>) = pt_run_get s'" for s' d by (simp add: pt_run_get_def)
  then show ?thesis
    using obs [of s] obs acc assms
    by (auto simp: r_startjob_def recovery_required_result pappl_defs printed_def view_def [of "_ :: sys"] split: option.split
        intro!: ensures_mono [OF ref])
qed

lemma endjob_machine:
  assumes "job_ok s"
  shows "ensures (r_endjob E s) (\<lambda>ok s'. run_step (view s) (printed s s') (view s'))"
proof (cases "batch s")
  case None
  then show ?thesis by (simp add: r_endjob_def view_def printed_def observe)
next
  case (Some b)
  have dropped: "run_step (view s) (printed s s1) (view s1)"
    if "outputs (trace s1) = outputs (trace s)" "batch s1 = None" "pt_run_get s1 = pt_run_get s" for s1
    using that Some by (simp add: view_def printed_def drop_job)
  have get: "pt_run_get (s'\<lparr>batch := d\<rparr>) = pt_run_get s'" for s' d by (simp add: pt_run_get_def)
  have released: "run_step (view s) (printed s (s'\<lparr>batch := None\<rparr>)) (view (s'\<lparr>batch := None\<rparr>))"
    if "b_pending b" "outputs (trace s1) = outputs (trace s)" "pt_run_get s1 = pt_run_get s" "has_state s1"
      "released ct ok s1 s'" for s1 s' ct ok
  proof -
    have unc: "pt_run_get s = PT_RUN_UNCERTAIN" using assms Some that(1) by (auto simp: job_ok_def batch_ok_def)
    then have v: "view s = (PT_RUN_UNCERTAIN, True)" using Some by (simp add: view_def)
    show ?thesis
    proof (cases ok)
      case True
      then have "outputs (trace s') = outputs (trace s) @ release_cmds ct" "pt_run_get s' = (if ct then PT_RUN_CLOSED else PT_RUN_OPEN)"
        using that by (auto simp: released_def sends_sys run_get_set)
      then show ?thesis
        using v by (simp add: view_def [of "_\<lparr>batch := None\<rparr>"] printed_def get release_cmds_def confirm)
    next
      case False
      then have "pt_run_get s' = PT_RUN_UNCERTAIN" using that unc by (auto simp: released_def sends_sys)
      then show ?thesis using v by (simp add: view_def [of "_\<lparr>batch := None\<rparr>"] get lose)
    qed
  qed
  have pr: "ensures (pt_print_pending E True s1) (\<lambda>ok s'. run_step (view s) (printed s (s'\<lparr>batch := None\<rparr>)) (view (s'\<lparr>batch := None\<rparr>)))"
    if "b_pending b" "outputs (trace s1) = outputs (trace s)" "pt_run_get s1 = pt_run_get s" "has_state s1" "batch s1 = Some b" for s1
    by (rule ensures_mono [OF print_pending_released [OF that(5)]]) (rule released [OF that(1-4)])
  have "has_state s" using assms by (simp add: job_ok_def)
  then show ?thesis
    using Some
    by (auto simp: r_endjob_def pappl_defs get intro!: pr dropped)
qed

lemma status_machine: "ensures (status_cb E s) (\<lambda>ok s'. run_step (view s) (printed s s') (view s'))"
  by (rule ensures_mono [OF status_cb_frame])
    (auto simp: idle_frame_def view_def printed_def less_eq_pt_run_def intro!: observe)

definition cut_view :: "sys \<Rightarrow> sys \<Rightarrow> bool" where
  "cut_view s s' \<longleftrightarrow> batch s' = batch s \<and> (outputs (trace s') = outputs (trace s) \<and> pt_run_get s' \<le> pt_run_get s
     \<or> pt_run_get s = PT_RUN_OPEN \<and> outputs (trace s') \<noteq> outputs (trace s)
        \<and> pt_run_get s' \<in> {PT_RUN_OPEN_BLANK, PT_RUN_UNCERTAIN})"

lemma cut_machine:
  assumes "batch s = None"
  shows "ensures (pt_cut_op_cb E c s) (\<lambda>ok s'. run_step (view s) (printed s s') (view s'))"
proof -
  let ?r = "reject_attrs (cl_attrs c) s"
  have r: "outputs (trace ?r) = outputs (trace s)" "batch ?r = batch s" "pt_run_get ?r = pt_run_get s"
    using silent_sys [OF reject_silent [of s "cl_attrs c"]] by simp_all
  have cutting: "ensures (pt_cut E 160 s1) (\<lambda>r s'. cut_view s s')"
    if "batch s1 = batch s" "pt_run_get s1 = pt_run_get s" "outputs (trace s1) = outputs (trace s)" for s1
    by (rule ensures_mono [OF cut_ensures])
      (use that observes_run in \<open>fastforce simp: cut_result_def cut_view_def observes_def less_eq_pt_run_def split: if_splits\<close>)
  have keep: "cut_view s (note_event e s1) = cut_view s s1" if "no_output e" for e s1
    using that by (simp add: cut_view_def no_output_def)
  have same: "cut_view s s" "cut_view s ?r" "cut_view s (s1\<lparr>conn := d\<rparr>) = cut_view s s1" for s1 d
    using r by (simp_all add: cut_view_def)
  have "ensures (pt_cut_op_cb E c s) (\<lambda>ok s'. cut_view s s')"
    using r
    by (auto simp: pt_cut_op_cb_def Let_def respond_def papplPrinterCloseDevice_def keep same
        split: option.split intro!: ensures_mono [OF cutting])
  then show ?thesis
    by (rule ensures_mono) (use assms in \<open>auto simp: cut_view_def view_def printed_def intro: run_step.intros\<close>)
qed

lemma step_machine:
  assumes "job_step E s s'" "job_ok s"
  shows "run_step (view s) (printed s s') (view s')"
  using assms(1)
proof cases
  case (start_job ok)
  then show ?thesis using ensuresD [OF startjob_machine] by blast
next
  case (start_page o1 r)
  then show ?thesis using ensuresD [OF startpage_marks [OF assms(2)]] marks_step by blast
next
  case (write_line o1 y l ok)
  then show ?thesis using ensuresD [OF writeline_marks [OF assms(2)]] marks_step by blast
next
  case (end_page o1 ok)
  then show ?thesis using ensuresD [OF endpage_marks [OF assms(2)]] marks_step by blast
next
  case (end_job ok)
  then show ?thesis using ensuresD [OF endjob_machine [OF assms(2)]] by blast
next
  case (idle_status ok)
  then show ?thesis using ensuresD [OF status_machine] by blast
next
  case (cut_request c handled)
  then show ?thesis using ensuresD [OF cut_machine] by blast
qed

section \<open>Whole histories\<close>

lemma machine_quarantine: "run_steps v p v' \<Longrightarrow> v = (PT_RUN_UNCERTAIN, False) \<Longrightarrow> v' = v \<and> \<not> p"
  by (induction rule: run_steps.induct) (auto elim: run_step_idle)

lemma reachable_machine:
  assumes "rtranclp (job_step E) s s'" "job_ok s"
  shows "\<exists>p. run_steps (view s) p (view s') \<and> (p \<or> outputs (trace s') = outputs (trace s))"
  using assms(1)
proof (induction rule: rtranclp_induct)
  case base
  then show ?case using stop by blast
next
  case (step s1 s2)
  obtain p where p: "run_steps (view s) p (view s1)" "p \<or> outputs (trace s1) = outputs (trace s)" using step.IH by blast
  have "run_step (view s1) (printed s1 s2) (view s2)"
    by (rule step_machine [OF step.hyps(2) reachable_job_ok [OF step.hyps(1) assms(2)]])
  from more [OF p(1) this] show ?case using p(2) by (auto simp: printed_def)
qed

section \<open>Whole jobs\<close>

lemma during_job_ok: "rtranclp (during_job E) s s' \<Longrightarrow> job_ok s \<Longrightarrow> job_ok s'"
  by (induction rule: rtranclp_induct) (auto simp: during_job_def intro: step_job_ok)

lemma job_marked:
  assumes "rtranclp (during_job E) s s'" "job_ok s" "batch s' \<noteq> None"
  shows "outputs (trace s') = outputs (trace s) \<and> pt_run_get s' \<le> pt_run_get s \<or> pt_run_get s' = PT_RUN_UNCERTAIN"
  using assms(1,3)
proof (induction rule: rtranclp_induct)
  case (step s1 s2)
  have "job_step E s1 s2" "batch s1 \<noteq> None" using step.hyps(2) by (simp_all add: during_job_def)
  then have "run_step (pt_run_get s1, True) (printed s1 s2) (pt_run_get s2, True)"
    using step_machine during_job_ok [OF step.hyps(1) assms(2)] step.prems by (fastforce simp: view_def)
  then show ?case
    using step.IH [OF \<open>batch s1 \<noteq> None\<close>] by (auto simp: printed_def elim!: run_step_job dest: order_trans)
qed simp

lemma endjob_ends:
  assumes "job_ok s" "batch s = Some b"
  shows "ensures (r_endjob E s) (\<lambda>ok s'. batch s' = None \<and> (pt_run_get s' \<noteq> PT_RUN_UNCERTAIN \<longrightarrow>
     outputs (trace s') = outputs (trace s) \<and> pt_run_get s' = pt_run_get s
     \<or> ok \<and> b_pending b \<and> outputs (trace s') = outputs (trace s) @ release_cmds (cut_at_end (b_policy b))
       \<and> pt_run_get s' = (if cut_at_end (b_policy b) then PT_RUN_CLOSED else PT_RUN_OPEN)))"
proof -
  have get: "pt_run_get (s'\<lparr>batch := d\<rparr>) = pt_run_get s'" for s' d by (simp add: pt_run_get_def)
  have pr: "ensures (pt_print_pending E True s1) (\<lambda>ok s'. pt_run_get s' \<noteq> PT_RUN_UNCERTAIN \<longrightarrow>
     outputs (trace s') = outputs (trace s) \<and> pt_run_get s' = pt_run_get s
     \<or> ok \<and> outputs (trace s') = outputs (trace s) @ release_cmds (cut_at_end (b_policy b))
       \<and> pt_run_get s' = (if cut_at_end (b_policy b) then PT_RUN_CLOSED else PT_RUN_OPEN))"
    if s1: "b_pending b" "outputs (trace s1) = outputs (trace s)" "pt_run_get s1 = pt_run_get s" "has_state s1" "batch s1 = Some b" for s1
  proof -
    have "pt_run_get s = PT_RUN_UNCERTAIN" using assms s1(1) by (auto simp: job_ok_def batch_ok_def)
    then show ?thesis
      by (intro ensures_mono [OF print_pending_released [OF s1(5)]])
        (use s1 in \<open>auto simp: released_def sends_sys run_get_set split: if_splits\<close>)
  qed
  have "has_state s" using assms by (simp add: job_ok_def)
  then show ?thesis
    using assms(2)
    by (auto simp: r_endjob_def pappl_defs get intro!: ensures_mono [OF pr])
qed

section \<open>The confirmation of a release\<close>

definition answered_ready :: "env \<Rightarrow> hist \<Rightarrow> hist \<Rightarrow> bool" where
  \<comment> \<open>after the first history the printer reported that it is ready to receive; a URI without a status path cannot\<close>
  "answered_ready E h h' \<longleftrightarrow> pt_live_uri (device_uri E) \<longrightarrow>
     (\<exists>new pkt. replies h' = replies h @ new \<and> awaiting new pkt \<and> clean_block pkt \<and> receive_ready pkt)"

definition confirmed_release :: "env \<Rightarrow> hist \<Rightarrow> hist \<Rightarrow> u8 list list \<Rightarrow> bool" where
  \<comment> \<open>exactly these buffers were sent, and then the printer reported ready\<close>
  "confirmed_release E h h' bufs \<longleftrightarrow> (\<exists>sent later. h' = later @ sent \<and> outputs sent = outputs h @ bufs
     \<and> outputs h' = outputs sent \<and> answered_ready E sent h')"

lemma wait_ready_confirms:
  assumes "pt_wait_ready E s = Some (True, s')"
  shows "silent s s'" "answered_ready E (trace s) (trace s')"
proof -
  show "silent s s'" using ensuresD [OF wait_ready_silent assms] by simp
  have "ensures (pt_wait_ready E s) (\<lambda>ok s'. ok \<longrightarrow> answered_ready E (trace s) (trace s'))"
    by (auto simp: pt_wait_ready_def pappl_defs intro!: ensures_mono [OF await_ensures])
      (auto simp: answered_ready_def await_done_def)
  from ensuresD [OF this assms] show "answered_ready E (trace s) (trace s')" by simp
qed

lemma print_pending_confirms:
  assumes "pt_print_pending E final s = Some (True, s')" "batch s = Some b"
  shows "confirmed_release E (trace s) (trace s') (release_cmds (final \<and> cut_at_end (b_policy b)))"
proof -
  obtain s2 s3 where w: "pt_wait_ready E s2 = Some (True, s3)" "trace s' = trace s3"
    using assms by (auto simp: pt_print_pending_def Let_def split: Option.bind_splits if_splits)
  note c = wait_ready_confirms [OF w(1)]
  have "outputs (trace s') = outputs (trace s) @ release_cmds (final \<and> cut_at_end (b_policy b))"
    using ensuresD [OF print_pending_released [OF assms(2)] assms(1)] by (auto simp: released_def sends_sys)
  moreover obtain new where "trace s3 = new @ trace s2" using c(1) by (auto simp: silent_def extends_def)
  ultimately show ?thesis
    unfolding confirmed_release_def using w(2) c(2) silent_outputs [OF c(1)]
    by (intro exI [of _ "trace s2"] exI [of _ new]) simp
qed

lemma endjob_confirms:
  assumes "r_endjob E s = Some (ok, s')" "batch s = Some b" "outputs (trace s') \<noteq> outputs (trace s)" "ok"
  shows "confirmed_release E (trace s) (trace s') (release_cmds (cut_at_end (b_policy b)))"
proof -
  obtain s1 s2 where p: "pt_print_pending E True s1 = Some (True, s2)" "s' = s2\<lparr>batch := None\<rparr>" "batch s1 = Some b"
      "outputs (trace s1) = outputs (trace s)"
    using assms by (auto simp: r_endjob_def pappl_defs answer_def split: Option.bind_splits if_splits)
  from print_pending_confirms [OF p(1,3)] show ?thesis using p(2,4) by (simp add: confirmed_release_def)
qed

section \<open>The steps of a page\<close>

lemma callback_has_batch:
  "r_startpage E o1 s = Some ((True, o2), s') \<Longrightarrow> batch s \<noteq> None"
  "r_writeline E o1 y l s = Some (True, s') \<Longrightarrow> batch s \<noteq> None"
  "r_endpage E o1 s = Some (True, s') \<Longrightarrow> batch s \<noteq> None"
  by (cases "batch s"; simp add: r_startpage_def r_writeline_def r_endpage_def fail_def)+

lemma feed_lines_during: "feed_lines E o1 k ls s = Some (True, s') \<Longrightarrow> rtranclp (during_job E) s s'"
proof (induction ls arbitrary: k s)
  case (Cons l ls)
  then obtain s1 where l: "r_writeline E o1 (word_of_nat k) l s = Some (True, s1)" "feed_lines E o1 (Suc k) ls s1 = Some (True, s')"
    by (auto split: Option.bind_splits if_splits)
  have "during_job E s s1" using callback_has_batch(2) [OF l(1)] write_line [OF l(1)] by (simp add: during_job_def)
  then show ?case using Cons.IH [OF l(2)] by (rule converse_rtranclp_into_rtranclp)
qed simp

lemma run_page_during:
  assumes "run_page E pg s = Some (True, s')"
  shows "rtranclp (during_job E) s s'"
proof -
  obtain o2 s1 s2 where p: "r_startpage E (fst pg) s = Some ((True, o2), s1)" "feed_lines E o2 0 (snd pg) s1 = Some (True, s2)"
      "r_endpage E o2 s2 = Some (True, s')"
    using assms by (auto simp: run_page_def split: Option.bind_splits if_splits)
  have "during_job E s s1" "during_job E s2 s'"
    using callback_has_batch(1) [OF p(1)] start_page [OF p(1)] callback_has_batch(3) [OF p(3)] end_page [OF p(3)]
    by (simp_all add: during_job_def)
  then show ?thesis using feed_lines_during [OF p(2)] by (meson converse_rtranclp_into_rtranclp rtranclp.rtrancl_into_rtrancl)
qed

section \<open>Properties\<close>

text \<open>C6. The driver refines the run machine: in every state reachable by callbacks in any order, idle status
  polls and cut requests, the next step is a step of the abstract machine on the run state and the presence
  of a job, it prints only where the machine may print, and the whole history is one of the machine. So a job is accepted only on a run that is not
  uncertain, printing makes the run uncertain until the job ends, an uncertain run becomes certain only
  by the release that ends a job, only an open run is ever cut without a job, and observing lowers what is claimed
  and never raises it.\<close>

theorem driver_refines_run_machine:
  assumes "rtranclp (job_step E) s0 s" "job_ok s0" "job_step E s s'"
  shows "run_step (view s) (printed s s') (view s')
    \<and> (\<exists>p. run_steps (view s0) p (view s') \<and> (p \<or> outputs (trace s') = outputs (trace s0)))"
  using step_machine [OF assms(3) reachable_job_ok [OF assms(1,2)]]
    reachable_machine [OF rtranclp.rtrancl_into_rtrancl [OF assms(1,3)] assms(2)] by blast

theorem driver_refines_run_machine_witness:
  "\<exists>s'. job_step bench bench_sys s' \<and> run_step (PT_RUN_CLOSED, False) (printed bench_sys s') (view s') \<and> snd (view s')"
proof -
  obtain s' where s': "r_startjob bench bench_sys = Some (True, s')" "batch s' = Some bench_batch" using bench_startjob by blast
  then have st: "job_step bench bench_sys s'" by (intro start_job) (simp_all add: bench_sys_def)
  have "job_ok bench_sys" by (simp add: job_ok_def has_state_model bench_sys_facts) (simp add: bench_sys_def)
  from driver_refines_run_machine [OF _ this st] have "run_step (view bench_sys) (printed bench_sys s') (view s')" by blast
  moreover have "view bench_sys = (PT_RUN_CLOSED, False)" by (simp add: view_def bench_sys_facts) (simp add: bench_sys_def)
  ultimately show ?thesis using st s'(2) by (auto simp: view_def)
qed

text \<open>C8. A job leaves certainty only behind what was confirmed: while a job that has sent anything is in progress, its
  run is uncertain; and when it ends and the run is not uncertain, then either the whole job printed nothing
  and the run was at most observed, or the end succeeded: a label was held, exactly its release was sent,
  after that the printer reported in an unbroken stream of clean status blocks that it is ready to receive
  (unless the device URI has no status path), and the run is closed after a cut and open after a feed.
  Whatever failed in between leaves the uncertain state.\<close>

theorem job_end_certain:
  assumes "rtranclp (during_job E) s s'" "job_ok s" "batch s' = Some b" "r_endjob E s' = Some (ok, s'')"
  shows "(if outputs (trace s') = outputs (trace s) then True else pt_run_get s' = PT_RUN_UNCERTAIN) \<and> batch s'' = None
    \<and> (if pt_run_get s'' = PT_RUN_UNCERTAIN then True
       else outputs (trace s'') = outputs (trace s) \<and> pt_run_get s'' \<le> pt_run_get s
         \<or> ok \<and> b_pending b \<and> confirmed_release E (trace s') (trace s'') (release_cmds (cut_at_end (b_policy b)))
           \<and> outputs (trace s'') = outputs (trace s') @ release_cmds (cut_at_end (b_policy b))
           \<and> pt_run_get s'' = (if cut_at_end (b_policy b) then PT_RUN_CLOSED else PT_RUN_OPEN))"
proof -
  have m: "outputs (trace s') = outputs (trace s) \<and> pt_run_get s' \<le> pt_run_get s \<or> pt_run_get s' = PT_RUN_UNCERTAIN"
    by (rule job_marked [OF assms(1,2)]) (simp add: assms(3))
  have ne: "release_cmds ct \<noteq> []" for ct by (simp add: release_cmds_def)
  show ?thesis
    using ensuresD [OF endjob_ends [OF during_job_ok [OF assms(1,2)] assms(3)] assms(4)] m
      endjob_confirms [OF assms(4,3)] ne by auto
qed

definition held_job_sys :: sys where
  \<comment> \<open>a job with a complete label on the bench\<close>
  "held_job_sys = bench_sys\<lparr>printer := Some (idle_state PT_RUN_UNCERTAIN),
     batch := Some (bench_batch\<lparr>b_pending := True, b_first_label := False\<rparr>)\<rparr>"

theorem job_end_certain_witness:
  "\<exists>s''. r_endjob bench held_job_sys = Some (True, s'') \<and> batch s'' = None \<and> pt_run_get s'' = PT_RUN_CLOSED
     \<and> confirmed_release bench [] (trace s'') [pt_cmd_setadvanced 8, pt_cmd_eject]"
proof -
  let ?b = "bench_batch\<lparr>b_pending := True, b_first_label := False\<rparr>"
  have h: "batch held_job_sys = Some ?b" "conn held_job_sys = Some (Usb_Conn bench_conn)" "job_ok held_job_sys" "trace held_job_sys = []"
    by (simp_all add: held_job_sys_def bench_sys_def job_ok_def has_state_def batch_ok_def pt_run_get_def idle_state_def bench_batch_def)
  let ?s = "note_event (Ev_Job_State 5) (note_event (Ev_Job_Canceled False) held_job_sys)"
  obtain s1 where p: "pt_print_pending bench True ?s = Some (True, s1)"
    using bench_print_pending [of ?s bench_conn] h by (auto simp: bench_batch_def)
  then have r: "r_endjob bench held_job_sys = Some (True, s1\<lparr>batch := None\<rparr>)"
    using h(1) by (simp add: r_endjob_def papplJobIsCanceled_def papplJobGetState_def answer_def bench_batch_def
        IPP_JSTATE_CANCELED_def Let_def)
  have "released True True ?s s1"
    using ensuresD [OF print_pending_released p] h(1) by (simp add: bench_batch_def pt_cut_policy_for_def)
  then have "pt_run_get (s1\<lparr>batch := None\<rparr>) = PT_RUN_CLOSED" "outputs (trace s1) \<noteq> []"
    using h(3) by (auto simp: released_def pt_run_get_def [of "_\<lparr>batch := _\<rparr>"] run_get_set sends_sys job_ok_def release_cmds_def
        simp flip: pt_run_get_def)
  then show ?thesis
    using job_end_certain [OF _ h(3,1) r] r h(4) by (auto simp: bench_batch_def pt_cut_policy_for_def release_cmds_def)
qed

text \<open>C9. Unconfirmed output is always marked: after any history of jobs, status polls and cut requests, in every
  state of a job (whatever callbacks have come, in any order, and whatever of them failed) the run is
  marked uncertain as soon as anything was sent since the job came, be it a part of the first label; as
  long as nothing was sent, the run is what it was, or closed by an observation, or marked already. It is
  marked in particular while a label is held, and a P710BT page being received
  always has its buffer. So nothing else can mistake a half-sent label for a healthy run.\<close>

theorem unconfirmed_output_marked:
  assumes "rtranclp (job_step E) s s0" "job_ok s" "batch s0 = None" "r_startjob E s0 = Some (True, s1)"
    and "rtranclp (during_job E) s1 s'" "batch s' = Some b"
  shows "(if outputs (trace s') = outputs (trace s0) then pt_run_get s' \<in> {pt_run_get s0, PT_RUN_CLOSED, PT_RUN_UNCERTAIN}
      else pt_run_get s' = PT_RUN_UNCERTAIN)
    \<and> (if \<not> b_first_label b \<or> b_pending b then pt_run_get s' = PT_RUN_UNCERTAIN else True)
    \<and> (if b_page_active b \<and> is_710 s' then b_page b \<noteq> None else True)"
proof -
  have ok: "job_ok s1"
    using step_job_ok [OF start_job [OF assms(3,4)] reachable_job_ok [OF assms(1,2)]] .
  have j: "outputs (trace s1) = outputs (trace s0)" "run_observed (pt_run_get s0) (pt_run_get s1)"
    using startjob_result [OF assms(4)] by auto
  have "job_ok s'" by (rule during_job_ok [OF assms(5) ok])
  then show ?thesis
    using job_marked [OF assms(5) ok] assms(6) j
    by (auto simp: job_ok_def batch_ok_def less_eq_pt_run_def run_observed_def split: if_splits)
qed

theorem unconfirmed_output_marked_witness:
  "\<exists>s1 s'. r_startjob bench bench_sys = Some (True, s1) \<and> rtranclp (during_job bench) s1 s'
     \<and> batch s' \<noteq> None \<and> outputs (trace s') \<noteq> [] \<and> pt_run_get s1 = PT_RUN_CLOSED \<and> pt_run_get s' = PT_RUN_UNCERTAIN"
proof -
  obtain s2 where "run_job bench blank_job bench_sys = Some (True, s2)" using bench_job_runs by (auto simp: blank_job_def)
  then obtain s1 s' where r: "r_startjob bench bench_sys = Some (True, s1)"
      "run_page bench (bench_page, replicate 35 (replicate 11 0)) s1 = Some (True, s')"
    by (auto simp: run_job_def blank_job_def split: Option.bind_splits if_splits)
  have b: "batch bench_sys = None" "job_ok bench_sys" by (simp_all add: bench_sys_def job_ok_def has_state_def)
  obtain b1 where j: "batch s1 = Some b1" "model_of s1 = Some pt_p710bt" "outputs (trace s1) = []" "pt_run_get s1 = PT_RUN_CLOSED"
    using startjob_result [OF r(1)] by (auto simp: bench_sys_facts run_observed_def)
  have "length (snd (bench_page, replicate 35 (replicate 11 (0 :: u8)))) = unat (cups_height (fst (bench_page, replicate 35 (replicate 11 (0 :: u8)))))"
    by (simp add: bench_page_def)
  then obtain b' where p: "batch s' = Some b'" "outputs (trace s') \<noteq> []"
    using run_page_710 [OF r(2) j(1,2)] j(3) by (auto simp: page_done_def label_program_def)
  have "pt_run_get s' = PT_RUN_UNCERTAIN"
    using unconfirmed_output_marked [OF _ b(2,1) r(1) run_page_during [OF r(2)] p(1)] p(2) by (simp add: bench_sys_facts)
  then show ?thesis using r run_page_during [OF r(2)] p j(4) by blast
qed

end
