(* ===== verification/Wire_Format.thy ===== *)
theory Wire_Format
  imports Plain_Program
begin

unbundle bit_operations_syntax

text \<open>
  The type of what goes over the wire. In every reachable state, after any sequence of callbacks, failed
  writes, cancellations, status polls and cut requests, each buffer given to the device is a sequence
  of whole commands in the line format of the printer's model. So the byte stream never leaves the
  command grammar.
\<close>

section \<open>Typed buffers\<close>

definition commands_ok :: "pt_dev \<Rightarrow> u8 list \<Rightarrow> bool" where
  \<comment> \<open>whole commands the model understands\<close>
  "commands_ok model buf \<longleftrightarrow> (\<exists>cs. list_all (cmd_ok (packbits model)) cs \<and> buf = concat (map (encode_cmd (packbits model)) cs))"

lemma commands_okI: "cmd_ok (packbits model) c \<Longrightarrow> commands_ok model (encode_cmd (packbits model) c)"
  by (auto simp: commands_ok_def intro!: exI [of _ "[c]"])

lemma commands_ok_simps [simp]:
  "commands_ok model pt_cmd_invalidate" "commands_ok model pt_cmd_init" "commands_ok model (pt_cmd_rasterstart f)"
  "commands_ok model pt_cmd_ff" "commands_ok model pt_cmd_eject" "commands_ok model (pt_cmd_printinfo mm)"
  "commands_ok model (pt_cmd_printinfo_extended mm r pg)" "commands_ok model (pt_cmd_compression m)"
  "commands_ok model (pt_cmd_auto_status e)" "commands_ok model (pt_cmd_setmode b)"
  "commands_ok model (pt_cmd_setadvanced b)" "commands_ok model (pt_cmd_margin d)"
proof -
  have "pt_cmd_rasterstart f = encode_cmd (packbits model) (Raster_Start (f AND FLAG_P700_INIT \<noteq> 0))"
    by (simp add: pt_cmd_rasterstart_def flag_defs)
  then show "commands_ok model (pt_cmd_rasterstart f)" by (metis commands_okI cmd_ok.simps(4))
qed (use commands_okI [of model Invalidate] commands_okI [of model Init] commands_okI [of model Form_Feed]
  commands_okI [of model Eject] commands_okI [of model "Print_Info mm"] commands_okI [of model "Print_Info_Ext mm r pg"]
  commands_okI [of model "Compression m"] commands_okI [of model "Auto_Status e"] commands_okI [of model "Set_Mode b"]
  commands_okI [of model "Set_Advanced b"] commands_okI [of model "Margin d"] in simp_all)

lemma commands_ok_line [simp]: "length w = 16 \<Longrightarrow> commands_ok model (raster_line model w)"
  unfolding encode_plain by (rule commands_okI) simp

lemma commands_ok_setup [simp]:
  "list_all (commands_ok model) (setup_2730 m b c)" "list_all (commands_ok model) (setup_710 m b c r)"
  "list_all (commands_ok model) (release_cmds ct)"
  by (simp_all add: setup_2730_def setup_710_def release_cmds_def)

lemma commands_ok_blank [simp]: "packbits model \<Longrightarrow> commands_ok model (pt_cmd_blank_continuation mm)"
  unfolding commands_ok_def by (intro exI [of _ "blank_program mm"]) (simp add: blank_continuation_program, simp add: blank_program_def)

lemma commands_ok_concat: "list_all (commands_ok model) bufs \<Longrightarrow> commands_ok model (concat bufs)"
proof (induction bufs)
  case Nil
  then show ?case by (auto simp: commands_ok_def intro!: exI [of _ "[]"])
next
  case (Cons buf bufs)
  then obtain cs ds where "list_all (cmd_ok (packbits model)) cs" "buf = concat (map (encode_cmd (packbits model)) cs)"
    "list_all (cmd_ok (packbits model)) ds" "concat bufs = concat (map (encode_cmd (packbits model)) ds)"
    by (auto simp: commands_ok_def)
  then show ?case by (auto simp: commands_ok_def intro!: exI [of _ "cs @ ds"])
qed

lemma commands_ok_decode:
  assumes "commands_ok model buf"
  shows "\<exists>cs. decode_stream (parse_cmd (packbits model)) (length buf) buf = Some cs
    \<and> buf = concat (map (encode_cmd (packbits model)) cs)"
  using assms cmds.decode_concat [OF _ cmds.length_le_bytes] by (auto simp: commands_ok_def)

section \<open>The invariant\<close>

definition rows_sized :: "env \<Rightarrow> bool" where
  \<comment> \<open>malloc gives the staged page the size it asks for: 16 bytes a row\<close>
  "rows_sized E \<longleftrightarrow> (\<forall>h i. length (malloc_row E h i) = 16)"

definition page_typed :: "sys \<Rightarrow> bool" where
  "page_typed s \<longleftrightarrow> (\<forall>b p. batch s = Some b \<longrightarrow> b_page b = Some p \<longrightarrow> (\<forall>i. length (p i) = 16))"

definition wire_typed :: "pt_dev \<Rightarrow> sys \<Rightarrow> sys \<Rightarrow> bool" where
  \<comment> \<open>since the first state only whole commands were output, and what is staged can become one\<close>
  "wire_typed model s0 s \<longleftrightarrow> model_of s = Some model \<and> page_typed s
     \<and> (\<exists>bufs. outputs (trace s) = outputs (trace s0) @ bufs \<and> list_all (commands_ok model) bufs)"

lemma wire_typed_printer: "wire_typed model s0 s \<Longrightarrow> printer s = Some st \<Longrightarrow> ps_model st = model"
  by (simp add: wire_typed_def model_of_def)

lemma wire_typed_page: "wire_typed model s0 s \<Longrightarrow> batch s = Some b \<Longrightarrow> b_page b = Some p \<Longrightarrow> length (p i) = 16"
  by (simp add: wire_typed_def page_typed_def)

lemma wire_typed_note [simp]: "no_output e \<Longrightarrow> wire_typed model s0 (note_event e s) = wire_typed model s0 s"
  by (simp add: wire_typed_def page_typed_def no_output_def)

lemma wire_typed_sends:
  assumes "wire_typed model s0 s" "sends bufs s s'" "list_all (commands_ok model) bufs"
  shows "wire_typed model s0 s'"
proof -
  obtain old where "outputs (trace s) = outputs (trace s0) @ old" "list_all (commands_ok model) old"
    using assms(1) by (auto simp: wire_typed_def)
  then show ?thesis
    using assms by (auto simp: wire_typed_def page_typed_def sends_sys intro!: exI [of _ "old @ bufs"])
qed

lemma wire_typed_take:
  "wire_typed model s0 s \<Longrightarrow> sends (take k bufs) s s' \<Longrightarrow> list_all (commands_ok model) bufs \<Longrightarrow> wire_typed model s0 s'"
  by (erule wire_typed_sends, assumption) (auto simp: list_all_iff dest: in_set_takeD)

lemma wire_typed_observes: "observes s s' \<Longrightarrow> wire_typed model s0 s \<Longrightarrow> wire_typed model s0 s'"
  by (auto simp: wire_typed_def page_typed_def observes_def)

lemma wire_typed_run [simp]: "wire_typed model s0 (pt_run_set r s) = wire_typed model s0 s"
  by (simp add: wire_typed_def page_typed_def)

lemma wire_typed_upd:
  "wire_typed model s0 s \<Longrightarrow> (\<And>b p. batch s = Some b \<Longrightarrow> b_page (f b) = Some p \<Longrightarrow> \<forall>i. length (p i) = 16)
    \<Longrightarrow> wire_typed model s0 (upd_batch f s)"
  by (cases "batch s") (auto simp: wire_typed_def page_typed_def)

lemma wire_typed_upd_page [simp]:
  "(\<And>b. b_page (f b) = b_page b) \<Longrightarrow> wire_typed model s0 s \<Longrightarrow> wire_typed model s0 (upd_batch f s)"
  by (rule wire_typed_upd) (auto dest: wire_typed_page)

lemma wire_typed_fail [simp]: "wire_typed model s0 s \<Longrightarrow> wire_typed model s0 (pt_fail_job s)"
  by (simp add: pt_fail_job_def)

lemma wire_typed_batch [simp]:
  "wire_typed model s0 s \<Longrightarrow> wire_typed model s0 (s\<lparr>batch := None\<rparr>)"
  "wire_typed model s0 s \<Longrightarrow> b_page b = None \<Longrightarrow> wire_typed model s0 (s\<lparr>batch := Some b\<rparr>)"
  by (auto simp: wire_typed_def page_typed_def model_of_def)

lemma wire_typed_released:
  assumes "wire_typed model s0 s" "released ct ok s s'"
  shows "wire_typed model s0 s'"
proof (cases ok)
  case True
  then obtain s1 where s1: "sends (release_cmds ct) s s1"
    "s' = pt_run_set (if ct then PT_RUN_CLOSED else PT_RUN_OPEN) (upd_batch (\<lambda>b. b\<lparr>b_pending := False\<rparr>) s1)"
    using assms(2) by (auto simp: released_def)
  from wire_typed_sends [OF assms(1) s1(1)] show ?thesis by (simp add: s1(2))
next
  case False
  then show ?thesis using assms wire_typed_take by (fastforce simp: released_def)
qed

section \<open>Every step keeps it\<close>

text \<open>Facts for the automatic proofs below: how the external calls and the shared steps act on it.\<close>

lemma wire_typed_wait: "wire_typed model s0 s \<Longrightarrow> waited E mm s ok s' \<Longrightarrow> wire_typed model s0 s'"
  using wire_typed_observes [of "if ok then upd_batch (\<lambda>b. b\<lparr>b_tape_mm := word_of_int mm\<rparr>) s else s" s' model s0]
  by (cases ok) (simp_all add: waited_def)

lemma release_previous_typed:
  assumes "wire_typed model s0 s" "batch s = Some b"
  shows "ensures (release_previous E b s) (\<lambda>ok s'. wire_typed model s0 s')"
  by (rule release_previous_wp [OF assms(2)])
    (use assms(1) in \<open>auto simp: released_if_def dest: wire_typed_released split: if_splits\<close>)

lemma job_writes_typed:
  assumes "wire_typed model s0 s" "list_all (commands_ok model) bufs" "pt_cmd_status_request \<notin> set bufs"
  shows "ensures (job_writes E bufs s) (\<lambda>ok s'. wire_typed model s0 s')"
  by (rule job_writes_wp [OF assms(3)]) (rule wire_typed_take [OF assms(1) _ assms(2)])

lemma send_rows_typed:
  assumes "wire_typed model s0 s" "\<And>p i. page = Some p \<Longrightarrow> length (p i) = 16"
  shows "ensures (send_rows E model page ys s) (\<lambda>ok s'. wire_typed model s0 s')"
proof (cases page)
  case None
  then show ?thesis using assms(1) by (cases ys) simp_all
next
  case (Some p)
  have "list_all (commands_ok model) (map (\<lambda>y. raster_line model (the page y)) ys)"
    using assms(2) Some by (simp add: list_all_iff)
  then show ?thesis
    using wire_typed_take [OF assms(1)] by (auto intro!: send_rows_wp)
qed

lemma start_output_typed:
  assumes "wire_typed model s0 s"
  shows "ensures (start_output E m s) (\<lambda>ok s'. wire_typed model s0 s')"
  using assms
  by (auto simp: start_output_def ensures_state fail_def Let_def
      intro!: ensures_mono [OF release_previous_typed] ensures_mono [OF job_writes_typed])

lemma stage_page_typed:
  assumes "wire_typed model s0 s" "rows_sized E"
  shows "ensures (stage_page E s) (\<lambda>ok s'. wire_typed model s0 s')"
proof -
  have "wire_typed model s0 (upd_batch (\<lambda>b. b\<lparr>b_page := Some (case b_page b of None \<Rightarrow> malloc_row E h | Some p \<Rightarrow> p),
      b_page_active := True\<rparr>) s')" if "wire_typed model s0 s'" for s' h
    by (rule wire_typed_upd [OF that]) (use assms(2) wire_typed_page [OF that] in \<open>auto simp: rows_sized_def split: option.splits\<close>)
  note upd = this
  show ?thesis
    using assms(1) upd [of s "trace s"] upd [of "note_event (Ev_Alloc True) s" "trace s"]
    by (auto simp: stage_page_def ensures_state pappl_defs fail_def alloc_def answer_def Let_def split: option.splits)
qed

lemma send_page_typed:
  assumes "wire_typed model s0 s"
  shows "ensures (send_page E o1 model s) (\<lambda>ok s'. wire_typed model s0 s')"
  using assms
  by (auto simp: send_page_def ensures_state fail_def Let_def intro: wire_typed_page
      intro!: ensures_mono [OF release_previous_typed] ensures_mono [OF job_writes_typed] ensures_mono [OF send_rows_typed])

lemma startpage_typed:
  assumes "wire_typed model s0 s" "rows_sized E"
  shows "ensures (r_startpage E o1 s) (\<lambda>r s'. wire_typed model s0 s')"
proof -
  have beg: "ensures (begin_page E s') (\<lambda>ok s'. wire_typed model s0 s')" if "wire_typed model s0 s'" for s'
    using stage_page_typed [OF that assms(2)] start_output_typed [OF that] by (simp add: begin_page_def ensures_state)
  have wait: "ensures (pt_wait_for_tape E mm s') (\<lambda>ok s'. wire_typed model s0 s')" if "wire_typed model s0 s'" for s' mm
    by (rule ensures_mono [OF wait_for_tape_waited]) (rule wire_typed_wait [OF that])
  show ?thesis
    using assms(1)
    by (auto simp: r_startpage_def ensures_state pappl_defs split: option.split prod.split
        intro!: ensures_mono [OF wait] ensures_mono [OF beg])
qed

lemma writeline_typed:
  assumes "wire_typed model s0 s"
  shows "ensures (r_writeline E o1 y l s) (\<lambda>r s'. wire_typed model s0 s')"
proof -
  have row: "wire_typed model s0 (upd_batch (\<lambda>b. b\<lparr>b_page := Some (p(i := w))\<rparr>) s')"
    if "wire_typed model s0 s'" "batch s' = Some b" "b_page b = Some p" "length w = 16" for s' b p i w
    by (rule wire_typed_upd [OF that(1)]) (use that wire_typed_page [OF that(1-3)] in auto)
  have line: "ensures (pt_job_write E (raster_line (ps_model st) w) s') (\<lambda>ok s'. wire_typed model s0 s')"
    if "wire_typed model s0 s'" "printer s' = Some st" "length w = 16" for s' st w
    by (rule job_write_wp) (use that wire_typed_printer [OF that(1,2)] in \<open>auto intro: wire_typed_sends\<close>)
  show ?thesis
    using assms
    by (auto simp: r_writeline_def ensures_state pappl_defs fail_def Let_def pack_window_exact split: option.split
        intro!: row ensures_mono [OF line])
qed

lemma endpage_typed:
  assumes "wire_typed model s0 s"
  shows "ensures (r_endpage E o1 s) (\<lambda>r s'. wire_typed model s0 s')"
proof -
  have "ensures (send_page E o1 (ps_model st) s') (\<lambda>ok s'. wire_typed model s0 s')"
    if "wire_typed model s0 s'" "printer s' = Some st" for s' st
    using send_page_typed [OF that(1)] wire_typed_printer [OF that] by simp
  then show ?thesis
    using assms
    by (auto simp: r_endpage_def ensures_state pappl_defs fail_def split: option.split)
qed

lemma startjob_typed:
  assumes "wire_typed model s0 s"
  shows "ensures (r_startjob E s) (\<lambda>r s'. wire_typed model s0 s')"
proof -
  have ref: "ensures (pt_refresh_ready_media E s') (\<lambda>ok s'. wire_typed model s0 s')" if "wire_typed model s0 s'" for s'
    by (rule ensures_mono [OF refresh_observes]) (use wire_typed_observes [OF _ that] in blast)
  show ?thesis
    using assms
    by (auto simp: r_startjob_def recovery_required_result pappl_defs split: option.split
        intro!: ensures_mono [OF ref])
qed

lemma endjob_typed:
  assumes "wire_typed model s0 s"
  shows "ensures (r_endjob E s) (\<lambda>r s'. wire_typed model s0 s')"
proof -
  have pr: "ensures (pt_print_pending E True s') (\<lambda>ok s'. wire_typed model s0 s')"
    if "wire_typed model s0 s'" "batch s' = Some b" for s' b
    by (rule ensures_mono [OF print_pending_released [OF that(2)]]) (rule wire_typed_released [OF that(1)])
  show ?thesis
    using assms
    by (auto simp: r_endjob_def pappl_defs split: option.split intro!: ensures_mono [OF pr])
qed

lemma status_typed:
  assumes "wire_typed model s0 s"
  shows "ensures (status_cb E s) (\<lambda>r s'. wire_typed model s0 s')"
  by (rule ensures_mono [OF status_cb_frame])
    (use assms in \<open>auto simp: idle_frame_def wire_typed_def page_typed_def\<close>)

lemma cut_op_typed:
  assumes "wire_typed model s0 s" "dev_pid model = PT_P710BT_PID \<longrightarrow> packbits model"
  shows "ensures (pt_cut_op_cb E c s) (\<lambda>r s'. wire_typed model s0 s')"
proof -
  have conn: "wire_typed model s0 (s1\<lparr>conn := d\<rparr>) = wire_typed model s0 s1" for s1 d
    by (simp add: wire_typed_def page_typed_def)
  have rej: "wire_typed model s0 (reject_attrs (cl_attrs c) s)"
    by (rule wire_typed_observes [OF silent_observes [OF reject_silent] assms(1)])
  have blank: "wire_typed model s0 s'" if w: "wire_typed model s0 s1" "cut_result E s1 status message s'" "packbits model" for s1 s' status message
  proof -
    obtain old where old: "outputs (trace s1) = outputs (trace s0) @ old" "list_all (commands_ok model) old"
      using w(1) by (auto simp: wire_typed_def)
    then have "\<exists>bufs. outputs (trace s') = outputs (trace s0) @ bufs \<and> list_all (commands_ok model) bufs"
      using w(2,3) by (auto simp: cut_result_def observes_def cut_blank_def)
    then show ?thesis
      using w(1,2) by (auto simp: cut_result_def wire_typed_def page_typed_def)
  qed
  have cutting: "ensures (pt_cut E 160 s1) (\<lambda>r s'. wire_typed model s0 s')" if "wire_typed model s0 s1" "packbits model" for s1
    by (rule ensures_mono [OF cut_ensures]) (use blank [OF that(1) _ that(2)] in auto)
  have model: "ps_model st = model" if "printer s = Some st" for st by (rule wire_typed_printer [OF assms(1) that])
  show ?thesis
    using assms rej
    by (auto simp: pt_cut_op_cb_def Let_def respond_def papplPrinterCloseDevice_def conn answer_def dest: model
        split: option.split intro!: ensures_mono [OF cutting])
qed

lemma step_typed:
  assumes "job_step E s s'" "wire_typed model s0 s" "rows_sized E" "dev_pid model = PT_P710BT_PID \<longrightarrow> packbits model"
  shows "wire_typed model s0 s'"
  using assms(1)
proof cases
  case (start_job ok)
  then show ?thesis using ensuresD [OF startjob_typed [OF assms(2)]] by blast
next
  case (start_page o1 r)
  then show ?thesis using ensuresD [OF startpage_typed [OF assms(2,3)]] by blast
next
  case (write_line o1 y l ok)
  then show ?thesis using ensuresD [OF writeline_typed [OF assms(2)]] by blast
next
  case (end_page o1 ok)
  then show ?thesis using ensuresD [OF endpage_typed [OF assms(2)]] by blast
next
  case (end_job ok)
  then show ?thesis using ensuresD [OF endjob_typed [OF assms(2)]] by blast
next
  case (idle_status ok)
  then show ?thesis using ensuresD [OF status_typed [OF assms(2)]] by blast
next
  case (cut_request c handled)
  then show ?thesis using ensuresD [OF cut_op_typed [OF assms(2,4)]] by blast
qed

lemma reachable_typed:
  assumes "rtranclp (job_step E) s s'" "wire_typed model s0 s" "rows_sized E" "dev_pid model = PT_P710BT_PID \<longrightarrow> packbits model"
  shows "wire_typed model s0 s'"
  using assms(1,2) by (induction rule: rtranclp_induct) (auto intro: step_typed [OF _ _ assms(3,4)])

lemma supported_packbits: "model \<in> set g_devs \<Longrightarrow> dev_pid model = PT_P710BT_PID \<longrightarrow> packbits model"
  by (auto simp: g_devs_def packbits_def flag_defs PT_P710BT_PID_def)

section \<open>A whole job as steps\<close>

lemma feed_lines_steps: "feed_lines E o1 y ls s = Some (ok, s') \<Longrightarrow> rtranclp (job_step E) s s'"
proof (induction ls arbitrary: y s)
  case (Cons l ls)
  obtain ok1 s1 where l: "r_writeline E o1 (word_of_nat y) l s = Some (ok1, s1)"
    "if ok1 then feed_lines E o1 (Suc y) ls s1 = Some (ok, s') else s' = s1"
    using Cons.prems by (auto split: Option.bind_splits if_splits)
  from l(1) have "job_step E s s1" by (rule write_line)
  then show ?case using l(2) Cons.IH [of "Suc y" s1] by (cases ok1) (auto intro: converse_rtranclp_into_rtranclp)
qed simp

lemma run_page_steps:
  assumes "run_page E pg s = Some (ok, s')"
  shows "rtranclp (job_step E) s s'"
proof -
  obtain ok1 o2 s1 where p: "r_startpage E (fst pg) s = Some ((ok1, o2), s1)"
    using assms by (auto simp: run_page_def split: Option.bind_splits)
  then have step: "rtranclp (job_step E) s s1" by (intro r_into_rtranclp start_page)
  show ?thesis
  proof (cases ok1)
    case True
    then obtain ok2 s2 where f: "feed_lines E o2 0 (snd pg) s1 = Some (ok2, s2)"
      "if ok2 then r_endpage E o2 s2 = Some (ok, s') else s' = s2"
      using assms p by (auto simp: run_page_def split: Option.bind_splits if_splits)
    have "rtranclp (job_step E) s2 s'" using f(2) by (cases ok2) (auto intro: end_page)
    then show ?thesis using step feed_lines_steps [OF f(1)] by simp
  next
    case False
    then show ?thesis using assms p step by (simp add: run_page_def)
  qed
qed

lemma run_pages_steps: "run_pages E pgs s = Some (ok, s') \<Longrightarrow> rtranclp (job_step E) s s'"
proof (induction pgs arbitrary: s)
  case (Cons pg pgs)
  obtain ok1 s1 where p: "run_page E pg s = Some (ok1, s1)"
    "if ok1 then run_pages E pgs s1 = Some (ok, s') else s' = s1"
    using Cons.prems by (auto split: Option.bind_splits if_splits)
  show ?case using run_page_steps [OF p(1)] p(2) Cons.IH [of s1] by (cases ok1) auto
qed simp

lemma run_job_steps:
  assumes "run_job E pgs s = Some (ok, s')" "batch s = None"
  shows "rtranclp (job_step E) s s'"
proof -
  obtain ok1 s1 where j: "r_startjob E s = Some (ok1, s1)" using assms(1) by (auto simp: run_job_def split: Option.bind_splits)
  then have step: "rtranclp (job_step E) s s1" by (intro r_into_rtranclp start_job [OF assms(2)])
  show ?thesis
  proof (cases ok1)
    case True
    then obtain ok2 s2 ok3 s3 where r: "run_pages E pgs s1 = Some (ok2, s2)" "r_endjob E s2 = Some (ok3, s3)" "s' = s3"
      using assms(1) j by (auto simp: run_job_def split: Option.bind_splits if_splits)
    from r(2) have "job_step E s2 s'" unfolding r(3) by (rule end_job)
    then show ?thesis using step run_pages_steps [OF r(1)] by (meson rtranclp.rtrancl_into_rtrancl rtranclp_trans)
  next
    case False
    then show ?thesis using assms(1) j step by (simp add: run_job_def)
  qed
qed

section \<open>Properties\<close>

text \<open>C5. The wire is well typed: whatever sequence of callbacks, lines, failed writes, cancellations,
  status polls and cut requests a printer of the device table goes through from a state without a job,
  every buffer handed to the device consists of whole commands in that model's line format with the length
  bytes right, the page staged for a P710BT has 16 bytes in every row, and the bytes sent so far decode
  to a command sequence with nothing left over.\<close>

theorem wire_well_typed:
  assumes "rtranclp (job_step E) s s'" "batch s = None" "model_of s = Some model" "model \<in> set g_devs" "rows_sized E"
  shows "page_typed s' \<and> (\<exists>bufs cs. outputs (trace s') = outputs (trace s) @ bufs \<and> list_all (commands_ok model) bufs
    \<and> decode_stream (parse_cmd (packbits model)) (length (concat bufs)) (concat bufs) = Some cs
    \<and> concat bufs = concat (map (encode_cmd (packbits model)) cs))"
proof -
  have "wire_typed model s s" using assms(2,3) by (simp add: wire_typed_def page_typed_def)
  from reachable_typed [OF assms(1) this assms(5) supported_packbits [OF assms(4)]]
  obtain bufs where "page_typed s'" "outputs (trace s') = outputs (trace s) @ bufs" "list_all (commands_ok model) bufs"
    by (auto simp: wire_typed_def)
  then show ?thesis using commands_ok_decode [OF commands_ok_concat, of model bufs] by blast
qed

theorem wire_well_typed_witness:
  "\<exists>s' cs. run_job bench [(bench_page, replicate 35 (replicate 11 0))] bench_sys = Some (True, s') \<and> cs \<noteq> []
     \<and> decode_stream (parse_cmd True) (length (concat (outputs (trace s')))) (concat (outputs (trace s'))) = Some cs"
proof -
  obtain s' where r: "run_job bench [(bench_page, replicate 35 (replicate 11 0))] bench_sys = Some (True, s')"
    using bench_job_runs by blast
  obtain cont policy mm rows where "outputs (trace s') = map (encode_cmd True) (job_program cont policy mm [rows])"
    by (rule job_run [OF r bench_sys_facts(4)])
      (auto simp: whole_pages_def bench_page_def bench_sys_facts IPP_JSTATE_CANCELED_def intro: that)
  then have ne: "concat (outputs (trace s')) \<noteq> []"
    by (auto simp: job_program_def run_program_def label_program_def)
  have b: "batch bench_sys = None" by (simp add: bench_sys_def)
  have m: "pt_p710bt \<in> set g_devs" "packbits pt_p710bt" by (simp_all add: g_devs_def pt_p710bt_def packbits_def flag_defs)
  have z: "rows_sized bench" by (simp add: rows_sized_def)
  obtain cs where "decode_stream (parse_cmd True) (length (concat (outputs (trace s')))) (concat (outputs (trace s'))) = Some cs"
    "concat (outputs (trace s')) = concat (map (encode_cmd True) cs)"
    using wire_well_typed [OF run_job_steps [OF r b] b bench_sys_facts(4) m(1) z] m(2) by (auto simp: bench_sys_facts)
  then show ?thesis using r ne by (intro exI [of _ s'] exI [of _ cs]) auto
qed

end
