(* ===== verification/Driver_Setup.thy ===== *)
theory Driver_Setup
  imports Cut_Operation Png_Filter
begin

unbundle bit_operations_syntax

text \<open>
  \<^verbatim>\<open>src/driver.c\<close>, what the driver tells PAPPL when a printer is created: \<^verbatim>\<open>pt_driver_cb\<close> with the
  identity checks and the driver data, and the IPP attributes for finishings and media. An \<^verbatim>\<open>ipp_t\<close>
  under construction is the list of the attributes added to it.
\<close>

section \<open>IPP attributes\<close>

datatype ipp_value =
    Ipp_Ints ipp_tag "int list"
  | Ipp_Strings "string list"
  | Ipp_Range int int
  | Ipp_Cols "(string \<times> ipp_value) list list"

type_synonym ipp = "(string \<times> ipp_value) list"

definition pt_finishing_attrs :: "ipp \<Rightarrow> ipp" where
  "pt_finishing_attrs attrs =
    (let values = map fin_value (filter (\<lambda>f. fin_value f \<noteq> 0) pt_finishings);
         templates = map (the \<circ> fin_name) (filter (\<lambda>f. fin_name f \<noteq> None) pt_finishings);
         collections = map (\<lambda>t. [(''finishing-template'', Ipp_Strings [t])]) templates
     in attrs @
       [(''finishings-supported'', Ipp_Ints IPP_TAG_ENUM values),
        (''finishings-ready'', Ipp_Ints IPP_TAG_ENUM values),
        (''finishings-default'', Ipp_Ints IPP_TAG_ENUM [fin_value (pt_finishings ! 1)]),
        (''finishings-col-supported'', Ipp_Strings [''finishing-template'']),
        (''finishing-template-supported'', Ipp_Strings templates),
        (''finishings-col-database'', Ipp_Cols collections),
        (''finishings-col-ready'', Ipp_Cols collections),
        (''finishings-col-default'', Ipp_Cols [collections ! 0])])"

definition pt_preset_mm :: "int list" where
  "pt_preset_mm = [25, 50, 100]"

definition zero_media :: media_col where
  "zero_media = \<lparr>size_width = 0, size_length = 0, left_margin = 0, right_margin = 0, top_margin = 0, bottom_margin = 0,
     size_name = [], media_source = [], media_type = [], tracking_continuous = False\<rparr>"

definition media_out :: "env \<Rightarrow> int \<Rightarrow> int \<Rightarrow> int \<Rightarrow> media_col" where
  \<comment> \<open>the structure after \<^verbatim>\<open>media_col_for\<close>, whose result is ignored\<close>
  "media_out E mm len dpi = (case media_col_for E mm len dpi of None \<Rightarrow> zero_media | Some m \<Rightarrow> m)"

definition roll_size :: "int \<Rightarrow> ipp" where
  "roll_size mm = [(''x-dimension'', Ipp_Range (mm * 100 - 1) (mm * 100 + 1)),
     (''y-dimension'', Ipp_Range PT_ROLL_MIN_CENTIMM PT_ROLL_MAX_CENTIMM)]"

definition media_entry :: "env \<Rightarrow> int \<Rightarrow> nat \<Rightarrow> ipp" where
  \<comment> \<open>the collection of the loop over \<open>k\<close>: the presets, then the roll\<close>
  "media_entry E mm k =
    (let preset = k < length pt_preset_mm;
         media = media_out E mm (if preset then pt_preset_mm ! k * 100 else PT_ROLL_MIN_CENTIMM) 180;
         size = (if preset then [(''x-dimension'', Ipp_Ints IPP_TAG_INTEGER [size_width media]),
                                 (''y-dimension'', Ipp_Ints IPP_TAG_INTEGER [size_length media])]
                 else roll_size mm)
     in (if preset then [(''media-size-name'', Ipp_Strings [size_name media])] else [])
        @ [(''media-size'', Ipp_Cols [size]),
           (''media-left-margin'', Ipp_Ints IPP_TAG_INTEGER [left_margin media]),
           (''media-right-margin'', Ipp_Ints IPP_TAG_INTEGER [right_margin media]),
           (''media-top-margin'', Ipp_Ints IPP_TAG_INTEGER [0]),
           (''media-bottom-margin'', Ipp_Ints IPP_TAG_INTEGER [0]),
           (''media-source'', Ipp_Strings [media_source media]),
           (''media-type'', Ipp_Strings [media_type media])])"

fun sift_down :: "int list \<Rightarrow> nat \<Rightarrow> int \<Rightarrow> int list" where
  \<comment> \<open>the inner loop of the insertion sort, and the store after it\<close>
  "sift_down xs 0 v = xs[0 := v]"
| "sift_down xs (Suc j) v = (if xs ! j > v then sift_down (xs[Suc j := xs ! j]) j v else xs[Suc j := v])"

definition sort_margins :: "int list \<Rightarrow> int list" where
  "sort_margins xs = fold (\<lambda>i xs. sift_down xs i (xs ! i)) [1..<length xs] xs"

fun drop_repeats :: "int list \<Rightarrow> nat \<Rightarrow> nat list \<Rightarrow> int list \<times> nat" where
  "drop_repeats xs n [] = (xs, n)"
| "drop_repeats xs n (i # is) =
    (if n = 0 \<or> xs ! i \<noteq> xs ! (n - 1) then drop_repeats (xs[n := xs ! i]) (Suc n) is else drop_repeats xs n is)"

definition published_margins :: "int list \<Rightarrow> int list" where
  \<comment> \<open>the first \<open>n\<close> elements of the array after both loops\<close>
  "published_margins xs = (let ys = sort_margins xs; (zs, n) = drop_repeats ys 0 [0..<length ys] in take n zs)"

definition pt_media_attrs :: "env \<Rightarrow> ipp \<Rightarrow> ipp" where
  "pt_media_attrs E attrs =
    (let widths = filter (\<lambda>mm. pt_tape_geometry mm \<noteq> None) pt_tape_mm;
         left = map (\<lambda>mm. left_margin_centimm (the (pt_tape_geometry mm))) widths;
         right = map (\<lambda>mm. right_margin_centimm (the (pt_tape_geometry mm))) widths
     in attrs @
       [(''media-col-database'', Ipp_Cols (concat (map (\<lambda>mm. map (media_entry E mm) [0..<Suc (length pt_preset_mm)]) widths))),
        (''media-size-supported'', Ipp_Cols (map roll_size widths)),
        (''media-left-margin-supported'', Ipp_Ints IPP_TAG_INTEGER (published_margins left)),
        (''media-right-margin-supported'', Ipp_Ints IPP_TAG_INTEGER (published_margins right))])"

section \<open>The identity\<close>

fun strstr :: "string \<Rightarrow> string \<Rightarrow> string option" where
  \<comment> \<open>from the first occurrence of the pattern on\<close>
  "strstr [] p = (if p = [] then Some [] else None)"
| "strstr (c # s) p = (if prefix_of p (c # s) then Some (c # s) else strstr s p)"

definition parse_mdl :: "string option \<Rightarrow> nat \<Rightarrow> string" where
  "parse_mdl device_id n =
    (case Option.bind device_id (\<lambda>d. strstr d ''MDL:'') of
       None \<Rightarrow> []
     | Some p \<Rightarrow> take (n - 1) (takeWhile (\<lambda>c. c \<noteq> CHR '';'') (drop 4 p)))"

section \<open>The driver data\<close>

datatype color_mode = COLOR_BI_LEVEL | COLOR_MONOCHROME
datatype raster_type = RASTER_BLACK_1 | RASTER_BLACK_8
datatype label_kind = KIND_LABEL
datatype finishing_bit = FINISHING_TRIM

record driver_data =
  \<comment> \<open>the members of \<^verbatim>\<open>pappl_pr_driver_data_t\<close> the driver sets, \<^verbatim>\<open>extension\<close> apart\<close>
  dd_startjob :: "env \<Rightarrow> sys \<Rightarrow> (bool \<times> sys) option"
  dd_startpage :: "env \<Rightarrow> pt_options \<Rightarrow> sys \<Rightarrow> ((bool \<times> pt_options) \<times> sys) option"
  dd_writeline :: "env \<Rightarrow> pt_options \<Rightarrow> u32 \<Rightarrow> u8 list \<Rightarrow> sys \<Rightarrow> (bool \<times> sys) option"
  dd_endpage :: "env \<Rightarrow> pt_options \<Rightarrow> sys \<Rightarrow> (bool \<times> sys) option"
  dd_endjob :: "env \<Rightarrow> sys \<Rightarrow> (bool \<times> sys) option"
  dd_status :: "env \<Rightarrow> sys \<Rightarrow> (bool \<times> sys) option"
  dd_delete :: "sys \<Rightarrow> sys"
  dd_printfile :: "env \<Rightarrow> png_env \<Rightarrow> sys \<Rightarrow> (bool \<times> sys) option"
  dd_format :: string
  dd_make_and_model :: string
  dd_ppm :: int
  dd_kind :: label_kind
  dd_scaling_default :: int
  dd_color_supported :: "color_mode set"
  dd_color_default :: color_mode
  dd_raster_types :: "raster_type set"
  dd_force_raster_type :: raster_type
  dd_finishings :: "finishing_bit set"
  dd_resolutions :: "(int \<times> int) list"
  dd_x_default :: int
  dd_y_default :: int
  dd_left_right :: int
  dd_bottom_top :: int
  dd_sources :: "string list"
  dd_types :: "string list"
  dd_media :: "string list"
  dd_media_default :: media_col
  dd_media_ready :: media_col

definition PT_MAX_MEDIA_NAMES :: nat where "PT_MAX_MEDIA_NAMES = 64"

record setup_env =
  idle_setting :: "string option" \<comment> \<open>getenv(PTOUCH\_IDLE\_POLL\_SECONDS)\<close>
  mutex_inits :: bool \<comment> \<open>pthread\_mutex\_init succeeds\<close>
  make_model_size :: nat \<comment> \<open>the size of \<open>make_and_model\<close>\<close>
  pappl_max_media :: nat \<comment> \<open>PAPPL\_MAX\_MEDIA, the length of \<open>media\<close>\<close>

fun add_names :: "nat \<Rightarrow> string list \<Rightarrow> string list \<Rightarrow> string list option" where
  \<comment> \<open>stores into \<open>g_media_names[n]\<close> and \<open>data->media[n]\<close>; past an array is undefined\<close>
  "add_names limit names [] = Some names"
| "add_names limit names (nm # nms) =
    (if length names < PT_MAX_MEDIA_NAMES \<and> length names < limit then add_names limit (names @ [nm]) nms else None)"

fun width_loop ::
  "env \<Rightarrow> nat \<Rightarrow> int \<Rightarrow> int list \<Rightarrow> string list \<times> int \<times> int \<Rightarrow> (string list \<times> int \<times> int) option" where
  \<comment> \<open>the loop over the tape widths: the names so far and the narrowest and widest width\<close>
  "width_loop E limit max_px [] acc = Some acc"
| "width_loop E limit max_px (mm # mms) (names, min_w, max_w) =
    (let px = pt_tape_px mm in
     if px \<le> 0 \<or> max_px < px then width_loop E limit max_px mms (names, min_w, max_w)
     else if PT_MAX_MEDIA_NAMES < length names + length pt_preset_mm + 2 \<or> limit < length names + length pt_preset_mm + 2
     then Some (names, min_w, max_w)
     else do {
       let w = mm * 100;
       names \<leftarrow> add_names limit names (map (\<lambda>l. format_size_name E None None w (l * 100)) pt_preset_mm);
       width_loop E limit max_px mms (names, if min_w = 0 \<or> w < min_w then w else min_w, if max_w < w then w else max_w)
     })"

definition media_names :: "env \<Rightarrow> nat \<Rightarrow> int \<Rightarrow> string list option" where
  "media_names E limit max_px = do {
     (names, min_w, max_w) \<leftarrow> width_loop E limit max_px pt_tape_mm ([], 0, 0);
     if 0 < max_w \<and> length names + 2 \<le> PT_MAX_MEDIA_NAMES
     then add_names limit names
       [format_size_name E (Some ''roll'') (Some ''min'') min_w PT_ROLL_MIN_CENTIMM,
        format_size_name E (Some ''roll'') (Some ''max'') max_w PT_ROLL_MAX_CENTIMM]
     else Some names
   }"

definition driver_model :: "string option \<Rightarrow> string option \<Rightarrow> pt_dev option" where
  \<comment> \<open>the identity checks at the start of \<^verbatim>\<open>pt_driver_cb\<close>\<close>
  "driver_model uri device_id =
    (let model = parse_mdl device_id 64 in
     case (if model \<noteq> [] then pt_usb_supported_model (Some model) else None) of
       None \<Rightarrow> None
     | Some dev \<Rightarrow>
         (case uri of
            None \<Rightarrow> Some dev
          | Some u \<Rightarrow>
              if prefix_of ''ptouch://'' u \<and> pt_usb_model_from_uri uri \<noteq> Some dev then None
              else if prefix_of ''ptouch-bt://'' u \<and> (\<not> pt_bt_is_uri uri \<or> dev_pid dev \<noteq> 0x20af) then None
              else Some dev))"

definition fresh_state :: "pt_dev \<Rightarrow> int \<Rightarrow> pt_printer_state" where
  \<comment> \<open>\<^verbatim>\<open>calloc\<close> and the two assignments after it\<close>
  "fresh_state dev seconds = \<lparr>ps_model = dev, ps_run = PT_RUN_CLOSED, ps_media_confirmed = False,
     ps_idle_poll_seconds = seconds, ps_idle_polled = False, ps_last_idle_poll = \<lparr>tv_sec = 0, tv_nsec = 0\<rparr>\<rparr>"

definition fill_data :: "env \<Rightarrow> setup_env \<Rightarrow> pt_dev \<Rightarrow> string list \<Rightarrow> driver_data" where
  \<comment> \<open>the assignments to \<^verbatim>\<open>*data\<close>\<close>
  "fill_data E C dev names =
    \<lparr>dd_startjob = r_startjob, dd_startpage = r_startpage, dd_writeline = r_writeline, dd_endpage = r_endpage,
     dd_endjob = r_endjob, dd_status = status_cb, dd_delete = pt_delete_cb, dd_printfile = pt_png_printfile,
     dd_format = ''image/png'',
     dd_make_and_model = take (make_model_size C - 1) (snprintf 80 (''Brother '' @ dev_name dev)),
     dd_ppm = 20, dd_kind = KIND_LABEL, dd_scaling_default = PAPPL_SCALING_NONE,
     dd_color_supported = {COLOR_BI_LEVEL, COLOR_MONOCHROME}, dd_color_default = COLOR_BI_LEVEL,
     dd_raster_types = {RASTER_BLACK_1, RASTER_BLACK_8}, dd_force_raster_type = RASTER_BLACK_1,
     dd_finishings = {FINISHING_TRIM}, dd_resolutions = [(dev_dpi dev, dev_dpi dev)],
     dd_x_default = dev_dpi dev, dd_y_default = dev_dpi dev, dd_left_right = 53, dd_bottom_top = 0,
     dd_sources = [''main-roll''], dd_types = [''labels''], dd_media = names,
     dd_media_default = media_out E 12 10000 (dev_dpi dev), dd_media_ready = media_out E 12 10000 (dev_dpi dev)\<rparr>"

definition pt_driver_cb ::
  "env \<Rightarrow> setup_env \<Rightarrow> string option \<Rightarrow> string option \<Rightarrow> ipp option \<Rightarrow> sys
   \<Rightarrow> ((driver_data \<times> ipp) option \<times> sys) option" where
  \<comment> \<open>the inner \<open>None\<close> is the return value false\<close>
  "pt_driver_cb E C uri device_id attrs s = (case driver_model uri device_id of
     None \<Rightarrow> Some (None, s)
   | Some dev \<Rightarrow>
       (case pt_parse_idle_poll (idle_setting C) of
          None \<Rightarrow> Some (None, s)
        | Some seconds \<Rightarrow> do {
            (ok, s) \<leftarrow> alloc E s;
            if \<not> ok \<or> \<not> mutex_inits C then Some (None, s)
            else do {
              let s = s\<lparr>printer := Some (fresh_state dev seconds)\<rparr>;
              names \<leftarrow> media_names E (pappl_max_media C) (dev_max_px dev);
              let attrs = pt_finishing_attrs (case attrs of None \<Rightarrow> [] | Some a \<Rightarrow> a);
              let attrs = (if dev_pid dev = 0x20af
                then attrs @ [(''operations-supported'', Ipp_Ints IPP_TAG_ENUM [PT_OP_CUT])] else attrs);
              Some (Some (fill_data E C dev names, pt_media_attrs E attrs), s)
            }
          }))"

end
