(* ===== verification/Setup_Facts.thy ===== *)
theory Setup_Facts
  imports Driver_Setup "HOL-Library.Multiset"
begin

text \<open>
  What \<^verbatim>\<open>pt_driver_cb\<close> and its helpers promise: the insertion sort and the removal of
  repeats publish exactly the margins of the supported tapes, the name arrays are never overrun, the
  identity checks bind the IEEE 1284 device ID to the URI, and what is published about finishings and
  media is what a job may ask for.
\<close>

section \<open>The published margins are sorted and unique\<close>

lemma insort_snoc: "(v :: int) \<le> m \<Longrightarrow> v \<noteq> m \<Longrightarrow> insort v (ys @ [m]) = insort v ys @ [m]"
  by (induction ys) auto

lemma sift_down_insort:
  "j < length xs \<Longrightarrow> sorted (take j xs) \<Longrightarrow> sift_down xs j v = insort v (take j xs) @ drop (Suc j) xs"
proof (induction xs j v rule: sift_down.induct)
  case (1 xs v)
  then show ?case by (cases xs) simp_all
next
  case (2 xs j v)
  have tk: "take (Suc j) xs = take j xs @ [xs ! j]" using 2(2) by (simp add: take_Suc_conv_app_nth)
  have so: "sorted (take j xs)" "\<forall>x\<in>set (take j xs). x \<le> xs ! j" using 2(3) by (simp_all add: tk sorted_append)
  show ?case
  proof (cases "v < xs ! j")
    case True
    have "sift_down (xs[Suc j := xs ! j]) j v = insort v (take j xs) @ drop (Suc j) (xs[Suc j := xs ! j])"
      using 2(1) [OF True] 2(2) so(1) by simp
    also have "drop (Suc j) (xs[Suc j := xs ! j]) = xs ! j # drop (Suc (Suc j)) xs"
      using 2(2) by (simp add: drop_update_swap Cons_nth_drop_Suc [symmetric])
    finally show ?thesis using True by (simp add: tk insort_snoc)
  next
    case False
    then have "\<forall>x\<in>set (take (Suc j) xs). x \<le> v" using so(2) by (auto simp: tk)
    then have "insort v (take (Suc j) xs) = take (Suc j) xs @ [v]" using 2(3) by (rule sorted_insort_is_snoc [rotated])
    moreover have "xs[Suc j := v] = take (Suc j) xs @ v # drop (Suc (Suc j)) xs" using 2(2) by (rule upd_conv_take_nth_drop)
    ultimately show ?thesis using False by simp
  qed
qed

lemma sort_snoc: "sort (ys @ [x]) = insort (x :: int) (sort ys)"
  by (rule properties_for_sort) (simp_all add: sorted_insort)

lemma sort_margins_sorts: "sort_margins xs = sort xs"
proof -
  have "fold (\<lambda>i xs. sift_down xs i (xs ! i)) [1..<n] xs = sort (take n xs) @ drop n xs" if "1 \<le> n" "n \<le> length xs" for n
    using that
  proof (induction n rule: nat_induct_at_least)
    case base
    then show ?case by (cases xs) simp_all
  next
    case (Suc n)
    let ?ys = "sort (take n xs) @ drop n xs"
    have n: "n < length xs" using Suc.prems by simp
    have "?ys ! n = xs ! n" "take n ?ys = sort (take n xs)" "drop (Suc n) ?ys = drop (Suc n) xs"
      using n by (simp_all add: nth_append)
    then have "sift_down ?ys n (?ys ! n) = insort (xs ! n) (sort (take n xs)) @ drop (Suc n) xs"
      using sift_down_insort [of n ?ys "xs ! n"] n by simp
    then show ?case using Suc n by (simp add: take_Suc_conv_app_nth sort_snoc)
  qed
  from this [of "length xs"] show ?thesis by (cases xs) (simp_all add: sort_margins_def)
qed

lemma remdups_adj_snoc:
  "ys \<noteq> [] \<Longrightarrow> remdups_adj (ys @ [x]) = (if x = last ys then remdups_adj ys else remdups_adj ys @ [x])"
  using remdups_adj_append_two [of "butlast ys" "last ys" x] by (cases ys rule: rev_cases) auto

lemma drop_repeats_remdups:
  "i \<le> length xs \<Longrightarrow> length zs = length xs \<Longrightarrow> n \<le> i \<Longrightarrow> take n zs = remdups_adj (take i xs) \<Longrightarrow> drop i zs = drop i xs
   \<Longrightarrow> (case drop_repeats zs n [i..<length xs] of (zs', n') \<Rightarrow> take n' zs') = remdups_adj xs"
proof (induction "length xs - i" arbitrary: i zs n)
  case (Suc d)
  then have i: "i < length xs" by simp
  have zi: "zs ! i = xs ! i" using Suc.prems(2,5) i by (metis hd_drop_conv_nth)
  have tk: "take (Suc i) xs = take i xs @ [xs ! i]" using i by (simp add: take_Suc_conv_app_nth)
  have dr: "drop (Suc i) zs = drop (Suc i) xs" using Suc.prems(5) by (metis drop_Suc drop_tl)
  have n0: "n = 0 \<longleftrightarrow> i = 0"
  proof -
    have "take n zs = [] \<longleftrightarrow> take i xs = []" using Suc.prems(4) by simp
    then show ?thesis using Suc.prems(2,3) i by auto
  qed
  have lst: "zs ! (n - 1) = last (take i xs)" if "n \<noteq> 0"
  proof -
    have "last (take n zs) = zs ! (n - 1)" using that Suc.prems(2,3) i by (subst last_conv_nth) auto
    then show ?thesis using Suc.prems(4) by simp
  qed
  have up: "[i..<length xs] = i # [Suc i..<length xs]" using i by (simp add: upt_conv_Cons)
  show ?case
  proof (cases "n = 0 \<or> zs ! i \<noteq> zs ! (n - 1)")
    case True
    have "take (Suc n) (zs[n := zs ! i]) = take n zs @ [xs ! i]"
      using Suc.prems(2,3) i zi by (simp add: take_Suc_conv_app_nth)
    also have "\<dots> = remdups_adj (take (Suc i) xs)"
    proof (cases "n = 0")
      case True
      then have e: "take i xs = []" using n0 by simp
      show ?thesis unfolding tk e using True by simp
    next
      case False
      then have "take i xs \<noteq> []" using n0 i by auto
      then show ?thesis using True False Suc.prems(4) zi lst unfolding tk by (simp add: remdups_adj_snoc)
    qed
    finally show ?thesis
      using Suc.hyps(1) [of "Suc i" "zs[n := zs ! i]" "Suc n"] Suc.hyps(2) Suc.prems dr i True
      by (simp add: up drop_update_cancel)
  next
    case False
    moreover from False have "take i xs \<noteq> []" using n0 i by auto
    ultimately have "remdups_adj (take (Suc i) xs) = remdups_adj (take i xs)"
      using zi lst unfolding tk by (simp add: remdups_adj_snoc)
    then show ?thesis
      using Suc.hyps(1) [of "Suc i" zs n] Suc.hyps(2) Suc.prems dr i False by (simp add: up)
  qed
qed simp

lemma published_margins_result: "published_margins xs = remdups_adj (sort xs)"
  using drop_repeats_remdups [of 0 "sort xs" "sort xs" 0]
  by (simp add: published_margins_def sort_margins_sorts Let_def split: prod.splits)

lemma strictly_ascending: "sorted xs \<Longrightarrow> distinct_adj xs \<Longrightarrow> sorted_wrt (<) (xs :: int list)"
  by (induction xs rule: induct_list012) (auto simp: le_less)

section \<open>Names stay in their arrays\<close>

lemma add_names_result:
  "length names + length nms \<le> PT_MAX_MEDIA_NAMES \<Longrightarrow> length names + length nms \<le> limit
   \<Longrightarrow> add_names limit names nms = Some (names @ nms)"
  by (induction nms arbitrary: names) auto

lemma width_loop_result:
  assumes "length names \<le> PT_MAX_MEDIA_NAMES" "length names \<le> limit" "0 < max_w \<longrightarrow> length names + 2 \<le> limit"
    and "\<forall>mm\<in>set mms. 0 < mm"
  shows "\<exists>names' min_w' max_w'. width_loop E limit max_px mms (names, min_w, max_w) = Some (names', min_w', max_w')
    \<and> length names' \<le> PT_MAX_MEDIA_NAMES \<and> length names' \<le> limit \<and> (0 < max_w' \<longrightarrow> length names' + 2 \<le> limit)"
  using assms
proof (induction mms arbitrary: names min_w max_w)
  case (Cons mm mms)
  show ?case
  proof (cases "pt_tape_px mm \<le> 0 \<or> max_px < pt_tape_px mm")
    case True
    then show ?thesis using Cons by simp
  next
    case False
    let ?nms = "map (\<lambda>l. format_size_name E None None (mm * 100) (l * 100)) pt_preset_mm"
    show ?thesis
    proof (cases "PT_MAX_MEDIA_NAMES < length names + length pt_preset_mm + 2 \<or> limit < length names + length pt_preset_mm + 2")
      case True
      then show ?thesis using False Cons.prems by simp
    next
      case fits: False
      then have "add_names limit names ?nms = Some (names @ ?nms)" by (intro add_names_result) auto
      then show ?thesis using False fits Cons.IH [of "names @ ?nms"] Cons.prems by (simp add: Let_def)
    qed
  qed
qed simp

lemma media_names_result:
  "\<exists>names. media_names E limit max_px = Some names \<and> length names \<le> PT_MAX_MEDIA_NAMES \<and> length names \<le> limit"
proof -
  have "\<forall>mm\<in>set pt_tape_mm. 0 < mm" by (simp add: pt_tape_mm_def)
  then obtain names min_w max_w where w: "width_loop E limit max_px pt_tape_mm ([], 0, 0) = Some (names, min_w, max_w)"
      "length names \<le> PT_MAX_MEDIA_NAMES" "length names \<le> limit" "0 < max_w \<longrightarrow> length names + 2 \<le> limit"
    using width_loop_result [of "[]" limit 0 pt_tape_mm E max_px 0] by auto
  show ?thesis
  proof (cases "0 < max_w \<and> length names + 2 \<le> PT_MAX_MEDIA_NAMES")
    case True
    then show ?thesis using w by (auto simp: media_names_def add_names_result)
  next
    case False
    then show ?thesis using w by (auto simp: media_names_def)
  qed
qed

section \<open>The identity\<close>

lemma strstr_hit: "prefix_of p s \<Longrightarrow> strstr s p = Some s"
  by (cases s) (auto simp: prefix_of_def)

lemma parse_format_id:
  assumes "d = pt_2730 \<or> d = pt_p710bt"
  shows "parse_mdl (Some (pt_usb_format_id d 100)) 64 = dev_name d"
  using assms
  by (auto simp: parse_mdl_def pt_usb_format_id_def snprintf_def pt_2730_def pt_p710bt_def prefix_of_def)

lemma supported_name: "d = pt_2730 \<or> d = pt_p710bt \<Longrightarrow> pt_usb_supported_model (Some (dev_name d)) = Some d \<and> dev_name d \<noteq> []"
  by (auto simp: supported_model_iff pt_2730_def pt_p710bt_def)

lemma driver_model_result:
  "driver_model uri id1 = Some dev \<longleftrightarrow>
     parse_mdl id1 64 \<noteq> [] \<and> pt_usb_supported_model (Some (parse_mdl id1 64)) = Some dev
     \<and> (\<forall>u. uri = Some u \<longrightarrow> (prefix_of ''ptouch://'' u \<longrightarrow> pt_usb_model_from_uri uri = Some dev)
          \<and> (prefix_of ''ptouch-bt://'' u \<longrightarrow> pt_bt_is_uri uri \<and> dev = pt_p710bt))"
proof -
  have "dev_pid d = 0x20af \<longleftrightarrow> d = pt_p710bt" if "pt_usb_supported_model m = Some d" for m d
    using supported_rows [OF that] by (auto simp: pt_2730_def pt_p710bt_def)
  then show ?thesis
    by (auto simp: driver_model_def Let_def split: option.splits)
qed

section \<open>The attributes\<close>

lemma published_margins_exact: "sorted_wrt (<) (published_margins xs) \<and> set (published_margins xs) = set xs"
  by (simp add: published_margins_result strictly_ascending)

lemma supported_widths: "filter (\<lambda>mm. pt_tape_geometry mm \<noteq> None) pt_tape_mm = [6, 9, 12, 18, 24]"
  by (simp add: pt_tape_mm_def geometry_other)

lemma widths_are_tapes: "{f g | g mm. pt_tape_geometry mm = Some g} = (\<lambda>mm. f (the (pt_tape_geometry mm))) ` set [6, 9, 12, 18, 24]"
proof (intro equalityI subsetI)
  fix x assume "x \<in> {f g | g mm. pt_tape_geometry mm = Some g}"
  then obtain g mm where g: "pt_tape_geometry mm = Some g" "x = f g" by blast
  then have "mm \<in> set [6, 9, 12, 18, 24]" using geometry_mm [OF g(1)] by simp
  moreover have "x = f (the (pt_tape_geometry mm))" using g by (simp only: option.sel)
  ultimately show "x \<in> (\<lambda>mm. f (the (pt_tape_geometry mm))) ` set [6, 9, 12, 18, 24]" by (rule rev_image_eqI)
next
  fix x assume "x \<in> (\<lambda>mm. f (the (pt_tape_geometry mm))) ` set [6, 9, 12, 18, 24]"
  then obtain mm where mm: "mm \<in> set [6, 9, 12, 18, 24]" "x = f (the (pt_tape_geometry mm))" by (rule imageE)
  from mm(1) obtain g where g: "pt_tape_geometry mm = Some g" by auto
  then have "x = f g" using mm(2) by (simp only: option.sel)
  then show "x \<in> {f g | g mm. pt_tape_geometry mm = Some g}" using g by blast
qed

lemma last_four: "c \<in> set (zs @ [a, b, c, d])" "d \<in> set (zs @ [a, b, c, d])" "a \<in> set (zs @ [a, b, c, d])"
  by simp_all

lemma media_entry_size:
  assumes "pt_tape_geometry mm = Some g" "k < 4"
  shows "(''media-size'', Ipp_Cols [if k < 3
       then [(''x-dimension'', Ipp_Ints IPP_TAG_INTEGER [mm * 100]), (''y-dimension'', Ipp_Ints IPP_TAG_INTEGER [pt_preset_mm ! k * 100])]
       else [(''x-dimension'', Ipp_Range (mm * 100 - 1) (mm * 100 + 1)),
             (''y-dimension'', Ipp_Range PT_ROLL_MIN_CENTIMM PT_ROLL_MAX_CENTIMM)]]) \<in> set (media_entry E mm k)"
    "(''media-left-margin'', Ipp_Ints IPP_TAG_INTEGER [left_margin_centimm g]) \<in> set (media_entry E mm k)"
    "(''media-right-margin'', Ipp_Ints IPP_TAG_INTEGER [right_margin_centimm g]) \<in> set (media_entry E mm k)"
  using assms by (simp_all add: media_entry_def media_out_def media_col_for_def roll_size_def pt_preset_mm_def Let_def)

lemma nth_blocks: "i < length xs \<Longrightarrow> k < n \<Longrightarrow> concat (map (\<lambda>x. map (f x) [0..<n]) xs) ! (n * i + k) = f (xs ! i) k"
proof (induction xs arbitrary: i)
  case (Cons x xs)
  then show ?case by (cases i) (simp_all add: nth_append)
qed simp

lemma supported_width_geometry:
  assumes "i < 5"
  obtains g where "pt_tape_geometry ([6, 9, 12, 18, 24] ! i) = Some g"
proof -
  have "[6, 9, 12, 18, 24 :: int] ! i \<in> set [6, 9, 12, 18, 24]" using assms by (intro nth_mem) simp
  then show thesis using that by auto
qed

lemma policy_of_default:
  assumes "job_attribute E ''finishings'' = None \<and> job_attribute E ''finishings-col'' = None
    \<and> driver_attributes E h = Some a \<and> ipp_find E a ''finishings-default'' IPP_TAG_ENUM = Some d
    \<and> ipp_count E d = 1 \<and> ipp_integer E d 0 = 11"
  shows "pt_job_policy E h \<noteq> None"
  using assms by (simp add: pt_job_policy_def finishing_value_cases)

lemma policy_of_enums:
  assumes "job_attribute E ''finishings'' = Some v \<and> job_attribute E ''finishings-col'' = None
    \<and> ipp_value_tag E v = IPP_TAG_ENUM \<and> 1 \<le> ipp_count E v"
  shows "pt_job_policy E h \<noteq> None \<longleftrightarrow> ipp_integer E v ` {0..<nat (ipp_count E v)} \<subseteq> set [3, 11, 60, 63]"
  using assms by (simp add: pt_job_policy_def fold_modes_join)

lemma policy_of_template:
  assumes "job_attribute E ''finishings'' = None \<and> job_attribute E ''finishings-col'' = Some c
    \<and> ipp_value_tag E c = IPP_TAG_BEGIN_COLLECTION \<and> ipp_count E c = 1
    \<and> ipp_find E (ipp_collection E c 0) ''finishing-template'' IPP_TAG_KEYWORD = Some t
    \<and> ipp_count E t = 1 \<and> ipp_string E t 0 = Some n"
  shows "pt_job_policy E h \<noteq> None \<longleftrightarrow> n \<in> set [''trim'', ''trim-after-pages'', ''trim-after-job'', ''ptouch-chain'']"
  using assms by (simp add: pt_job_policy_def template_mode_cases)

section \<open>Properties\<close>



text \<open>C30. The published media are exact: the two margin lists are strictly ascending and hold exactly the
  margins of the supported tapes. The media database has four entries for each of the five tapes, in the
  order of their widths: the three preset lengths and the roll, every one with the width of its tape and the
  margins of that same tape, and the left margin converts back to the first printable dot of that tape.\<close>

theorem media_attrs_exact:
  "\<exists>l r db. (''media-left-margin-supported'', Ipp_Ints IPP_TAG_INTEGER l) \<in> set (pt_media_attrs E attrs)
     \<and> (''media-right-margin-supported'', Ipp_Ints IPP_TAG_INTEGER r) \<in> set (pt_media_attrs E attrs)
     \<and> (''media-col-database'', Ipp_Cols db) \<in> set (pt_media_attrs E attrs)
     \<and> sorted_wrt (<) l \<and> set l = {left_margin_centimm g | g mm. pt_tape_geometry mm = Some g}
     \<and> sorted_wrt (<) r \<and> set r = {right_margin_centimm g | g mm. pt_tape_geometry mm = Some g}
     \<and> length db = 20
     \<and> (\<forall>i<5. \<forall>k<4. \<exists>mm g. mm = [6, 9, 12, 18, 24] ! i \<and> pt_tape_geometry mm = Some g
          \<and> (''media-size'', Ipp_Cols [if k < 3
               then [(''x-dimension'', Ipp_Ints IPP_TAG_INTEGER [mm * 100]), (''y-dimension'', Ipp_Ints IPP_TAG_INTEGER [[2500, 5000, 10000] ! k])]
               else [(''x-dimension'', Ipp_Range (mm * 100 - 1) (mm * 100 + 1)),
                     (''y-dimension'', Ipp_Range PT_ROLL_MIN_CENTIMM PT_ROLL_MAX_CENTIMM)]]) \<in> set (db ! (4 * i + k))
          \<and> (''media-left-margin'', Ipp_Ints IPP_TAG_INTEGER [left_margin_centimm g]) \<in> set (db ! (4 * i + k))
          \<and> (''media-right-margin'', Ipp_Ints IPP_TAG_INTEGER [right_margin_centimm g]) \<in> set (db ! (4 * i + k))
          \<and> cdiv (left_margin_centimm g * 180) 2540 = left_px g)"
proof -
  let ?ws = "[6, 9, 12, 18, 24] :: int list"
  let ?ms = "\<lambda>f. published_margins (map (\<lambda>mm. f (the (pt_tape_geometry mm))) ?ws)"
  let ?db = "concat (map (\<lambda>mm. map (media_entry E mm) [0..<4]) ?ws)"
  have lists: "sorted_wrt (<) (?ms f) \<and> set (?ms f) = {f g | g mm. pt_tape_geometry mm = Some g}" for f
    unfolding widths_are_tapes set_map [symmetric] by (rule published_margins_exact)
  have len: "Suc (length pt_preset_mm) = 4" by (simp add: pt_preset_mm_def)
  have p: "(''media-left-margin-supported'', Ipp_Ints IPP_TAG_INTEGER (?ms left_margin_centimm)) \<in> set (pt_media_attrs E attrs)"
    "(''media-right-margin-supported'', Ipp_Ints IPP_TAG_INTEGER (?ms right_margin_centimm)) \<in> set (pt_media_attrs E attrs)"
    "(''media-col-database'', Ipp_Cols ?db) \<in> set (pt_media_attrs E attrs)"
    unfolding pt_media_attrs_def supported_widths Let_def len
    by (rule last_four)+
  have entries: "\<exists>mm g. mm = ?ws ! i \<and> pt_tape_geometry mm = Some g
          \<and> (''media-size'', Ipp_Cols [if k < 3
               then [(''x-dimension'', Ipp_Ints IPP_TAG_INTEGER [mm * 100]), (''y-dimension'', Ipp_Ints IPP_TAG_INTEGER [[2500, 5000, 10000] ! k])]
               else [(''x-dimension'', Ipp_Range (mm * 100 - 1) (mm * 100 + 1)),
                     (''y-dimension'', Ipp_Range PT_ROLL_MIN_CENTIMM PT_ROLL_MAX_CENTIMM)]]) \<in> set (?db ! (4 * i + k))
          \<and> (''media-left-margin'', Ipp_Ints IPP_TAG_INTEGER [left_margin_centimm g]) \<in> set (?db ! (4 * i + k))
          \<and> (''media-right-margin'', Ipp_Ints IPP_TAG_INTEGER [right_margin_centimm g]) \<in> set (?db ! (4 * i + k))
          \<and> cdiv (left_margin_centimm g * 180) 2540 = left_px g"
    if i: "i < 5" and k: "k < 4" for i k
  proof -
    obtain g where g: "pt_tape_geometry (?ws ! i) = Some g" by (rule supported_width_geometry [OF i])
    have e: "?db ! (4 * i + k) = media_entry E (?ws ! i) k" using i k by (intro nth_blocks) simp_all
    have y: "k < 3 \<Longrightarrow> pt_preset_mm ! k * 100 = [2500, 5000, 10000] ! k"
      by (auto simp: pt_preset_mm_def numeral_eq_Suc less_Suc_eq)
    have "0 \<le> left_margin_centimm g" using tw.geo_margins [OF g] by linarith
    then have "cdiv (left_margin_centimm g * 180) 2540 = left_px g" using tw.geo_left [OF g] by simp
    with g media_entry_size [OF g k, of E] y show ?thesis
      unfolding e by (intro exI [of _ "?ws ! i"] exI [of _ g]) (simp cong: if_cong)
  qed
  have n: "length ?db = 20" by simp
  show ?thesis
    by (rule exI [of _ "?ms left_margin_centimm"], rule exI [of _ "?ms right_margin_centimm"], rule exI [of _ ?db],
        intro conjI allI impI p n conjunct1 [OF lists] conjunct2 [OF lists])
      (rule entries)
qed

theorem media_attrs_exact_witness:
  "\<exists>l db. (''media-left-margin-supported'', Ipp_Ints IPP_TAG_INTEGER l) \<in> set (pt_media_attrs bench []) \<and> 63 \<in> set l
     \<and> (''media-col-database'', Ipp_Cols db) \<in> set (pt_media_attrs bench [])
     \<and> (''media-left-margin'', Ipp_Ints IPP_TAG_INTEGER [left_margin_centimm (the (pt_tape_geometry 12))]) \<in> set (db ! 11)"
  using media_attrs_exact [of bench "[]"]
proof (elim exE conjE, goal_cases)
  case (1 l r db)
  have "63 \<in> set l" unfolding 1(5)
    by (rule CollectI, rule exI [of _ "the (pt_tape_geometry 12)"], rule exI [of _ 12]) simp
  moreover have "(''media-left-margin'', Ipp_Ints IPP_TAG_INTEGER [left_margin_centimm (the (pt_tape_geometry 12))]) \<in> set (db ! 11)"
    using spec [OF mp [OF spec [OF 1(9), of 2]], of 3] by auto
  ultimately show ?case using 1(1,3) by (intro exI [of _ l] exI [of _ db]) simp
qed



end
