(* ===== verification/Printer_Life.thy ===== *)
theory Printer_Life
  imports Run_Machine Wire_Format Setup_Facts
begin

text \<open>
  A printer from its creation on: the state that \<^verbatim>\<open>pt_driver_cb\<close> creates satisfies the invariants of the
  callbacks, so what is proved of reachable states holds for the whole life of the printer.
\<close>

lemma created_printer:
  assumes "pt_driver_cb E C uri id1 attrs s = Some (Some r, s')"
  obtains dev seconds where "printer s' = Some (fresh_state dev seconds)" "dev = pt_2730 \<or> dev = pt_p710bt"
    "batch s' = batch s" "outputs (trace s') = outputs (trace s)"
proof -
  obtain dev where dev: "driver_model uri id1 = Some dev"
    using assms by (cases "driver_model uri id1") (simp_all add: pt_driver_cb_def)
  then have row: "dev = pt_2730 \<or> dev = pt_p710bt" using supported_rows by (auto simp: driver_model_result)
  obtain seconds where sec: "pt_parse_idle_poll (idle_setting C) = Some seconds"
    using assms dev by (cases "pt_parse_idle_poll (idle_setting C)") (simp_all add: pt_driver_cb_def)
  obtain names where "media_names E (pappl_max_media C) (dev_max_px dev) = Some names" using media_names_result by blast
  then have "s' = (note_event (Ev_Alloc True) s)\<lparr>printer := Some (fresh_state dev seconds)\<rparr>"
    using assms dev sec by (auto simp: pt_driver_cb_def alloc_def answer_def Let_def split: if_splits)
  then show thesis using that [of dev seconds] row by simp
qed

section \<open>Properties\<close>



end
