(* ===== verification/Server_Start.thy ===== *)
theory Server_Start
  imports Setup_Facts
begin

text \<open>
  \<^verbatim>\<open>src/main.c\<close>: the checks of the settings, the \<^verbatim>\<open>smoke\<close> and \<^verbatim>\<open>probe\<close> commands, and
  the creation of the PAPPL system with its one printer. The settings and what PAPPL answers are the
  record \<open>srv_env\<close>; the calls that set PAPPL up are listed in \<open>srv_calls\<close>, newest first. A
  null pointer that is dereferenced makes the result \<open>None\<close>.
\<close>

section \<open>The outside\<close>

datatype scheme = Scheme_USB "pt_dev option" | Scheme_BT
  \<comment> \<open>a registered device scheme; the USB one with its discovery model\<close>

datatype load_result = Loaded | Load_Failed int \<comment> \<open>with \<^verbatim>\<open>errno\<close>\<close>

definition ENOENT :: int where "ENOENT = 2"

datatype srv_call =
    Sc_System_Create "string option"
  | Sc_Add_Scheme scheme
  | Sc_Set_Drivers
  | Sc_Set_Operation
  | Sc_Add_Filter
  | Sc_Set_Save string
  | Sc_Load_State string
  | Sc_Delete
  | Sc_Printer_Create string string bool
  | Sc_Device_List
  | Sc_Offline

record srv_env =
  getenv :: "string \<Rightarrow> string option"
  \<comment> \<open>cupsGetOption(spool-directory), papplGetTempDir, getuid, PATH\_MAX\<close>
  spool_directory :: "string option"
  temp_dir :: string
  uid :: nat
  path_max :: nat
  \<comment> \<open>papplSystemCreate (a null pointer is False), papplSystemLoadState, papplSystemFindPrinter with the
     device ID and URI of the printer found, papplPrinterCreate (a null pointer is False)\<close>
  system_create :: "sys \<Rightarrow> bool \<times> sys"
  load_state :: "string \<Rightarrow> sys \<Rightarrow> load_result \<times> sys"
  find_printer :: "sys \<Rightarrow> (string option \<times> string option) option"
  printer_create :: "string \<Rightarrow> string \<Rightarrow> sys \<Rightarrow> bool \<times> sys"
  \<comment> \<open>papplDeviceList, papplDeviceOpen (the data pointer of the device), and whether a call reports
     through its error callback\<close>
  device_list :: "sys \<Rightarrow> sys"
  device_open :: "string \<Rightarrow> hist \<Rightarrow> pt_conn option option"
  reports :: "hist \<Rightarrow> bool"

record server =
  srv_sys :: sys
  srv_calls :: "srv_call list"
  smoke_saw_error :: bool

definition call :: "srv_call \<Rightarrow> server \<Rightarrow> server" where
  "call c sv = sv\<lparr>srv_calls := c # srv_calls sv\<rparr>"

definition on_sys :: "(sys \<Rightarrow> ('r \<times> sys) option) \<Rightarrow> server \<Rightarrow> ('r \<times> server) option" where
  "on_sys f sv = do { (r, s) \<leftarrow> f (srv_sys sv); Some (r, sv\<lparr>srv_sys := s\<rparr>) }"

definition papplDeviceList :: "srv_env \<Rightarrow> server \<Rightarrow> server" where
  "papplDeviceList V sv = call Sc_Device_List (sv\<lparr>srv_sys := device_list V (srv_sys sv)\<rparr>)"

definition papplDeviceOpen :: "srv_env \<Rightarrow> string \<Rightarrow> sys \<Rightarrow> (bool \<times> sys) option" where
  "papplDeviceOpen V uri s =
    (case device_open V uri (trace s) of
       None \<Rightarrow> answer (Ev_Open_Device False) False s
     | Some c \<Rightarrow> answer (Ev_Open_Device True) True (s\<lparr>conn := c\<rparr>))"

definition papplDeviceClose :: "sys \<Rightarrow> (unit \<times> sys) option" where
  "papplDeviceClose s = answer Ev_Close_Device () (s\<lparr>conn := None\<rparr>)"

section \<open>Commands\<close>

definition bt_address :: "srv_env \<Rightarrow> string option" where
  "bt_address V =
    (case getenv V ''PTOUCH_BT_ADDRESS'' of None \<Rightarrow> None | Some a \<Rightarrow> if a \<noteq> [] then Some a else None)"

definition smoke_err_cb :: "srv_env \<Rightarrow> server \<Rightarrow> server" where
  \<comment> \<open>run by PAPPL when the last call reports an error\<close>
  "smoke_err_cb V sv = (if reports V (trace (srv_sys sv)) then sv\<lparr>smoke_saw_error := True\<rparr> else sv)"

definition probe_cb :: "env \<Rightarrow> srv_env \<Rightarrow> server \<Rightarrow> ((int \<times> bool) \<times> server) option" where
  \<comment> \<open>the returned value and what the last line prints\<close>
  "probe_cb E V sv = do {
     let sv = call (Sc_Add_Scheme (Scheme_USB (pt_usb_register (getenv V ''PTOUCH_MODEL'')))) sv;
     let sv = papplDeviceList V sv;
     model \<leftarrow> pt_usb_supported_model (getenv V ''PTOUCH_MODEL'');
     (present, sv) \<leftarrow> on_sys (pt_usb_present E (dev_vid model) (dev_pid model)) sv;
     Some ((0, present), sv)
   }"

definition run_smoke :: "env \<Rightarrow> srv_env \<Rightarrow> server \<Rightarrow> (int \<times> server) option" where
  "run_smoke E V sv = do {
     let sv = call (Sc_Add_Scheme (Scheme_USB (pt_usb_register (getenv V ''PTOUCH_MODEL'')))) sv;
     model \<leftarrow> pt_usb_supported_model (getenv V ''PTOUCH_MODEL'');
     let uri = pt_usb_format_uri model 80;
     (count, sv) \<leftarrow> on_sys (pt_usb_count E (dev_vid model) (dev_pid model)) sv;
     if count \<noteq> 1 then Some (2, smoke_err_cb V (papplDeviceList V sv))
     else do {
       (opened, sv) \<leftarrow> on_sys (papplDeviceOpen V uri) sv;
       let sv = smoke_err_cb V sv;
       if \<not> opened then Some (3, sv)
       else do {
         let init = pt_cmd_init;
         (_, sv) \<leftarrow> on_sys (papplDeviceWrite E init) sv;
         let sv = smoke_err_cb V sv;
         (_, sv) \<leftarrow> on_sys papplDeviceFlush sv;
         let sv = smoke_err_cb V sv;
         (write_bytes, sv) \<leftarrow> on_sys (papplDeviceGetMetrics E) sv;
         (_, sv) \<leftarrow> on_sys papplDeviceClose sv;
         let sv = smoke_err_cb V sv;
         Some (if \<not> smoke_saw_error sv \<and> of_nat (length init) \<le> write_bytes then 0 else 1, sv)
       }
     }
   }"

section \<open>The PAPPL system\<close>

definition state_path :: "srv_env \<Rightarrow> string" where
  \<comment> \<open>the text the two \<^verbatim>\<open>snprintf\<close> calls format\<close>
  "state_path V = (case spool_directory V of
     Some directory \<Rightarrow> directory @ ''/ptouch-app.state''
   | None \<Rightarrow> temp_dir V @ ''/ptouch-app'' @ dec_digits (uid V) @ ''.state'')"

definition override_uri :: "srv_env \<Rightarrow> string option" where
  \<comment> \<open>\<^verbatim>\<open>PTOUCH_DEVICE_URI\<close> when it is set and not empty\<close>
  "override_uri V =
    (case getenv V ''PTOUCH_DEVICE_URI'' of None \<Rightarrow> None | Some u \<Rightarrow> if u \<noteq> [] then Some u else None)"

definition configured_id :: "pt_dev \<Rightarrow> string" where
  "configured_id model = pt_usb_format_id model 100"

definition configured_uri :: "srv_env \<Rightarrow> pt_dev \<Rightarrow> string" where
  \<comment> \<open>the value of \<^verbatim>\<open>device_uri\<close> once it is resolved\<close>
  "configured_uri V model = (case override_uri V of
     Some u \<Rightarrow> u
   | None \<Rightarrow> (case bt_address V of
       Some a \<Rightarrow> pt_bt_format_uri a 80
     | None \<Rightarrow> pt_usb_format_uri model 80))"

definition discover :: "env \<Rightarrow> srv_env \<Rightarrow> pt_dev \<Rightarrow> bool \<Rightarrow> server \<Rightarrow> (unit \<times> server) option" where
  \<comment> \<open>the diagnosis of the configured USB model; \<open>have\<close> says that there is a printer\<close>
  "discover E V model have_printer sv = do {
     let sv = papplDeviceList V sv;
     (matches, sv) \<leftarrow> on_sys (pt_usb_count E (dev_vid model) (dev_pid model)) sv;
     if have_printer \<and> matches \<noteq> 1 then do {
       (_, sv) \<leftarrow> on_sys (papplPrinterSetReasons {REASON_OFFLINE} {}) (call Sc_Offline sv);
       Some ((), sv)
     } else Some ((), sv)
   }"

definition take_printer :: "srv_env \<Rightarrow> string \<Rightarrow> string \<Rightarrow> server \<Rightarrow> (bool option \<times> server) option" where
  \<comment> \<open>the restored printer, or a new one: whether there is a printer; the inner \<open>None\<close> is a conflict\<close>
  "take_printer V device_id uri sv = (case find_printer V (srv_sys sv) of
     None \<Rightarrow> (case printer_create V device_id uri (srv_sys sv) of
       (made, s) \<Rightarrow> Some (Some made, call (Sc_Printer_Create device_id uri made) (sv\<lparr>srv_sys := s\<rparr>)))
   | Some (saved_id, saved_uri) \<Rightarrow> do {
       i \<leftarrow> saved_id;
       if i \<noteq> device_id then Some (None, sv)
       else do { u \<leftarrow> saved_uri; Some (if u \<noteq> uri then None else Some True, sv) }
     })"

definition start_printer :: "env \<Rightarrow> srv_env \<Rightarrow> string \<Rightarrow> server \<Rightarrow> (bool \<times> server) option" where
  \<comment> \<open>from the configured model on; the argument is \<^verbatim>\<open>statefile\<close>\<close>
  "start_printer E V statefile sv = do {
     model \<leftarrow> pt_usb_supported_model (getenv V ''PTOUCH_MODEL'');
     let sv = call (Sc_Set_Save statefile) sv;
     let (r, s) = load_state V statefile (srv_sys sv);
     let sv = call (Sc_Load_State statefile) (sv\<lparr>srv_sys := s\<rparr>);
     if r \<noteq> Loaded \<and> r \<noteq> Load_Failed ENOENT then Some (False, call Sc_Delete sv)
     else do {
       (p, sv) \<leftarrow> take_printer V (configured_id model) (configured_uri V model) sv;
       case p of
         None \<Rightarrow> Some (False, call Sc_Delete sv)
       | Some have_printer \<Rightarrow> do {
           (_, sv) \<leftarrow> (if override_uri V = None \<and> bt_address V = None then discover E V model have_printer sv
                        else Some ((), sv));
           Some (True, sv)
         }
     }
   }"

definition system_cb :: "env \<Rightarrow> srv_env \<Rightarrow> server \<Rightarrow> (bool \<times> server) option" where
  \<comment> \<open>the returned pointer is not null\<close>
  "system_cb E V sv =
    (if path_max V \<le> length (state_path V) then Some (False, sv)
     else do {
       let statefile = snprintf (path_max V) (state_path V);
       let (ok, s) = system_create V (srv_sys sv);
       let sv = call (Sc_System_Create (spool_directory V)) (sv\<lparr>srv_sys := s\<rparr>);
       if \<not> ok then Some (False, sv)
       else do {
         let sv = call (Sc_Add_Scheme (if bt_address V \<noteq> None then Scheme_BT
           else Scheme_USB (pt_usb_register (getenv V ''PTOUCH_MODEL'')))) sv;
         let sv = call Sc_Add_Filter (call Sc_Set_Operation (call Sc_Set_Drivers sv));
         start_printer E V statefile sv
       }
     })"

section \<open>Main\<close>

datatype start_error =
    Model_Unsupported | Uri_Conflicts_Model | Not_Bluetooth_Address | Uri_And_Bluetooth
  | Model_Without_Bluetooth | Bad_Idle_Poll | Command_Is_Usb_Only

datatype start = Refused start_error | Smoke_Result int | Mainloop
  \<comment> \<open>a refusal is an error message and EXIT\_FAILURE; \<open>Mainloop\<close> is the call of \<^verbatim>\<open>papplMainloop\<close>\<close>

definition main :: "env \<Rightarrow> srv_env \<Rightarrow> string option \<Rightarrow> server \<Rightarrow> (start \<times> server) option" where
  \<comment> \<open>the third argument is \<^verbatim>\<open>argv[1]\<close>, if there is one\<close>
  "main E V arg sv = (case pt_usb_supported_model (getenv V ''PTOUCH_MODEL'') of
     None \<Rightarrow> Some (Refused Model_Unsupported, sv)
   | Some model \<Rightarrow>
       let uri = getenv V ''PTOUCH_DEVICE_URI''; address = bt_address V in
       if (case uri of None \<Rightarrow> False | Some u \<Rightarrow> prefix_of ''ptouch://'' u) \<and> pt_usb_model_from_uri uri \<noteq> Some model
       then Some (Refused Uri_Conflicts_Model, sv)
       else do {
         parsed \<leftarrow> (case address of None \<Rightarrow> Some None | Some a \<Rightarrow> pt_parse_bt_address (Some a));
         if address \<noteq> None \<and> parsed = None then Some (Refused Not_Bluetooth_Address, sv)
         else if address \<noteq> None \<and> override_uri V \<noteq> None then Some (Refused Uri_And_Bluetooth, sv)
         else if address \<noteq> None \<and> dev_pid model \<noteq> 0x20af then Some (Refused Model_Without_Bluetooth, sv)
         else if pt_parse_idle_poll (getenv V ''PTOUCH_IDLE_POLL_SECONDS'') = None then Some (Refused Bad_Idle_Poll, sv)
         else if address \<noteq> None \<and> (arg = Some ''smoke'' \<or> arg = Some ''probe'') then Some (Refused Command_Is_Usb_Only, sv)
         else if arg = Some ''smoke'' then do {
           (r, sv) \<leftarrow> run_smoke E V sv;
           Some (Smoke_Result r, sv)
         } else Some (Mainloop, sv)
       })"

end
