(* ===== verification/Start_Facts.thy ===== *)
theory Start_Facts
  imports Server_Start
begin

unbundle bit_operations_syntax

text \<open>
  What the start of the server promises: the checks of \<^verbatim>\<open>main\<close> admit only configurations the
  driver callback accepts, no callback meets a null model, the system ends up with the configured
  printer or not at all, and a successful smoke test has reached the device.
\<close>

section \<open>Lemmas\<close>

lemma if_unique: "(\<And>d. x = Some d \<longleftrightarrow> d = m \<and> \<not> c) \<Longrightarrow> x = (if c then None else Some m)"
  by (cases x) auto

lemma bt_octet_last: "bt_octet t i = Some (Some b) \<Longrightarrow> CHR 0x00 \<notin> set t \<Longrightarrow> i = 5 \<Longrightarrow> length t = 17"
  by (auto simp: bt_octet_def c_at_def Let_def bind_eq_Some_conv split: if_splits) (metis nth_mem)

lemma address_defined: "\<exists>r. pt_parse_bt_address text = Some r"
  using bt_octets_safe [of 0] by (auto simp: pt_parse_bt_address_def split: option.split)

lemma bt_octets_length: "bt_octets t i k = Some (Some bs) \<Longrightarrow> CHR 0x00 \<notin> set t \<Longrightarrow> 0 < k \<Longrightarrow> i + k = 6 \<Longrightarrow> length t = 17"
proof (induction k arbitrary: i bs)
  case (Suc k)
  then obtain b r where b: "bt_octet t i = Some (Some b)" and r: "bt_octets t (Suc i) k = Some r" "map_option ((#) b) r = Some bs"
    by (auto simp: bind_eq_Some_conv split: option.splits)
  show ?case
  proof (cases "k = 0")
    case True
    then show ?thesis using Suc.prems bt_octet_last [OF b] by simp
  next
    case False
    then show ?thesis using Suc.IH [of "Suc i"] Suc.prems r by auto
  qed
qed simp

lemma bt_uri_accepted:
  assumes "pt_parse_bt_address (Some a) = Some (Some bs)" "CHR 0x00 \<notin> set a"
  shows "pt_bt_format_uri a 80 = PT_BT_PREFIX @ a" "pt_bt_is_uri (Some (PT_BT_PREFIX @ a))"
proof -
  have "length a = 17" using assms bt_octets_length [of a 0 6 bs] by (simp add: pt_parse_bt_address_def)
  then show "pt_bt_format_uri a 80 = PT_BT_PREFIX @ a" by (simp add: pt_bt_format_uri_def snprintf_def PT_BT_PREFIX_def)
  show "pt_bt_is_uri (Some (PT_BT_PREFIX @ a))"
    using assms(1) by (simp add: pt_bt_is_uri_def pt_bt_address_from_uri_def)
qed

lemma usb_uri: "d = pt_2730 \<or> d = pt_p710bt \<Longrightarrow> pt_usb_format_uri d 80 = usb_prefix @ dev_name d"
  by (auto simp: pt_usb_format_uri_def snprintf_def usb_prefix_def pt_2730_def pt_p710bt_def)

lemma usb_uri_model: "d = pt_2730 \<or> d = pt_p710bt \<Longrightarrow> pt_usb_model_from_uri (Some (usb_prefix @ dev_name d)) = Some d"
  by (auto simp: model_from_uri_iff pt_2730_def pt_p710bt_def)

lemma uri_prefixes [simp]:
  "prefix_of ''ptouch://'' (usb_prefix @ n)" "\<not> prefix_of ''ptouch-bt://'' (usb_prefix @ n)"
  "\<not> prefix_of ''ptouch://'' (PT_BT_PREFIX @ n)" "prefix_of ''ptouch-bt://'' (PT_BT_PREFIX @ n)"
  by (simp_all add: prefix_of_def usb_prefix_def PT_BT_PREFIX_def)

lemma bt_not_usb: "prefix_of ''ptouch-bt://'' u \<Longrightarrow> \<not> prefix_of ''ptouch://'' u"
  by (auto simp: prefix_of_iff)

lemma usb_count_shape:
  "\<exists>n s'. pt_usb_count E v p s = Some (n, s') \<and> silent s s'"
  by (auto simp: pt_usb_count_def libusb_defs answer_def split: option.split)

lemma returns_count: "(\<And>n s'. silent s s' \<Longrightarrow> Q n s') \<Longrightarrow> returns (pt_usb_count E v p s) Q"
  using usb_count_shape [of E v p s] by auto

lemma ensures_count: "(\<And>n s'. silent s s' \<Longrightarrow> Q n s') \<Longrightarrow> ensures (pt_usb_count E v p s) Q"
  using usb_count_shape [of E v p s] by auto

lemma returns_on_sys [simp]: "returns (on_sys f sv) Q = returns (f (srv_sys sv)) (\<lambda>r s. Q r (sv\<lparr>srv_sys := s\<rparr>))"
  by (simp add: on_sys_def)

lemma ensures_on_sys [simp]: "ensures (on_sys f sv) Q = ensures (f (srv_sys sv)) (\<lambda>r s. Q r (sv\<lparr>srv_sys := s\<rparr>))"
  by (simp add: on_sys_def)

lemma returns_open [simp]: "returns (papplDeviceOpen V uri s) (\<lambda>_ _. True)"
  by (simp add: papplDeviceOpen_def split: option.split)

lemma run_smoke_returns:
  "pt_usb_supported_model (getenv V ''PTOUCH_MODEL'') = Some m \<Longrightarrow> returns (run_smoke E V sv) (\<lambda>_ _. True)"
  by (auto simp: run_smoke_def Let_def pappl_defs papplDeviceClose_def papplDeviceOpen_def intro!: returns_count split: option.split)

lemma discover_returns: "returns (discover E V model have_printer sv) (\<lambda>_ _. True)"
  by (auto simp: discover_def Let_def papplPrinterSetReasons_def intro!: returns_count)

lemma call_sys [simp]: "srv_sys (call c sv) = srv_sys sv" "smoke_saw_error (call c sv) = smoke_saw_error sv"
  by (simp_all add: call_def)

lemma discover_calls:
  "discover E V model h sv = Some (u, sv') \<Longrightarrow>
     srv_calls sv' = Sc_Device_List # srv_calls sv \<or> srv_calls sv' = Sc_Offline # Sc_Device_List # srv_calls sv"
  by (auto simp: discover_def Let_def bind_eq_Some_conv on_sys_def papplDeviceList_def call_def split: if_splits)

lemma start_printer_calls:
  assumes "start_printer E V path sv = Some (r, sv')"
  defines "base \<equiv> Sc_Load_State path # Sc_Set_Save path # srv_calls sv"
  defines "loaded \<equiv> snd (load_state V path (srv_sys sv))"
  shows "if r then \<exists>model made disc. pt_usb_supported_model (getenv V ''PTOUCH_MODEL'') = Some model
      \<and> srv_calls sv' = disc @ made @ base
      \<and> (made = [] \<and> find_printer V loaded = Some (Some (configured_id model), Some (configured_uri V model))
         \<or> find_printer V loaded = None \<and> made = [Sc_Printer_Create (configured_id model) (configured_uri V model)
              (fst (printer_create V (configured_id model) (configured_uri V model) loaded))])
      \<and> (if override_uri V = None \<and> bt_address V = None then disc = [Sc_Device_List] \<or> disc = [Sc_Offline, Sc_Device_List] else disc = [])
    else srv_calls sv' = Sc_Delete # base"
proof -
  obtain model where m: "pt_usb_supported_model (getenv V ''PTOUCH_MODEL'') = Some model"
    using assms(1) by (auto simp: start_printer_def bind_eq_Some_conv)
  let ?d = "configured_id model" and ?u = "configured_uri V model"
  obtain l s where ls: "load_state V path (srv_sys sv) = (l, s)" by (cases "load_state V path (srv_sys sv)")
  define sw where "sw = sv\<lparr>srv_sys := s, srv_calls := base\<rparr>"
  have sw: "call (Sc_Load_State path) ((call (Sc_Set_Save path) sv)\<lparr>srv_sys := s\<rparr>) = sw"
    by (simp add: call_def sw_def base_def)
  have calls: "srv_calls sw = base" "srv_sys sw = loaded" by (simp_all add: sw_def loaded_def ls)
  have st: "(if l \<noteq> Loaded \<and> l \<noteq> Load_Failed ENOENT then Some (False, call Sc_Delete sw)
     else do {
       (p, sv) \<leftarrow> take_printer V ?d ?u sw;
       case p of
         None \<Rightarrow> Some (False, call Sc_Delete sv)
       | Some have_printer \<Rightarrow> do {
           (_, sv) \<leftarrow> (if override_uri V = None \<and> bt_address V = None then discover E V model have_printer sv
                        else Some ((), sv));
           Some (True, sv)
         }
     }) = Some (r, sv')"
    using assms(1) by (simp add: start_printer_def m Let_def ls sw split del: if_split cong: if_cong)
  show ?thesis
  proof (cases "l \<noteq> Loaded \<and> l \<noteq> Load_Failed ENOENT")
    case True
    then show ?thesis using st by (auto simp: call_def sw_def)
  next
    case False
    then obtain p sx where p: "take_printer V ?d ?u sw = Some (p, sx)" using st by (auto simp: bind_eq_Some_conv)
    have made: "p = None \<and> srv_calls sx = base \<or> (\<exists>b made. p = Some b \<and> srv_calls sx = made @ base
        \<and> (made = [] \<and> find_printer V loaded = Some (Some ?d, Some ?u)
           \<or> find_printer V loaded = None \<and> made = [Sc_Printer_Create ?d ?u (fst (printer_create V ?d ?u loaded))]))"
    proof (cases "find_printer V (srv_sys sw)")
      case None
      obtain ok t where pc: "printer_create V ?d ?u loaded = (ok, t)" by (cases "printer_create V ?d ?u loaded")
      then show ?thesis using p None calls by (auto simp: take_printer_def call_def)
    next
      case (Some a)
      then show ?thesis using p calls
        by (cases a) (auto simp: take_printer_def call_def bind_eq_Some_conv split: if_splits)
    qed
    show ?thesis
    proof (cases p)
      case None
      then show ?thesis using st False p made by (auto simp: call_def)
    next
      case (Some b)
      then obtain made where md: "srv_calls sx = made @ base" "made = [] \<and> find_printer V loaded = Some (Some ?d, Some ?u)
           \<or> find_printer V loaded = None \<and> made = [Sc_Printer_Create ?d ?u (fst (printer_create V ?d ?u loaded))]"
        using made by blast
      from st False p Some have r: "r" and d: "(if override_uri V = None \<and> bt_address V = None then discover E V model b sx
                        else Some ((), sx)) = Some ((), sv')" by (auto simp: bind_eq_Some_conv)
      obtain disc where dd: "srv_calls sv' = disc @ srv_calls sx" "(if override_uri V = None \<and> bt_address V = None
          then disc = [Sc_Device_List] \<or> disc = [Sc_Offline, Sc_Device_List] else disc = [])"
        using d discover_calls [of E V model b sx "()" sv'] by (cases "override_uri V = None \<and> bt_address V = None") auto
      have "srv_calls sv' = disc @ made @ base" using dd(1) md(1) by simp
      with m md(2) dd(2) show ?thesis unfolding if_P [OF r] by blast
    qed
  qed
qed

lemma below_5: "(\<forall>k<5 :: nat. P k) \<longleftrightarrow> P 0 \<and> P 1 \<and> P 2 \<and> P 3 \<and> P 4"
  by (auto simp: numeral_eq_Suc less_Suc_eq)

lemma discover_printer:
  assumes "\<forall>s. printer (device_list V s) = printer s"
  shows "\<exists>sv'. discover E V model h sv = Some ((), sv') \<and> printer (srv_sys sv') = printer (srv_sys sv)"
proof -
  let ?s = "srv_sys (papplDeviceList V sv)"
  obtain n s' where c: "pt_usb_count E (dev_vid model) (dev_pid model) ?s = Some (n, s')" "silent ?s s'"
    using usb_count_shape by blast
  have "printer s' = printer (srv_sys sv)" using silent_sys(1) [OF c(2)] assms by (simp add: papplDeviceList_def)
  then show ?thesis
    by (simp add: discover_def Let_def on_sys_def c papplPrinterSetReasons_def answer_def note_event_def)
qed

lemma smoke_err_cb_simps [simp]:
  "srv_sys (smoke_err_cb V sv) = srv_sys sv"
  "smoke_saw_error (smoke_err_cb V sv) \<longleftrightarrow> smoke_saw_error sv \<or> reports V (trace (srv_sys sv))"
  by (simp_all add: smoke_err_cb_def)

lemma silent_state: "silent (s :: sys) s' \<Longrightarrow> s' = s\<lparr>trace := trace s'\<rparr>"
  by (cases s; cases s') (simp add: silent_def extends_def)

lemma mainloop_conditions:
  assumes "main E V arg sv = Some (Mainloop, sv')"
  shows "sv' = sv" "\<exists>model. pt_usb_supported_model (getenv V ''PTOUCH_MODEL'') = Some model
     \<and> (\<forall>u. override_uri V = Some u \<and> prefix_of ''ptouch://'' u \<longrightarrow> pt_usb_model_from_uri (Some u) = Some model)
     \<and> (\<forall>a. bt_address V = Some a \<longrightarrow> override_uri V = None \<and> model = pt_p710bt \<and> (\<exists>bs. pt_parse_bt_address (Some a) = Some (Some bs)))
     \<and> pt_parse_idle_poll (getenv V ''PTOUCH_IDLE_POLL_SECONDS'') \<noteq> None"
proof -
  obtain model where m: "pt_usb_supported_model (getenv V ''PTOUCH_MODEL'') = Some model"
    using assms by (cases "pt_usb_supported_model (getenv V ''PTOUCH_MODEL'')") (auto simp: main_def)
  have p: "dev_pid model = 0x20af \<longleftrightarrow> model = pt_p710bt"
    using supported_rows [OF m] by (auto simp: pt_2730_def pt_p710bt_def)
  show "sv' = sv"
    using assms m by (auto simp: main_def Let_def bind_eq_Some_conv split: if_splits option.splits)
  show "\<exists>model. pt_usb_supported_model (getenv V ''PTOUCH_MODEL'') = Some model
     \<and> (\<forall>u. override_uri V = Some u \<and> prefix_of ''ptouch://'' u \<longrightarrow> pt_usb_model_from_uri (Some u) = Some model)
     \<and> (\<forall>a. bt_address V = Some a \<longrightarrow> override_uri V = None \<and> model = pt_p710bt \<and> (\<exists>bs. pt_parse_bt_address (Some a) = Some (Some bs)))
     \<and> pt_parse_idle_poll (getenv V ''PTOUCH_IDLE_POLL_SECONDS'') \<noteq> None"
    using assms m p
    by (cases "getenv V ''PTOUCH_DEVICE_URI''"; cases "bt_address V")
      (auto simp: main_def Let_def bind_eq_Some_conv override_uri_def split: if_splits)
qed

lemma identity_accepted:
  assumes "main E V arg sv = Some (Mainloop, sv')" "\<forall>a. bt_address V = Some a \<longrightarrow> CHR 0x00 \<notin> set a"
    and m: "pt_usb_supported_model (getenv V ''PTOUCH_MODEL'') = Some model"
  shows "driver_model (Some (configured_uri V model)) (Some (configured_id model)) =
        (if \<exists>u. override_uri V = Some u \<and> prefix_of ''ptouch-bt://'' u \<and> \<not> (pt_bt_is_uri (Some u) \<and> model = pt_p710bt)
         then None else Some model)"
proof -
  have c: "\<forall>u. override_uri V = Some u \<and> prefix_of ''ptouch://'' u \<longrightarrow> pt_usb_model_from_uri (Some u) = Some model"
      "\<forall>a. bt_address V = Some a \<longrightarrow> override_uri V = None \<and> model = pt_p710bt \<and> (\<exists>bs. pt_parse_bt_address (Some a) = Some (Some bs))"
    using mainloop_conditions(2) [OF assms(1)] m by auto
  note rows = supported_rows [OF m]
  have iff: "driver_model (Some u) (Some (configured_id model)) = Some d \<longleftrightarrow>
      d = model \<and> (prefix_of ''ptouch://'' u \<longrightarrow> pt_usb_model_from_uri (Some u) = Some d)
        \<and> (prefix_of ''ptouch-bt://'' u \<longrightarrow> pt_bt_is_uri (Some u) \<and> d = pt_p710bt)" for u d
    using rows supported_name [OF rows] by (auto simp: driver_model_result configured_id_def parse_format_id)
  have "driver_model (Some (configured_uri V model)) (Some (configured_id model)) = Some d \<longleftrightarrow>
      d = model \<and> \<not> (\<exists>u. override_uri V = Some u \<and> prefix_of ''ptouch-bt://'' u \<and> \<not> (pt_bt_is_uri (Some u) \<and> model = pt_p710bt))" for d
  proof (cases "override_uri V")
    case (Some u)
    then show ?thesis using c(1) bt_not_usb [of u] by (auto simp: iff configured_uri_def)
  next
    case None
    show ?thesis
    proof (cases "bt_address V")
      case b: None
      then show ?thesis using None rows by (auto simp: iff configured_uri_def usb_uri usb_uri_model)
    next
      case (Some a)
      then obtain bs where "pt_parse_bt_address (Some a) = Some (Some bs)" and d: "model = pt_p710bt" using c(2) by blast
      then show ?thesis using None Some assms(2) bt_uri_accepted [of a bs] by (auto simp: iff [unfolded d] configured_uri_def)
    qed
  qed
  then show ?thesis by (rule if_unique)
qed

lemma driver_cb_run:
  assumes "driver_model uri device_id = Some dev" "pt_parse_idle_poll (idle_setting C) = Some seconds"
    and "alloc_ok E (trace s)" "mutex_inits C"
  shows "\<exists>r s'. pt_driver_cb E C uri device_id attrs s = Some (Some r, s') \<and> printer s' = Some (fresh_state dev seconds)"
proof -
  obtain names where "media_names E (pappl_max_media C) (dev_max_px dev) = Some names" using media_names_result by blast
  then show ?thesis using assms by (simp add: pt_driver_cb_def alloc_def answer_def Let_def)
qed

section \<open>Properties\<close>

text \<open>C28. What main admits, the driver accepts: once the start checks pass, the device ID and URI with
  which the printer is created identify the configured model, so the identity checks of the driver
  callback reject the pair only for an explicit \<^verbatim>\<open>ptouch-bt://\<close> override that is malformed
  or set for a model without Bluetooth, which the start checks do not look at.\<close>

theorem started_identity_accepted:
  assumes "main E V arg sv = Some (Mainloop, sv')" "\<forall>a. bt_address V = Some a \<longrightarrow> CHR 0x00 \<notin> set a"
  shows "\<exists>model. pt_usb_supported_model (getenv V ''PTOUCH_MODEL'') = Some model
     \<and> driver_model (Some (configured_uri V model)) (Some (configured_id model)) =
        (if \<exists>u. override_uri V = Some u \<and> prefix_of ''ptouch-bt://'' u \<and> \<not> (pt_bt_is_uri (Some u) \<and> model = pt_p710bt)
         then None else Some model)"
proof -
  obtain model where m: "pt_usb_supported_model (getenv V ''PTOUCH_MODEL'') = Some model"
    using mainloop_conditions(2) [OF assms(1)] by blast
  show ?thesis using m identity_accepted [OF assms m] by blast
qed

definition fresh_install :: "srv_env" where
  \<comment> \<open>a fresh installation: no setting, no saved state\<close>
  "fresh_install = \<lparr>getenv = \<lambda>n. None, spool_directory = Some ''/s'', temp_dir = ''/tmp'', uid = 0, path_max = 4096,
     system_create = \<lambda>s. (True, s), load_state = \<lambda>p s. (Load_Failed ENOENT, s), find_printer = \<lambda>s. None,
     printer_create = \<lambda>d u s. (case pt_driver_cb bench \<lparr>idle_setting = None, mutex_inits = True, make_model_size = 128,
         pappl_max_media = 256\<rparr> (Some u) (Some d) None s of Some (Some _, s') \<Rightarrow> (True, s') | Some (None, s') \<Rightarrow> (False, s') | None \<Rightarrow> (False, s)),
     device_list = \<lambda>s. s, device_open = \<lambda>u h. Some None, reports = \<lambda>h. False\<rparr>"

lemma fresh_install_simps:
  "getenv fresh_install n = None" "bt_address fresh_install = None" "override_uri fresh_install = None" "spool_directory fresh_install = Some ''/s''"
  "path_max fresh_install = 4096" "system_create fresh_install s = (True, s)" "load_state fresh_install p s = (Load_Failed ENOENT, s)"
  "find_printer fresh_install s = None"
  by (simp_all add: fresh_install_def bt_address_def override_uri_def)

definition idle_server :: server where
  "idle_server = \<lparr>srv_sys = bench_sys\<lparr>printer := None\<rparr>, srv_calls = [], smoke_saw_error = False\<rparr>"

lemma fresh_install_main: "main bench fresh_install None idle_server = Some (Mainloop, idle_server)"
  by (simp add: main_def fresh_install_def bt_address_def override_uri_def pt_usb_supported_model_def lookup_supported pt_parse_idle_poll_def)

theorem started_identity_accepted_witness:
  "\<exists>model. driver_model (Some (configured_uri fresh_install model)) (Some (configured_id model)) = Some model"
  using started_identity_accepted [OF fresh_install_main] by (auto simp: fresh_install_def override_uri_def bt_address_def)

text \<open>C32. Past the start checks no callback of the server dereferences a null model: main itself
  returns in every setting, and when it enters PAPPL's main loop, the creation of the system and the
  probe return as well, as long as a restored printer has a device ID and a URI.\<close>

theorem start_defined:
  assumes "\<forall>s d u. find_printer V s = Some (d, u) \<longrightarrow> d \<noteq> None \<and> u \<noteq> None"
  shows "\<exists>r sv'. main E V arg sv = Some (r, sv') \<and>
    (r = Mainloop \<longrightarrow> returns (system_cb E V sv') (\<lambda>_ _. True) \<and> returns (probe_cb E V sv') (\<lambda>_ _. True))"
proof -
  have 1: "returns (main E V arg sv) (\<lambda>_ _. True)"
  proof (cases "pt_usb_supported_model (getenv V ''PTOUCH_MODEL'')")
    case (Some model)
    obtain parsed where p: "(case bt_address V of None \<Rightarrow> Some None | Some a \<Rightarrow> pt_parse_bt_address (Some a)) = Some parsed"
      using address_defined by (cases "bt_address V") auto
    show ?thesis using Some run_smoke_returns [OF Some] by (auto simp: main_def Let_def p)
  qed (simp add: main_def)
  then obtain r sv' where r: "main E V arg sv = Some (r, sv')" by (auto simp: returns_iff)
  have "returns (system_cb E V sv') (\<lambda>_ _. True) \<and> returns (probe_cb E V sv') (\<lambda>_ _. True)" if ml: "r = Mainloop"
  proof -
    obtain model where m: "pt_usb_supported_model (getenv V ''PTOUCH_MODEL'') = Some model"
      using mainloop_conditions(2) [OF r [unfolded ml]] by blast
    have t: "returns (take_printer V d u sw) (\<lambda>_ _. True)" for d u sw
    proof (cases "find_printer V (srv_sys sw)")
      case (Some q)
      obtain i v where q: "q = (i, v)" by (cases q)
      then obtain i' v' where "i = Some i'" "v = Some v'" using assms Some by blast
      then show ?thesis using Some q by (simp add: take_printer_def)
    qed (simp add: take_printer_def split: prod.split)
    have "returns (start_printer E V path sw) (\<lambda>_ _. True)" for path sw
      by (auto simp: start_printer_def Let_def m discover_returns split: prod.split intro!: returns_mono [OF t] split: option.split)
    then have "returns (system_cb E V sv') (\<lambda>_ _. True)"
      by (auto simp: system_cb_def Let_def split: prod.split)
    moreover have "returns (probe_cb E V sv') (\<lambda>_ _. True)"
      by (auto simp: probe_cb_def Let_def m pt_usb_present_def intro!: returns_count)
    ultimately show ?thesis by blast
  qed
  then show ?thesis using r by blast
qed

theorem start_defined_witness:
  "\<exists>r sv'. main bench fresh_install None idle_server = Some (r, sv') \<and> (r = Mainloop \<longrightarrow> returns (system_cb bench fresh_install sv') (\<lambda>_ _. True))"
  using start_defined [of fresh_install bench None idle_server] by (auto simp: fresh_install_def)

text \<open>C29. At most one printer is created, and with the configured identity. When the callback returns a
  system, one device scheme was registered, Bluetooth exactly when an address is set, before the state
  was loaded and any printer created; state is saved to and loaded from the same untruncated path. If
  the loaded state has a printer at the resource path of the queue, it has exactly the configured device ID and URI
  and none is created; if not, papplPrinterCreate was called once, with exactly these. The system is
  returned whether that call succeeded or not, so it may have no printer, and other printers of the
  state are not looked at. Discovery runs only for the default USB URI. When the callback fails after
  the system exists, the system is deleted and no printer was created.\<close>

theorem system_cb_one_identity:
  assumes "system_cb E V sv = Some (r, sv')" "srv_calls sv = []"
  defines "sch \<equiv> (if bt_address V \<noteq> None then Scheme_BT else Scheme_USB (pt_usb_supported_model (getenv V ''PTOUCH_MODEL'')))"
  defines "base \<equiv> [Sc_Load_State (state_path V), Sc_Set_Save (state_path V), Sc_Add_Filter, Sc_Set_Operation,
      Sc_Set_Drivers, Sc_Add_Scheme sch, Sc_System_Create (spool_directory V)]"
  defines "loaded \<equiv> snd (load_state V (state_path V) (snd (system_create V (srv_sys sv))))"
  shows "if r then \<exists>model made disc. pt_usb_supported_model (getenv V ''PTOUCH_MODEL'') = Some model
      \<and> srv_calls sv' = disc @ made @ base
      \<and> (made = [] \<and> find_printer V loaded = Some (Some (configured_id model), Some (configured_uri V model))
         \<or> find_printer V loaded = None \<and> made = [Sc_Printer_Create (configured_id model) (configured_uri V model)
              (fst (printer_create V (configured_id model) (configured_uri V model) loaded))])
      \<and> (if override_uri V = None \<and> bt_address V = None then disc = [Sc_Device_List] \<or> disc = [Sc_Offline, Sc_Device_List] else disc = [])
    else srv_calls sv' \<in> {[], [Sc_System_Create (spool_directory V)], Sc_Delete # base}"
proof (cases "path_max V \<le> length (state_path V)")
  case True
  then show ?thesis using assms(1,2) by (auto simp: system_cb_def)
next
  case False
  then have path: "snprintf (path_max V) (state_path V) = state_path V" by (simp add: snprintf_def)
  obtain ok s where os: "system_create V (srv_sys sv) = (ok, s)" by (cases "system_create V (srv_sys sv)")
  show ?thesis
  proof (cases ok)
    case True
    then have st: "start_printer E V (state_path V) (sv\<lparr>srv_sys := s, srv_calls := drop 2 base\<rparr>) = Some (r, sv')"
      using False assms(1,2)
      by (cases "bt_address V") (simp_all add: system_cb_def path os Let_def call_def base_def sch_def pt_usb_register_def)
    have b: "Sc_Load_State (state_path V) # Sc_Set_Save (state_path V)
        # srv_calls (sv\<lparr>srv_sys := s, srv_calls := drop 2 base\<rparr>) = base" by (simp add: base_def)
    have l: "snd (load_state V (state_path V) (srv_sys (sv\<lparr>srv_sys := s, srv_calls := drop 2 base\<rparr>))) = loaded"
      by (simp add: loaded_def os)
    show ?thesis using start_printer_calls [OF st] unfolding b l
      by (cases r) (simp_all only: if_True if_False insert_iff simp_thms)
  next
    case no: False
    then show ?thesis using False assms(1,2) by (auto simp: system_cb_def path os Let_def call_def)
  qed
qed

lemma fresh_install_system: "\<exists>sv'. system_cb bench fresh_install idle_server = Some (True, sv')"
proof -
  have m: "pt_usb_supported_model None = Some pt_2730" by (simp add: supported_model_iff)
  have t: "returns (take_printer fresh_install d u sw) (\<lambda>p _. p \<noteq> None)" for d u sw
    by (simp add: take_printer_def fresh_install_simps split: prod.split)
  have "\<exists>sv'. start_printer bench fresh_install p sv = Some (True, sv')" for p sv
  proof -
    have "returns (start_printer bench fresh_install p sv) (\<lambda>r _. r)"
      by (auto simp: start_printer_def Let_def m fresh_install_simps intro!: returns_mono [OF t] returns_mono [OF discover_returns])
    then show ?thesis by (auto simp: returns_iff)
  qed
  then show ?thesis by (simp add: system_cb_def Let_def fresh_install_simps state_path_def snprintf_def)
qed

theorem system_cb_one_identity_witness:
  "\<exists>sv'. system_cb bench fresh_install idle_server = Some (True, sv')
     \<and> Sc_Load_State ''/s/ptouch-app.state'' \<in> set (srv_calls sv')"
proof -
  obtain sv' where r: "system_cb bench fresh_install idle_server = Some (True, sv')" using fresh_install_system by blast
  have "Sc_Load_State (state_path fresh_install) \<in> set (srv_calls sv')"
    using system_cb_one_identity [OF r] by (auto simp: idle_server_def)
  then show ?thesis using r by (auto simp: state_path_def fresh_install_simps)
qed

text \<open>A smoke test that reports success has reached the device: exactly one device of the configured
  model is attached, it was opened, the two bytes of the init command and nothing else were written and
  flushed, the device counts at least two bytes on the wire, and no call reported an error.\<close>

theorem smoke_success_exact:
  assumes "run_smoke E V sv = Some (0, sv')" "\<not> smoke_saw_error sv"
  shows "\<exists>model n m h. pt_usb_supported_model (getenv V ''PTOUCH_MODEL'') = Some model
     \<and> pt_usb_count E (dev_vid model) (dev_pid model) (srv_sys sv) = Some (1, (srv_sys sv)\<lparr>trace := h\<rparr>)
     \<and> device_open V (usb_prefix @ dev_name model) h \<noteq> None
     \<and> trace (srv_sys sv') = [Ev_Close_Device, Ev_Metrics m, Ev_Flush, Ev_Write [0x1b, 0x40] n, Ev_Open_Device True] @ h
     \<and> 2 \<le> m \<and> (\<forall>k<5. k \<noteq> 1 \<longrightarrow> \<not> reports V (drop k (trace (srv_sys sv')))) \<and> \<not> smoke_saw_error sv'"
proof -
  obtain model where m: "pt_usb_supported_model (getenv V ''PTOUCH_MODEL'') = Some model"
    using assms by (auto simp: run_smoke_def bind_eq_Some_conv)
  note rows = supported_rows [OF m]
  obtain c s1 where c: "pt_usb_count E (dev_vid model) (dev_pid model) (srv_sys sv) = Some (c, s1)" "silent (srv_sys sv) s1"
    using usb_count_shape by blast
  have s1: "s1 = (srv_sys sv)\<lparr>trace := trace s1\<rparr>" using c(2) by (rule silent_state)
  have c1: "c = 1" and o: "device_open V (usb_prefix @ dev_name model) (trace s1) \<noteq> None"
    using assms by (auto simp: run_smoke_def Let_def m usb_uri [OF rows] on_sys_def c papplDeviceOpen_def answer_def
        split: if_splits option.splits)
  obtain k where k: "device_open V (usb_prefix @ dev_name model) (trace s1) = Some k" using o by blast
  let ?o = "Ev_Open_Device True # trace s1"
  have "\<exists>n m. trace (srv_sys sv') = Ev_Close_Device # Ev_Metrics m # Ev_Flush # Ev_Write [0x1b, 0x40] n # ?o \<and> 2 \<le> m
      \<and> \<not> reports V (trace (srv_sys sv')) \<and> \<not> reports V (Ev_Flush # Ev_Write [0x1b, 0x40] n # ?o)
      \<and> \<not> reports V (Ev_Write [0x1b, 0x40] n # ?o) \<and> \<not> reports V ?o \<and> \<not> smoke_saw_error sv'"
    using assms
    by (auto simp: run_smoke_def Let_def m usb_uri [OF rows] on_sys_def c c1 k papplDeviceOpen_def answer_def pappl_defs
        papplDeviceClose_def pt_cmd_init_def split: if_splits)
  then obtain n w where "trace (srv_sys sv') = Ev_Close_Device # Ev_Metrics w # Ev_Flush # Ev_Write [0x1b, 0x40] n # ?o"
      "2 \<le> w" "\<not> reports V (trace (srv_sys sv'))" "\<not> reports V (Ev_Flush # Ev_Write [0x1b, 0x40] n # ?o)"
      "\<not> reports V (Ev_Write [0x1b, 0x40] n # ?o)" "\<not> reports V ?o" "\<not> smoke_saw_error sv'" by blast
  then show ?thesis
    using m k c(1) [unfolded c1] s1
    by (intro exI [of _ model] exI [of _ n] exI [of _ w] exI [of _ "trace s1"]) (simp add: below_5)
qed

definition smoke_bench :: srv_env where
  "smoke_bench = fresh_install\<lparr>getenv := (\<lambda>n. if n = ''PTOUCH_MODEL'' then Some ''PT-P710BT'' else None)\<rparr>"

lemma smoke_bench_simps [simp]:
  "getenv smoke_bench = (\<lambda>n. if n = ''PTOUCH_MODEL'' then Some ''PT-P710BT'' else None)"
  "device_open smoke_bench u h = Some None" "reports smoke_bench h \<longleftrightarrow> False"
  by (simp_all add: smoke_bench_def fresh_install_def)

lemma smoke_bench_runs: "\<exists>sv'. run_smoke bench smoke_bench idle_server = Some (0, sv')"
proof -
  have m: "pt_usb_supported_model (Some ''PT-P710BT'') = Some pt_p710bt" by (simp add: supported_model_iff)
  have v: "dev_vid pt_p710bt = 0x04f9" "dev_pid pt_p710bt = 0x20af" by (simp_all add: pt_p710bt_def)
  show ?thesis
    by (simp add: run_smoke_def Let_def m v on_sys_def pt_usb_count_def libusb_defs answer_def usb_matches_def papplDeviceOpen_def
        papplDeviceClose_def pappl_defs pt_cmd_init_def idle_server_def bench_sys_def)
qed

theorem smoke_success_exact_witness:
  "\<exists>sv' m n h. run_smoke bench smoke_bench idle_server = Some (0, sv')
     \<and> trace (srv_sys sv') = [Ev_Close_Device, Ev_Metrics m, Ev_Flush, Ev_Write [0x1b, 0x40] n, Ev_Open_Device True] @ h"
proof -
  obtain sv' where r: "run_smoke bench smoke_bench idle_server = Some (0, sv')" using smoke_bench_runs by blast
  show ?thesis using smoke_success_exact [OF r] r by (auto simp: idle_server_def)
qed

definition pappl_creates :: "env \<Rightarrow> setup_env \<Rightarrow> srv_env \<Rightarrow> bool" where
  \<comment> \<open>papplPrinterCreate asks the driver callback, and makes the printer exactly when that agrees\<close>
  "pappl_creates E C V \<longleftrightarrow> (\<forall>d u s r s'. pt_driver_cb E C (Some u) (Some d) None s = Some (r, s')
     \<longrightarrow> printer_create V d u s = (r \<noteq> None, s'))"

text \<open>C26. A fresh start ends with a working printer. The conditions are those of an installation that works:
  the start checks passed, the path of the state file is shorter than \<open>PATH_MAX\<close>, PAPPL creates the system, no state is
  saved (the load fails with \<open>ENOENT\<close>) and no printer exists, PAPPL creates a printer exactly when the driver
  callback agrees, memory and mutex are available, the URI is no explicit Bluetooth one, the Bluetooth address
  is a C string, and listing devices leaves the driver's state alone. Then the
  callback returns the system with a printer for the configured model and identity whose run is closed.\<close>

theorem fresh_start_ready:
  assumes "main E V arg sv = Some (Mainloop, sv1)" "\<forall>a. bt_address V = Some a \<longrightarrow> CHR 0x00 \<notin> set a"
    and "\<forall>u. override_uri V = Some u \<longrightarrow> \<not> prefix_of ''ptouch-bt://'' u"
    and "length (state_path V) < path_max V" "\<forall>s. system_create V s = (True, s)"
    and "\<forall>p s. load_state V p s = (Load_Failed ENOENT, s)" "\<forall>s. find_printer V s = None"
    and "pappl_creates E C V" "\<forall>h. alloc_ok E h" "mutex_inits C" "idle_setting C = getenv V ''PTOUCH_IDLE_POLL_SECONDS''"
    and "\<forall>s. printer (device_list V s) = printer s"
  shows "\<exists>model seconds sv2. pt_usb_supported_model (getenv V ''PTOUCH_MODEL'') = Some model
     \<and> system_cb E V sv1 = Some (True, sv2) \<and> printer (srv_sys sv2) = Some (fresh_state model seconds)
     \<and> pt_run_get (srv_sys sv2) = PT_RUN_CLOSED
     \<and> Sc_Printer_Create (configured_id model) (configured_uri V model) True \<in> set (srv_calls sv2)"
proof -
  obtain model seconds where m: "pt_usb_supported_model (getenv V ''PTOUCH_MODEL'') = Some model"
      and sec: "pt_parse_idle_poll (idle_setting C) = Some seconds"
    using mainloop_conditions(2) [OF assms(1)] assms(11) by auto
  let ?d = "configured_id model" and ?u = "configured_uri V model"
  have dm: "driver_model (Some ?u) (Some ?d) = Some model"
    using identity_accepted [OF assms(1,2) m] assms(3) by auto
  have made: "\<exists>s'. take_printer V ?d ?u sw = Some (Some True, call (Sc_Printer_Create ?d ?u True) (sw\<lparr>srv_sys := s'\<rparr>))
      \<and> printer s' = Some (fresh_state model seconds)" for sw
  proof -
    obtain r s' where r: "pt_driver_cb E C (Some ?u) (Some ?d) None (srv_sys sw) = Some (Some r, s')"
        "printer s' = Some (fresh_state model seconds)"
      using driver_cb_run [OF dm sec] assms(9,10) by blast
    then have "printer_create V ?d ?u (srv_sys sw) = (Some r \<noteq> None, s')"
      using assms(8) unfolding pappl_creates_def by blast
    then show ?thesis using r(2) assms(7) by (intro exI [of _ s']) (simp add: take_printer_def)
  qed
  have "\<exists>sv2. start_printer E V (state_path V) sw = Some (True, sv2) \<and> printer (srv_sys sv2) = Some (fresh_state model seconds)
      \<and> Sc_Printer_Create ?d ?u True \<in> set (srv_calls sv2)" for sw
  proof -
    define sx where "sx = call (Sc_Load_State (state_path V)) (call (Sc_Set_Save (state_path V)) sw)"
    obtain s' where s': "take_printer V ?d ?u sx = Some (Some True, call (Sc_Printer_Create ?d ?u True) (sx\<lparr>srv_sys := s'\<rparr>))"
        "printer s' = Some (fresh_state model seconds)" using made by blast
    let ?sy = "call (Sc_Printer_Create ?d ?u True) (sx\<lparr>srv_sys := s'\<rparr>)"
    obtain sv2 where sv2: "discover E V model True ?sy = Some ((), sv2)" "printer (srv_sys sv2) = Some (fresh_state model seconds)"
      using discover_printer [OF assms(12), of E model True ?sy] s'(2) by auto
    show ?thesis
      using discover_calls [OF sv2(1)] sv2 s'
      by (auto simp: start_printer_def m Let_def assms(6) sx_def call_def)
  qed
  moreover have "\<exists>sw. system_cb E V sv1 = start_printer E V (state_path V) sw"
    using assms(4,5) by (auto simp: system_cb_def Let_def snprintf_def)
  ultimately obtain sv2 where "system_cb E V sv1 = Some (True, sv2)" "printer (srv_sys sv2) = Some (fresh_state model seconds)"
      "Sc_Printer_Create ?d ?u True \<in> set (srv_calls sv2)" by metis
  then show ?thesis using m by (auto simp: pt_run_get_def fresh_state_def)
qed

theorem fresh_start_ready_witness:
  "\<exists>model seconds sv2. system_cb bench fresh_install idle_server = Some (True, sv2)
     \<and> printer (srv_sys sv2) = Some (fresh_state model seconds)"
proof -
  let ?C = "\<lparr>idle_setting = None, mutex_inits = True, make_model_size = 128, pappl_max_media = 256\<rparr>"
  have c: "pappl_creates bench ?C fresh_install" by (auto simp: pappl_creates_def fresh_install_def split: option.split)
  show ?thesis
    using fresh_start_ready [OF fresh_install_main _ _ _ _ _ _ c]
    by (auto simp: fresh_install_def bt_address_def override_uri_def state_path_def)
qed

end
