(* ===== verification/Spike_Stub.thy ===== *)
theory Spike_Stub
  imports Driver_Setup
begin

unbundle bit_operations_syntax

text \<open>
  \<^verbatim>\<open>spikes/pappl_stub/stub.c\<close>, the throw-away printer application that found out how PAPPL delivers a
  page: its raster callbacks, which send the scanlines or the columns of the page, its status poll and
  its registration. \<open>None\<close> is an access outside a buffer. What is logged to \<^verbatim>\<open>stderr\<close> is left
  out, except for the dump of a scanline, which reads the line and formats into a fixed buffer.
\<close>

section \<open>State\<close>

record stub =
  g_print :: bool
  g_transpose :: bool
  g_height :: u32
  g_bpl :: u32
  g_width :: u32
  g_lines :: u32
  g_page :: "u8 list option"
  dumps :: "string list" \<comment> \<open>the scanlines logged\<close>
  sent :: "u8 list list" \<comment> \<open>the buffers given to papplDeviceWrite, whose result is ignored\<close>

record stub_header =
  \<comment> \<open>the members of the page header the callbacks use\<close>
  cupsWidth :: u32
  cupsHeight :: u32
  cupsBytesPerLine :: u32

definition emit :: "u8 list list \<Rightarrow> stub \<Rightarrow> stub" where
  "emit bufs s = s\<lparr>sent := sent s @ bufs\<rparr>"

section \<open>The raster callbacks\<close>

definition rstartjob_cb :: "stub \<Rightarrow> (bool \<times> stub) option" where
  "rstartjob_cb s = Some (True, s\<lparr>g_lines := 0\<rparr>)"

definition rstartpage_cb :: "bool \<Rightarrow> stub_header \<Rightarrow> stub \<Rightarrow> (bool \<times> stub) option" where
  \<comment> \<open>the first argument says whether calloc gives memory\<close>
  "rstartpage_cb mem h s =
    (let s = s\<lparr>g_height := cupsHeight h, g_bpl := cupsBytesPerLine h, g_width := cupsWidth h, g_lines := 0\<rparr>;
         s = (if g_print s then
                let s = emit [[0x1b, 0x40], [0x1b, 0x69, 0x52, 0x01]] s in
                if g_transpose s
                then s\<lparr>g_page := (if mem then Some (replicate ((if g_height s \<noteq> 0 then unat (g_height s) else 1)
                  * (if g_bpl s \<noteq> 0 then unat (g_bpl s) else 1)) 0) else None)\<rparr>
                else s
              else s)
     in Some (True, s))"

definition fmt_02x :: "u8 \<Rightarrow> string" where
  "fmt_02x w = [hex_char (unat w div 16), hex_char (unat w mod 16)]"

fun dump_line :: "string \<Rightarrow> u8 list \<Rightarrow> string" where
  \<comment> \<open>the loop of \<^verbatim>\<open>snprintf\<close> calls into \<open>char hex[64]\<close>\<close>
  "dump_line hex [] = hex"
| "dump_line hex (b # bs) = dump_line (hex @ snprintf (64 - length hex) (fmt_02x b @ '' '')) bs"

definition dumped :: "stub \<Rightarrow> u32 \<Rightarrow> bool" where
  "dumped s y \<longleftrightarrow> y = 0 \<or> (g_height s \<noteq> 0 \<and> y = g_height s div 2) \<or> (g_height s \<noteq> 0 \<and> y = g_height s - 1)"

definition dump :: "u32 \<Rightarrow> u8 list \<Rightarrow> stub \<Rightarrow> stub option" where
  "dump y l s =
    (if dumped s y then
       let n = (if g_bpl s < 12 then unat (g_bpl s) else 12) in
       if length l < n then None else Some (s\<lparr>dumps := dumps s @ [dump_line [] (take n l)]\<rparr>)
     else Some s)"

definition rwriteline_cb :: "u32 \<Rightarrow> u8 list \<Rightarrow> stub \<Rightarrow> (bool \<times> stub) option" where
  "rwriteline_cb y l s = do {
     s \<leftarrow> dump y l (s\<lparr>g_lines := g_lines s + 1\<rparr>);
     if \<not> g_print s then Some (True, s)
     else (case (g_transpose s, g_page s) of
       (True, Some page) \<Rightarrow>
         if length l < unat (g_bpl s) then None
         else do {
           page \<leftarrow> blit page (unat y * unat (g_bpl s)) (take (unat (g_bpl s)) l);
           Some (True, s\<lparr>g_page := Some page\<rparr>)
         }
     | (True, None) \<Rightarrow> Some (True, s)
     | (False, _) \<Rightarrow>
         let n = (if g_bpl s < 16 then unat (g_bpl s) else 16) in
         if length l < n then None
         else do {
           rl \<leftarrow> blit (replicate 16 0) 0 (take n l);
           Some (True, emit [[0x47, 0x10, 0x00], rl] s)
         })
   }"

fun column_rows :: "u8 list \<Rightarrow> nat \<Rightarrow> nat \<Rightarrow> nat list \<Rightarrow> u8 list \<Rightarrow> u8 list option" where
  \<comment> \<open>the inner loop of \<^verbatim>\<open>rendpage_cb\<close>: column \<open>c\<close> of the given rows\<close>
  "column_rows page bpl c [] rl = Some rl"
| "column_rows page bpl c (r # rs) rl =
    (let i = r * bpl + c div 8 in
     if length page \<le> i then None
     else column_rows page bpl c rs
       (if drop_bit (7 - c mod 8) (page ! i) AND 1 \<noteq> 0
        then rl[r div 8 := rl ! (r div 8) OR push_bit (7 - r mod 8) 1] else rl))"

fun send_columns :: "u8 list \<Rightarrow> nat list \<Rightarrow> stub \<Rightarrow> stub option" where
  "send_columns page [] s = Some s"
| "send_columns page (c # cs) s = do {
     rl \<leftarrow> column_rows page (unat (g_bpl s)) c [0..<min (unat (g_height s)) 128] (replicate 16 0);
     send_columns page cs (emit [[0x47, 0x10, 0x00], rl] s)
   }"

definition rendpage_cb :: "stub \<Rightarrow> (bool \<times> stub) option" where
  "rendpage_cb s =
    (if \<not> g_print s then Some (True, s)
     else do {
       s \<leftarrow> (case (g_transpose s, g_page s) of
         (True, Some page) \<Rightarrow> do {
           let cols = g_bpl s * 8;
           s \<leftarrow> send_columns page [0..<min (unat cols) (unat (g_width s))] s;
           Some (s\<lparr>g_page := None\<rparr>)
         }
       | _ \<Rightarrow> Some s);
       Some (True, emit [[0x0c]] s)
     })"

definition rendjob_cb :: "stub \<Rightarrow> (bool \<times> stub) option" where
  "rendjob_cb s = Some (True, s)"

section \<open>Status and registration\<close>

definition stub_status_cb :: "u8 list option \<Rightarrow> stub \<Rightarrow> (bool \<times> (u8 \<times> u8 \<times> u8)) \<times> stub" where
  \<comment> \<open>the argument is what an opened device answers, at most 32 bytes; the result is the returned
     value and the bytes that are logged: tape width and both error bytes\<close>
  "stub_status_cb reply s = (case reply of
     None \<Rightarrow> ((False, (0, 0, 0)), s)
   | Some data \<Rightarrow>
       let n = length data; buf = data @ replicate (32 - n) 0 in
       ((True, (if n > 10 then buf ! 10 else 0, if n > 9 then buf ! 8 else 0, if n > 9 then buf ! 9 else 0)),
        emit [[0x1b, 0x69, 0x53]] s))"

definition stub_autoadd_cb :: "string option \<Rightarrow> string option \<Rightarrow> string option \<Rightarrow> string option" where
  "stub_autoadd_cb info uri devid =
    (let has = (\<lambda>str p. case str of None \<Rightarrow> False | Some t \<Rightarrow> strstr t p \<noteq> None) in
     if has devid ''PT-2730'' \<or> has devid ''Brother'' \<or> has info ''PT-2730'' \<or> has uri ''Brother''
     then Some ''brother_ptouch_spike'' else None)"

record stub_data =
  \<comment> \<open>the members of the driver data that \<^verbatim>\<open>driver_cb\<close> sets\<close>
  sd_startjob :: "stub \<Rightarrow> (bool \<times> stub) option"
  sd_startpage :: "bool \<Rightarrow> stub_header \<Rightarrow> stub \<Rightarrow> (bool \<times> stub) option"
  sd_writeline :: "u32 \<Rightarrow> u8 list \<Rightarrow> stub \<Rightarrow> (bool \<times> stub) option"
  sd_endpage :: "stub \<Rightarrow> (bool \<times> stub) option"
  sd_endjob :: "stub \<Rightarrow> (bool \<times> stub) option"
  sd_status :: "u8 list option \<Rightarrow> stub \<Rightarrow> (bool \<times> (u8 \<times> u8 \<times> u8)) \<times> stub"
  sd_make_and_model :: string
  sd_ppm :: int
  sd_kind :: label_kind
  sd_color_supported :: "color_mode set"
  sd_color_default :: color_mode
  sd_raster_types :: "raster_type set"
  sd_force_raster_type :: raster_type
  sd_finishings :: "finishing_bit set"
  sd_resolutions :: "(int \<times> int) list"
  sd_defaults :: "int \<times> int"
  sd_left_right :: int
  sd_bottom_top :: int
  sd_media :: "string list"
  sd_sources :: "string list"
  sd_types :: "string list"
  sd_media_default :: media_col
  sd_media_ready :: "media_col list"

definition stub_media :: media_col where
  "stub_media = zero_media\<lparr>size_width := 1200, size_length := 10000, size_name := ''om_12mm-tape_12x100mm'',
     media_source := ''main-roll'', media_type := ''labels'', tracking_continuous := True\<rparr>"

definition stub_driver_cb :: stub_data where
  "stub_driver_cb = \<lparr>sd_startjob = rstartjob_cb, sd_startpage = rstartpage_cb, sd_writeline = rwriteline_cb,
     sd_endpage = rendpage_cb, sd_endjob = rendjob_cb, sd_status = stub_status_cb,
     sd_make_and_model = ''Brother PT-2730 (spike)'', sd_ppm = 20, sd_kind = KIND_LABEL,
     sd_color_supported = {COLOR_BI_LEVEL, COLOR_MONOCHROME}, sd_color_default = COLOR_MONOCHROME,
     sd_raster_types = {RASTER_BLACK_1, RASTER_BLACK_8}, sd_force_raster_type = RASTER_BLACK_1,
     sd_finishings = {FINISHING_TRIM}, sd_resolutions = [(180, 180)], sd_defaults = (180, 180),
     sd_left_right = 0, sd_bottom_top = 0, sd_media = [''om_12mm-tape_12x100mm''], sd_sources = [''main-roll''],
     sd_types = [''labels''], sd_media_default = stub_media, sd_media_ready = [stub_media]\<rparr>"

datatype stub_call = St_System_Create | St_Add_Listeners | St_Set_Drivers | St_Printer_Create string

definition stub_system_cb :: "bool \<Rightarrow> bool \<times> stub_call list" where
  \<comment> \<open>whether papplSystemCreate succeeds; the result pointer is not null, and the calls made. The result
     of papplPrinterCreate is only logged\<close>
  "stub_system_cb created =
    (if \<not> created then (False, [St_System_Create])
     else (True, [St_System_Create, St_Add_Listeners, St_Set_Drivers, St_Printer_Create ''socket://127.0.0.1:9100'']))"

definition stub_main :: "(string \<Rightarrow> string option) \<Rightarrow> stub" where
  \<comment> \<open>the globals with which papplMainloop is entered\<close>
  "stub_main getenv1 = \<lparr>g_print = (getenv1 ''STUB_PRINT'' \<noteq> None), g_transpose = (getenv1 ''STUB_TRANSPOSE'' \<noteq> None),
     g_height = 0, g_bpl = 0, g_width = 0, g_lines = 0, g_page = None, dumps = [], sent = []\<rparr>"

section \<open>A page\<close>

fun stub_lines :: "nat \<Rightarrow> u8 list list \<Rightarrow> stub \<Rightarrow> stub option" where
  "stub_lines y [] s = Some s"
| "stub_lines y (l # ls) s = do { (_, s) \<leftarrow> rwriteline_cb (word_of_nat y) l s; stub_lines (Suc y) ls s }"

definition stub_page :: "bool \<Rightarrow> stub_header \<Rightarrow> u8 list list \<Rightarrow> stub \<Rightarrow> stub option" where
  \<comment> \<open>PAPPL's callbacks of one page; the first argument says whether calloc gives the page buffer\<close>
  "stub_page mem h ls s = do {
     (_, s) \<leftarrow> rstartpage_cb mem h s;
     s \<leftarrow> stub_lines 0 ls s;
     (_, s) \<leftarrow> rendpage_cb s;
     Some s
   }"

definition whole_scan :: "stub_header \<Rightarrow> u8 list list \<Rightarrow> bool" where
  \<comment> \<open>PAPPL delivers as many lines of as many bytes as the header says\<close>
  "whole_scan h ls \<longleftrightarrow> length ls = unat (cupsHeight h) \<and> (\<forall>l\<in>set ls. length l = unat (cupsBytesPerLine h))"

lemma dump_line_text:
  "length hex + 3 * length l < 64 \<Longrightarrow> dump_line hex l = hex @ concat (map (\<lambda>b. fmt_02x b @ '' '') l)"
  by (induction l arbitrary: hex) (simp_all add: snprintf_fits fmt_02x_def)

lemma dump_result:
  assumes "unat (g_bpl s) \<le> length l"
  obtains d where "dump y l s = Some (s\<lparr>dumps := d\<rparr>)"
    "d = (if dumped s y then dumps s @ [concat (map (\<lambda>b. fmt_02x b @ '' '') (take (min (unat (g_bpl s)) 12) l))] else dumps s)"
proof -
  have n: "(if g_bpl s < 12 then unat (g_bpl s) else 12) = min (unat (g_bpl s)) 12"
    by (simp add: word_less_nat_alt min_def)
  have "dump_line [] (take (min (unat (g_bpl s)) 12) l) = concat (map (\<lambda>b. fmt_02x b @ '' '') (take (min (unat (g_bpl s)) 12) l))"
    by (subst dump_line_text) simp_all
  with assms that show thesis by (auto simp: dump_def n Let_def min_def)
qed

lemma scan_dot_set:
  assumes "length rl = 16" "p < 128" "q < 128"
  shows "scan_dot (rl[p div 8 := rl ! (p div 8) OR push_bit (7 - p mod 8) 1]) q \<longleftrightarrow> scan_dot rl q \<or> q = p"
proof -
  have p: "p div 8 < 16" "q div 8 < 16" using assms by auto
  have m: "p mod 8 < 8" "q mod 8 < 8" by simp_all
  then have "bit (push_bit (7 - p mod 8) 1 :: u8) (7 - q mod 8) \<longleftrightarrow> 7 - p mod 8 = 7 - q mod 8"
    by (auto simp: bit_simps)
  then have bit: "bit (push_bit (7 - p mod 8) 1 :: u8) (7 - q mod 8) \<longleftrightarrow> p mod 8 = q mod 8"
    using m by linarith
  have "q = p \<longleftrightarrow> p div 8 = q div 8 \<and> p mod 8 = q mod 8" by (metis div_mult_mod_eq)
  then show ?thesis
    using assms p bit by (auto simp: scan_dot_def nth_list_update bit_or_iff)
qed

lemma column_rows_result:
  assumes "\<forall>r\<in>set rs. r < 128 \<and> r * bpl + c div 8 < length page" "length rl = 16"
  shows "\<exists>rl'. column_rows page bpl c rs rl = Some rl' \<and> length rl' = 16
    \<and> (\<forall>q<128. scan_dot rl' q \<longleftrightarrow> scan_dot rl q \<or> (q \<in> set rs \<and> bit (page ! (q * bpl + c div 8)) (7 - c mod 8)))"
  using assms
proof (induction rs arbitrary: rl)
  case (Cons r rs)
  let ?on = "bit (page ! (r * bpl + c div 8)) (7 - c mod 8)"
  let ?rl = "if ?on then rl[r div 8 := rl ! (r div 8) OR push_bit (7 - r mod 8) 1] else rl"
  have r: "r < 128" "r * bpl + c div 8 < length page" "length ?rl = 16" using Cons.prems by auto
  obtain rl' where rl': "column_rows page bpl c rs ?rl = Some rl'" "length rl' = 16"
    "\<forall>q<128. scan_dot rl' q \<longleftrightarrow> scan_dot ?rl q \<or> (q \<in> set rs \<and> bit (page ! (q * bpl + c div 8)) (7 - c mod 8))"
    using Cons.IH [OF _ r(3)] Cons.prems(1) by auto
  have "scan_dot ?rl q \<longleftrightarrow> scan_dot rl q \<or> (q = r \<and> ?on)" if "q < 128" for q
    using scan_dot_set [OF Cons.prems(2) r(1) that] by auto
  moreover have "column_rows page bpl c (r # rs) rl = Some rl'"
    using r(2) rl'(1) by (simp add: scan_test Let_def)
  ultimately show ?case using rl'(2,3) by auto
qed simp

lemma send_columns_result:
  assumes "\<forall>c\<in>set cs. c div 8 < unat (g_bpl s)" "unat (g_height s) * unat (g_bpl s) \<le> length page"
  shows "\<exists>cols. send_columns page cs s = Some (emit (concat (map (\<lambda>rl. [[0x47, 0x10, 0x00], rl]) cols)) s)
    \<and> length cols = length cs \<and> (\<forall>i<length cs. length (cols ! i) = 16 \<and> (\<forall>r<128. scan_dot (cols ! i) r \<longleftrightarrow>
        r < unat (g_height s) \<and> bit (page ! (r * unat (g_bpl s) + cs ! i div 8)) (7 - cs ! i mod 8)))"
  using assms
proof (induction cs arbitrary: s)
  case Nil
  then show ?case by (simp add: emit_def)
next
  case (Cons c cs)
  let ?h = "unat (g_height s)" and ?bpl = "unat (g_bpl s)"
  have "r * ?bpl + c div 8 < length page" if "r < ?h" for r
  proof -
    have "r * ?bpl + c div 8 < Suc r * ?bpl" using Cons.prems(1) by simp
    also have "\<dots> \<le> ?h * ?bpl" using that by (intro mult_le_mono1) simp
    finally show ?thesis using Cons.prems(2) by simp
  qed
  then obtain rl where rl: "column_rows page ?bpl c [0..<min ?h 128] (replicate 16 0) = Some rl" "length rl = 16"
    "\<forall>q<128. scan_dot rl q \<longleftrightarrow> q < ?h \<and> bit (page ! (q * ?bpl + c div 8)) (7 - c mod 8)"
    using column_rows_result [of "[0..<min ?h 128]" ?bpl c page "replicate 16 0"] by (auto simp: scan_dot_def)
  let ?s = "emit [[0x47, 0x10, 0x00], rl] s"
  have same: "g_bpl ?s = g_bpl s" "g_height ?s = g_height s" by (simp_all add: emit_def)
  obtain cols where "send_columns page cs ?s = Some (emit (concat (map (\<lambda>rl. [[0x47, 0x10, 0x00], rl]) cols)) ?s)"
    "length cols = length cs" "\<forall>i<length cs. length (cols ! i) = 16 \<and> (\<forall>r<128. scan_dot (cols ! i) r \<longleftrightarrow>
        r < ?h \<and> bit (page ! (r * ?bpl + cs ! i div 8)) (7 - cs ! i mod 8))"
    using Cons.IH [of ?s] Cons.prems by (auto simp: same)
  then show ?case
    using rl by (intro exI [of _ "rl # cols"]) (auto simp: emit_def nth_Cons' less_Suc_eq_0_disj)
qed

definition same_setup :: "stub \<Rightarrow> stub \<Rightarrow> bool" where
  "same_setup s s' \<longleftrightarrow> g_print s' = g_print s \<and> g_transpose s' = g_transpose s \<and> g_height s' = g_height s
     \<and> g_bpl s' = g_bpl s \<and> g_width s' = g_width s"

lemma keep_line:
  assumes "g_print s" "g_transpose s" "g_page s = Some page" "length l = unat (g_bpl s)"
    and "unat y * unat (g_bpl s) + unat (g_bpl s) \<le> length page"
  obtains s' page' where "rwriteline_cb y l s = Some (True, s')" "same_setup s s'" "sent s' = sent s" "g_page s' = Some page'"
    "length page' = length page"
    "\<forall>i<length page. page' ! i = (if unat y * unat (g_bpl s) \<le> i \<and> i < unat y * unat (g_bpl s) + unat (g_bpl s)
       then l ! (i - unat y * unat (g_bpl s)) else page ! i)"
proof -
  let ?s = "s\<lparr>g_lines := g_lines s + 1\<rparr>"
  obtain d where d: "dump y l ?s = Some (?s\<lparr>dumps := d\<rparr>)"
    by (rule dump_result [of ?s l y]) (use assms(4) in auto)
  obtain page' where b: "blit page (unat y * unat (g_bpl s)) l = Some page'"
    using assms(4,5) by (simp add: blit_def)
  have "rwriteline_cb y l s = Some (True, ?s\<lparr>dumps := d, g_page := Some page'\<rparr>)"
    using assms d b by (simp add: rwriteline_cb_def)
  then show thesis
    using blit_length [OF b] blit_nth [OF b] assms(4)
    by (intro that [of "?s\<lparr>dumps := d, g_page := Some page'\<rparr>" page']) (simp_all add: same_setup_def)
qed

lemma keep_lines:
  assumes "g_print s" "g_transpose s" "g_page s = Some page" "\<forall>l\<in>set ls. length l = unat (g_bpl s)"
    and "k + length ls \<le> unat (g_height s)" "unat (g_height s) * unat (g_bpl s) \<le> length page"
  shows "\<exists>s' page'. stub_lines k ls s = Some s' \<and> same_setup s s' \<and> sent s' = sent s \<and> g_page s' = Some page'
    \<and> length page' = length page
    \<and> (\<forall>i<length ls. \<forall>j<unat (g_bpl s). page' ! ((k + i) * unat (g_bpl s) + j) = ls ! i ! j)
    \<and> (\<forall>i<k * unat (g_bpl s). page' ! i = page ! i)"
  using assms
proof (induction ls arbitrary: k s page)
  case Nil
  then show ?case by (simp add: same_setup_def)
next
  case (Cons l ls)
  let ?bpl = "unat (g_bpl s)"
  have "unat (g_height s) < 2 ^ LENGTH(32)" by (rule unsigned_less)
  then have "k < 2 ^ 32" using Cons.prems(5) by simp
  then have k: "unat (word_of_nat k :: u32) = k" by (simp add: unat_of_nat take_bit_eq_mod)
  have "Suc k * ?bpl \<le> unat (g_height s) * ?bpl" using Cons.prems(5) by (intro mult_le_mono1) simp
  then have fit: "k * ?bpl + ?bpl \<le> length page" using Cons.prems(6) by simp
  obtain s1 page1 where s1: "rwriteline_cb (word_of_nat k) l s = Some (True, s1)" "same_setup s s1" "sent s1 = sent s"
    "g_page s1 = Some page1" "length page1 = length page"
    "\<forall>i<length page. page1 ! i = (if k * ?bpl \<le> i \<and> i < k * ?bpl + ?bpl then l ! (i - k * ?bpl) else page ! i)"
    by (rule keep_line [of s page l "word_of_nat k"]) (use Cons.prems fit k in auto)
  obtain s' page' where s': "stub_lines (Suc k) ls s1 = Some s'" "same_setup s1 s'" "sent s' = sent s1" "g_page s' = Some page'"
    "length page' = length page1"
    "\<forall>i<length ls. \<forall>j<?bpl. page' ! ((Suc k + i) * ?bpl + j) = ls ! i ! j"
    "\<forall>i<Suc k * ?bpl. page' ! i = page1 ! i"
    using Cons.IH [of s1 page1 "Suc k"] Cons.prems s1 by (auto simp: same_setup_def)
  have first: "page' ! (k * ?bpl + j) = l ! j" if "j < ?bpl" for j
    using s'(7) s1(6) that fit by auto
  have "page' ! ((k + i) * ?bpl + j) = (l # ls) ! i ! j" if "i < length (l # ls)" "j < ?bpl" for i j
  proof (cases i)
    case 0
    then show ?thesis using first [OF that(2)] by simp
  next
    case (Suc i')
    then show ?thesis using s'(6) that by auto
  qed
  moreover have "page' ! i = page ! i" if "i < k * ?bpl" for i
    using s'(7) s1(6) that fit by auto
  ultimately show ?case
    using s1 s' by (intro exI [of _ s'] exI [of _ page']) (simp add: same_setup_def)
qed

lemma send_lines:
  assumes "g_print s" "\<not> g_transpose s" "\<forall>l\<in>set ls. length l = unat (g_bpl s)"
  shows "\<exists>s'. stub_lines k ls s = Some s' \<and> same_setup s s' \<and> g_page s' = g_page s
    \<and> sent s' = sent s @ concat (map (\<lambda>l. [[0x47, 0x10, 0x00], take 16 (l @ replicate 16 0)]) ls)"
  using assms
proof (induction ls arbitrary: k s)
  case Nil
  then show ?case by (simp add: same_setup_def)
next
  case (Cons l ls)
  let ?s = "s\<lparr>g_lines := g_lines s + 1\<rparr>" and ?rl = "take 16 (l @ replicate 16 0)"
  obtain d where d: "dump (word_of_nat k) l ?s = Some (?s\<lparr>dumps := d\<rparr>)"
    by (rule dump_result [of ?s l "word_of_nat k"]) (use Cons.prems(3) in auto)
  have s1: "rwriteline_cb (word_of_nat k) l s = Some (True, emit [[0x47, 0x10, 0x00], ?rl] (?s\<lparr>dumps := d\<rparr>))"
  proof (cases "g_bpl s < 16")
    case True
    then have "unat (g_bpl s) < 16" by (simp add: word_less_nat_alt)
    then have "blit (replicate 16 0) 0 l = Some ?rl" "\<not> 16 < unat (g_bpl s)"
      using Cons.prems(3) by (simp_all add: blit_def)
    then show ?thesis using Cons.prems d True by (simp add: rwriteline_cb_def Let_def del: take_append)
  next
    case False
    then have "16 \<le> length l" using Cons.prems(3) by (simp add: word_less_nat_alt)
    then have "blit (replicate 16 0) 0 (take 16 l) = Some ?rl" by (simp add: blit_def)
    then show ?thesis using Cons.prems d False \<open>16 \<le> length l\<close> by (simp add: rwriteline_cb_def Let_def del: take_append)
  qed
  from Cons.IH [of "emit [[0x47, 0x10, 0x00], ?rl] (?s\<lparr>dumps := d\<rparr>)" "Suc k"] Cons.prems s1 show ?case
    by (auto simp: emit_def same_setup_def)
qed

lemma skip_lines:
  assumes "\<not> g_print s \<or> g_transpose s \<and> g_page s = None" "\<forall>l\<in>set ls. length l = unat (g_bpl s)"
  shows "\<exists>s'. stub_lines k ls s = Some s' \<and> same_setup s s' \<and> g_page s' = g_page s \<and> sent s' = sent s"
  using assms
proof (induction ls arbitrary: k s)
  case Nil
  then show ?case by (simp add: same_setup_def)
next
  case (Cons l ls)
  let ?s = "s\<lparr>g_lines := g_lines s + 1\<rparr>"
  obtain d where d: "dump (word_of_nat k) l ?s = Some (?s\<lparr>dumps := d\<rparr>)"
    by (rule dump_result [of ?s l "word_of_nat k"]) (use Cons.prems(2) in auto)
  have "rwriteline_cb (word_of_nat k) l s = Some (True, ?s\<lparr>dumps := d\<rparr>)"
    using Cons.prems(1) d by (auto simp: rwriteline_cb_def split: bool.split option.split)
  with Cons.IH [of "?s\<lparr>dumps := d\<rparr>" "Suc k"] Cons.prems show ?case
    by (auto simp: same_setup_def)
qed

section \<open>Properties\<close>

definition framed :: "u8 list list \<Rightarrow> u8 list list" where
  \<comment> \<open>raster lines between the page's first and last buffers\<close>
  "framed lines = [[0x1b, 0x40], [0x1b, 0x69, 0x52, 0x01]] @ concat (map (\<lambda>rl. [[0x47, 0x10, 0x00], rl]) lines) @ [[0x0c]]"

lemma framed_program:
  "list_all (\<lambda>rl. length rl = 16) lines \<Longrightarrow>
   concat (framed lines) = concat (map (encode_cmd False) ([Init, Raster_Start False] @ map Raster_Line lines @ [Form_Feed]))"
proof -
  have "concat (concat (map (\<lambda>rl. [[0x47, 0x10, 0x00], rl]) lines)) = concat (map (encode_cmd False \<circ> Raster_Line) lines)"
    if "list_all (\<lambda>rl. length rl = 16) lines" for lines :: "u8 list list"
    using that by (induction lines) (simp_all add: cmd_defs)
  then show "list_all (\<lambda>rl. length rl = 16) lines \<Longrightarrow> ?thesis"
    by (simp add: framed_def cmd_defs FLAG_P700_INIT_def)
qed

lemma transposed_page:
  assumes "g_print s" "g_transpose s" "whole_scan h ls"
    and "unat (cupsWidth h) \<le> 8 * unat (cupsBytesPerLine h)" "8 * unat (cupsBytesPerLine h) < 2 ^ 32"
  shows "\<exists>s' cols. stub_page True h ls s = Some s' \<and> g_page s' = None \<and> sent s' = sent s @ framed cols
    \<and> concat (framed cols) = concat (map (encode_cmd False) ([Init, Raster_Start False] @ map Raster_Line cols @ [Form_Feed]))
    \<and> length cols = unat (cupsWidth h)
    \<and> (\<forall>c<unat (cupsWidth h). \<forall>r<128. scan_dot (cols ! c) r \<longleftrightarrow> r < unat (cupsHeight h) \<and> scan_dot (ls ! r) c)"
proof -
  let ?h = "unat (cupsHeight h)" and ?bpl = "unat (cupsBytesPerLine h)" and ?w = "unat (cupsWidth h)"
  obtain s1 page where st: "rstartpage_cb True h s = Some (True, s1)" "g_print s1" "g_transpose s1" "g_page s1 = Some page"
    "g_height s1 = cupsHeight h" "g_bpl s1 = cupsBytesPerLine h" "g_width s1 = cupsWidth h"
    "?h * ?bpl \<le> length page" "sent s1 = sent s @ [[0x1b, 0x40], [0x1b, 0x69, 0x52, 0x01]]"
    using assms(1,2) by (auto simp: rstartpage_cb_def emit_def Let_def)
  obtain s2 page' where ln: "stub_lines 0 ls s1 = Some s2" "same_setup s1 s2" "sent s2 = sent s1" "g_page s2 = Some page'"
    "length page' = length page" "\<forall>i<?h. \<forall>j<?bpl. page' ! (i * ?bpl + j) = ls ! i ! j"
    using keep_lines [OF st(2,3,4), of ls 0] assms(3) st(5,6,8) by (auto simp: whole_scan_def)
  have cols_ok: "\<forall>c\<in>set [0..<?w]. c div 8 < unat (g_bpl s2)" "unat (g_height s2) * unat (g_bpl s2) \<le> length page'"
    using assms(4) ln st by (auto simp: same_setup_def)
  obtain cols where cs: "send_columns page' [0..<?w] s2 = Some (emit (concat (map (\<lambda>rl. [[0x47, 0x10, 0x00], rl]) cols)) s2)"
    "length cols = ?w" "\<forall>c<?w. length (cols ! c) = 16 \<and> (\<forall>r<128. scan_dot (cols ! c) r \<longleftrightarrow>
        r < ?h \<and> bit (page' ! (r * ?bpl + c div 8)) (7 - c mod 8))"
    using send_columns_result [OF cols_ok] ln(2) st(5,6) by (auto simp: same_setup_def)
  have wrap: "unat (g_bpl s2 * 8) = 8 * ?bpl"
    using ln(2) st(6) assms(5) by (simp add: same_setup_def unat_word_ariths)
  have en: "rendpage_cb s2 = Some (True, emit [[0x0c]] ((emit (concat (map (\<lambda>rl. [[0x47, 0x10, 0x00], rl]) cols)) s2)\<lparr>g_page := None\<rparr>))"
    using ln(2,4) st(2,3,7) cs(1) wrap assms(4) by (simp add: rendpage_cb_def same_setup_def min_def)
  have "scan_dot (cols ! c) r \<longleftrightarrow> r < ?h \<and> scan_dot (ls ! r) c" if "c < ?w" "r < 128" for c r
  proof -
    have "c div 8 < ?bpl" using that(1) assms(4) by simp
    then show ?thesis using cs(3) ln(6) that by (auto simp: scan_dot_def)
  qed
  moreover have "list_all (\<lambda>rl. length rl = 16) cols" using cs(2,3) by (auto simp: list_all_length)
  ultimately show ?thesis
    using st(1,9) ln(1,3) en cs(2) framed_program [of cols]
    by (intro exI [of _ "emit [[0x0c]] ((emit (concat (map (\<lambda>rl. [[0x47, 0x10, 0x00], rl]) cols)) s2)\<lparr>g_page := None\<rparr>)"] exI [of _ cols])
      (auto simp: stub_page_def emit_def framed_def)
qed

lemma silent_page:
  assumes "whole_scan h ls" "\<not> g_print s \<or> g_transpose s \<and> \<not> mem"
  shows "\<exists>s'. stub_page mem h ls s = Some s' \<and> sent s' = sent s @ (if g_print s then framed [] else [])"
proof -
  obtain s1 where st: "rstartpage_cb mem h s = Some (True, s1)" "g_print s1 = g_print s" "g_bpl s1 = cupsBytesPerLine h"
    "\<not> g_print s1 \<or> g_transpose s1 \<and> g_page s1 = None"
    "sent s1 = sent s @ (if g_print s then [[0x1b, 0x40], [0x1b, 0x69, 0x52, 0x01]] else [])"
    using assms(2) by (auto simp: rstartpage_cb_def emit_def Let_def)
  obtain s2 where ln: "stub_lines 0 ls s1 = Some s2" "same_setup s1 s2" "g_page s2 = g_page s1" "sent s2 = sent s1"
    using skip_lines [OF st(4), of ls 0] assms(1) st(3) by (auto simp: whole_scan_def)
  show ?thesis
  proof (cases "g_print s")
    case True
    then have "rendpage_cb s2 = Some (True, emit [[0x0c]] s2)"
      using ln(2,3) st(2,4) by (simp add: rendpage_cb_def same_setup_def)
    then show ?thesis using st(1,5) ln(1,4) True by (simp add: stub_page_def emit_def framed_def)
  next
    case False
    then have "rendpage_cb s2 = Some (True, s2)" using ln(2) st(2) by (simp add: rendpage_cb_def same_setup_def)
    then show ?thesis using st(1,5) ln(1,4) False by (simp add: stub_page_def)
  qed
qed

text \<open>C33. With STUB_PRINT and STUB_TRANSPOSE set the spike prints the transposed page: for a page of as many lines and
  bytes as its header says, which is no wider than its lines (eight times the bytes per line, without
  wrap-around of the 32-bit count of columns), and when calloc gives the page buffer, the callbacks never
  leave that buffer or the raster line, one raster line is sent per pixel column, and dot \<open>r\<close> of
  line \<open>c\<close> is pixel \<open>c\<close> of scanline \<open>r\<close>, up to the 128 dots of the head; the page buffer is given
  back, and the bytes are those of the driver's commands. When calloc fails the page is empty: the two commands
  of its start and the form feed. Without STUB_PRINT nothing is sent.\<close>

theorem stub_transposes:
  assumes "g_transpose s" "whole_scan h ls"
  shows "(g_print s \<and> unat (cupsWidth h) \<le> 8 * unat (cupsBytesPerLine h) \<and> 8 * unat (cupsBytesPerLine h) < 2 ^ 32 \<longrightarrow>
      (\<exists>s' cols. stub_page True h ls s = Some s' \<and> g_page s' = None \<and> sent s' = sent s @ framed cols
        \<and> concat (framed cols) = concat (map (encode_cmd False) ([Init, Raster_Start False] @ map Raster_Line cols @ [Form_Feed]))
        \<and> length cols = unat (cupsWidth h)
        \<and> (\<forall>c<unat (cupsWidth h). \<forall>r<128. scan_dot (cols ! c) r \<longleftrightarrow> r < unat (cupsHeight h) \<and> scan_dot (ls ! r) c)))
    \<and> (g_print s \<longrightarrow> (\<exists>s'. stub_page False h ls s = Some s' \<and> sent s' = sent s @ [[0x1b, 0x40], [0x1b, 0x69, 0x52, 0x01], [0x0c]]))
    \<and> (\<not> g_print s \<longrightarrow> (\<exists>s'. stub_page mem h ls s = Some s' \<and> sent s' = sent s))"
proof (intro conjI impI, goal_cases)
  case 1
  then show ?case using transposed_page [OF _ assms] by blast
next
  case 2
  then show ?case using silent_page [OF assms(2), of s False] assms(1) by (simp add: framed_def)
next
  case 3
  then show ?case using silent_page [OF assms(2), of s mem] by simp
qed

theorem stub_transposes_witness:
  "(\<exists>s' cols. stub_page True \<lparr>cupsWidth = 2, cupsHeight = 3, cupsBytesPerLine = 1\<rparr> [[0x80], [0x40], [0xc0]]
      (stub_main (\<lambda>_. Some [])) = Some s' \<and> sent s' = framed cols \<and> length cols = 2
    \<and> scan_dot (cols ! 0) 0 \<and> \<not> scan_dot (cols ! 0) 1 \<and> scan_dot (cols ! 0) 2 \<and> scan_dot (cols ! 1) 1)
   \<and> (\<exists>s'. stub_page False \<lparr>cupsWidth = 2, cupsHeight = 3, cupsBytesPerLine = 1\<rparr> [[0x80], [0x40], [0xc0]]
      (stub_main (\<lambda>_. Some [])) = Some s' \<and> length (sent s') = 3)"
proof -
  let ?h = "\<lparr>cupsWidth = 2, cupsHeight = 3, cupsBytesPerLine = 1\<rparr>" and ?ls = "[[0x80], [0x40], [0xc0 :: u8]]"
  have w: "whole_scan ?h ?ls" by (simp add: whole_scan_def)
  have g: "g_transpose (stub_main (\<lambda>_. Some []))" "g_print (stub_main (\<lambda>_. Some []))" "sent (stub_main (\<lambda>_. Some [])) = []"
    by (simp_all add: stub_main_def)
  obtain s' cols where r: "stub_page True ?h ?ls (stub_main (\<lambda>_. Some [])) = Some s'" "sent s' = framed cols" "length cols = 2"
    "\<forall>c<2. \<forall>r<128. scan_dot (cols ! c) r \<longleftrightarrow> r < 3 \<and> scan_dot (?ls ! r) c"
    using conjunct1 [OF stub_transposes [OF g(1) w, of undefined]] g(2,3) by auto
  obtain t where t: "stub_page False ?h ?ls (stub_main (\<lambda>_. Some [])) = Some t" "length (sent t) = 3"
    using conjunct1 [OF conjunct2 [OF stub_transposes [OF g(1) w, of undefined]]] g(2,3) by auto
  have "scan_dot (?ls ! 0) 0" "\<not> scan_dot (?ls ! 1) 0" "scan_dot (?ls ! 2) 0" "scan_dot (?ls ! 1) 1"
    by (simp_all add: scan_dot_def bit_iff_odd_drop_bit)
  with r t show ?thesis by (intro conjI exI [of _ s'] exI [of _ cols] exI [of _ t]) simp_all
qed

text \<open>Without it the spike sends one raster line per scanline, its first 128 pixels with white behind a
  shorter line, in the driver's command bytes; no access leaves a buffer.\<close>

theorem stub_packs:
  assumes "g_print s" "\<not> g_transpose s" "whole_scan h ls"
  shows "\<exists>s'. stub_page mem h ls s = Some s' \<and> (let lines = map (\<lambda>l. take 16 (l @ replicate 16 0)) ls in
    sent s' = sent s @ framed lines
    \<and> concat (framed lines) = concat (map (encode_cmd False) ([Init, Raster_Start False] @ map Raster_Line lines @ [Form_Feed])))"
proof -
  obtain s1 where st: "rstartpage_cb mem h s = Some (True, s1)" "g_print s1" "\<not> g_transpose s1"
    "g_bpl s1 = cupsBytesPerLine h" "sent s1 = sent s @ [[0x1b, 0x40], [0x1b, 0x69, 0x52, 0x01]]"
    using assms(1,2) by (auto simp: rstartpage_cb_def emit_def Let_def)
  let ?lines = "map (\<lambda>l. take 16 (l @ replicate 16 0)) ls"
  obtain s2 where ln: "stub_lines 0 ls s1 = Some s2" "same_setup s1 s2"
    "sent s2 = sent s1 @ concat (map (\<lambda>rl. [[0x47, 0x10, 0x00], rl]) ?lines)"
    using send_lines [OF st(2,3), of ls 0] assms(3) st(4) by (auto simp: whole_scan_def comp_def simp del: take_append)
  have "rendpage_cb s2 = Some (True, emit [[0x0c]] s2)"
    using ln(2) st(2,3) by (simp add: rendpage_cb_def same_setup_def)
  then have "stub_page mem h ls s = Some (emit [[0x0c]] s2)" "sent (emit [[0x0c]] s2) = sent s @ framed ?lines"
    using st(1,5) ln by (simp_all add: stub_page_def emit_def framed_def del: take_append)
  moreover have "list_all (\<lambda>rl. length rl = 16) ?lines" by (auto simp: list_all_iff min_def)
  note framed_program [OF this]
  ultimately show ?thesis unfolding Let_def by blast
qed

theorem stub_packs_witness:
  "\<exists>s'. stub_page True \<lparr>cupsWidth = 2, cupsHeight = 1, cupsBytesPerLine = 1\<rparr> [[0x80]]
      (stub_main (\<lambda>n. if n = ''STUB_PRINT'' then Some [] else None)) = Some s'
    \<and> sent s' = framed [0x80 # replicate 15 0]"
  using stub_packs [of "stub_main (\<lambda>n. if n = ''STUB_PRINT'' then Some [] else None)"
      "\<lparr>cupsWidth = 2, cupsHeight = 1, cupsBytesPerLine = 1\<rparr>" "[[0x80]]"]
  by (auto simp: stub_main_def whole_scan_def Let_def)

end
